(* ===== verification/GoPrelude.thy ===== *)
theory GoPrelude
  imports Main "HOL-Library.Word" "HOL-Library.Sublist" "HOL-Library.Multiset"
begin

text \<open>
  The parts of the Go language and of its standard library that the modelled packages share:
  errors with their messages and wrapped causes, calls that return or panic, byte strings with the
  functions of package strings, decimal numerals of strconv and fmt, and lexical file paths.
  A Go string is a sequence of bytes, which is what Isabelle's \<open>string\<close> is.
\<close>

named_theorems go_simps \<open>unfolding rules of the modelled Go code\<close>
named_theorems go_splits \<open>case distinctions on results of modelled Go code\<close>

type_synonym uint64 = "64 word"

section \<open>Errors and outcomes\<close>

text \<open>
  \<open>ErrNew\<close> is \<open>errors.New\<close> or \<open>fmt.Errorf\<close> without \<open>%w\<close>; \<open>ErrWrap p e\<close> is
  \<open>fmt.Errorf("p%w", e)\<close>; \<open>ErrWrap2 p e q f\<close> is \<open>fmt.Errorf("p%wq%w", e, f)\<close> and
  \<open>ErrJoin\<close> is \<open>errors.Join\<close> of two errors.
\<close>

datatype go_error =
    ErrNew string
  | ErrWrap string go_error
  | ErrWrap2 string go_error string go_error
  | ErrJoin go_error go_error

primrec Error :: "go_error \<Rightarrow> string" where
  "Error (ErrNew s) = s"
| "Error (ErrWrap p e) = p @ Error e"
| "Error (ErrWrap2 p e q f) = p @ Error e @ q @ Error f"
| "Error (ErrJoin e f) = Error e @ [CHR 0x0A] @ Error f"

text \<open>\<open>errors.Is\<close>: the target is the error or one of the errors it wraps.\<close>

primrec errors_Is :: "go_error \<Rightarrow> go_error \<Rightarrow> bool" where
  "errors_Is (ErrNew s) t \<longleftrightarrow> t = ErrNew s"
| "errors_Is (ErrWrap p e) t \<longleftrightarrow> t = ErrWrap p e \<or> errors_Is e t"
| "errors_Is (ErrWrap2 p e q f) t \<longleftrightarrow> t = ErrWrap2 p e q f \<or> errors_Is e t \<or> errors_Is f t"
| "errors_Is (ErrJoin e f) t \<longleftrightarrow> t = ErrJoin e f \<or> errors_Is e t \<or> errors_Is f t"

lemma errors_Is_refl [simp, intro]: "errors_Is e e"
  by (cases e) simp_all

text \<open>A call either returns or panics.\<close>

datatype 'a outcome = Ret 'a | Panic string

type_synonym 'a result = "go_error + 'a"

text \<open>The two runtime panics that the modelled code can reach.\<close>

definition nil_dereference :: string where
  "nil_dereference = ''invalid memory address or nil pointer dereference''"

definition index_out_of_range :: string where
  "index_out_of_range = ''index out of range''"

definition slice_bounds_out_of_range :: string where
  "slice_bounds_out_of_range = ''slice bounds out of range''"

section \<open>Package strings\<close>

definition HasPrefix :: "string \<Rightarrow> string \<Rightarrow> bool" where
  "HasPrefix s p \<longleftrightarrow> prefix p s"

definition HasSuffix :: "string \<Rightarrow> string \<Rightarrow> bool" where
  "HasSuffix s p \<longleftrightarrow> suffix p s"

definition TrimPrefix :: "string \<Rightarrow> string \<Rightarrow> string" where
  "TrimPrefix s p = (if HasPrefix s p then drop (length p) s else s)"

text \<open>\<open>strings.Index\<close>: the position of the first occurrence, \<open>None\<close> for -1.\<close>

fun Index :: "string \<Rightarrow> string \<Rightarrow> nat option" where
  "Index [] sub = (if sub = [] then Some 0 else None)"
| "Index (c # s) sub = (if prefix sub (c # s) then Some 0 else map_option Suc (Index s sub))"

text \<open>\<open>strings.SplitN\<close> with a non-empty separator and a positive count.\<close>

fun SplitN :: "string \<Rightarrow> string \<Rightarrow> nat \<Rightarrow> string list" where
  "SplitN s sep 0 = []"
| "SplitN s sep (Suc 0) = [s]"
| "SplitN s sep (Suc (Suc n)) =
     (case Index s sep of
        None \<Rightarrow> [s]
      | Some m \<Rightarrow> take m s # SplitN (drop (m + length sep) s) sep (Suc n))"

fun Join :: "string list \<Rightarrow> string \<Rightarrow> string" where
  "Join [] sep = []"
| "Join [s] sep = s"
| "Join (s # t # ss) sep = s @ sep @ Join (t # ss) sep"

lemma HasPrefix_append [simp]: "HasPrefix (p @ s) p"
  by (simp add: HasPrefix_def)

lemma TrimPrefix_append [simp]: "TrimPrefix (p @ s) p = s"
  by (simp add: TrimPrefix_def)

lemma HasPrefix_TrimPrefix: "HasPrefix s p \<Longrightarrow> s = p @ TrimPrefix s p"
  by (auto simp: HasPrefix_def TrimPrefix_def prefix_def)

lemma TrimPrefix_length: "length (TrimPrefix s p) \<le> length s"
  by (simp add: TrimPrefix_def)

lemma Index_Some_split:
  "Index s sub = Some m \<Longrightarrow> s = take m s @ sub @ drop (m + length sub) s"
proof (induction s sub arbitrary: m rule: Index.induct)
  case (1 sub)
  then show ?case by (simp split: if_splits)
next
  case (2 c s sub)
  show ?case
  proof (cases "prefix sub (c # s)")
    case True
    with "2.prems" show ?thesis by (auto simp: prefix_def)
  next
    case False
    with "2.prems" obtain k where k: "Index s sub = Some k" "m = Suc k" by auto
    from "2.IH" [OF False k(1)] k(2) show ?thesis by simp
  qed
qed

lemma Index_single_None: "Index s [c] = None \<longleftrightarrow> c \<notin> set s"
  by (induction s) auto

lemma Index_single_append: "c \<notin> set u \<Longrightarrow> Index (u @ c # v) [c] = Some (length u)"
  by (induction u) auto

lemma Index_single_Some: "Index s [c] = Some m \<Longrightarrow> c \<notin> set (take m s)"
proof (induction s arbitrary: m)
  case Nil
  then show ?case by simp
next
  case (Cons a s)
  then show ?case by (auto split: if_splits)
qed

lemma SplitN_2: "SplitN s sep 2 =
  (case Index s sep of None \<Rightarrow> [s] | Some m \<Rightarrow> [take m s, drop (m + length sep) s])"
  by (simp add: numeral_2_eq_2 split: option.splits)

lemma SplitN_2_nonempty [simp]: "SplitN s sep 2 \<noteq> []"
  by (simp add: SplitN_2 split: option.splits)

subsection \<open>strings.TrimSpace\<close>

text \<open>
  The white space of \<open>unicode.IsSpace\<close> in its UTF-8 encodings: the six ASCII characters, U+0085,
  U+00A0, U+1680, U+2000 to U+200A, U+2028, U+2029, U+202F, U+205F and U+3000.
\<close>

definition utf8_spaces :: "string list" where
  "utf8_spaces =
     map (\<lambda>n. [char_of (n::nat)]) [9, 10, 11, 12, 13, 32]
     @ map (map (\<lambda>n. char_of (n::nat)))
         ([[0xC2, 0x85], [0xC2, 0xA0], [0xE1, 0x9A, 0x80]]
          @ map (\<lambda>n. [0xE2, 0x80, n]) ([0x80..<0x8B] @ [0xA8, 0xA9, 0xAF])
          @ [[0xE2, 0x81, 0x9F], [0xE3, 0x80, 0x80]])"

text \<open>Strips the encodings \<open>ws\<close> (none of them empty) from the front, one at a time.\<close>

function strip_front :: "string list \<Rightarrow> string \<Rightarrow> string" where
  "strip_front ws s =
     (case find (\<lambda>w. w \<noteq> [] \<and> prefix w s) ws of
        None \<Rightarrow> s
      | Some w \<Rightarrow> strip_front ws (drop (length w) s))"
  by pat_completeness auto
termination
proof (relation "measure (\<lambda>(ws, s). length s)")
  fix ws s w
  assume "find (\<lambda>w. w \<noteq> [] \<and> prefix w s) ws = Some w"
  then have "w \<noteq> []" and "prefix w s" by (auto simp: find_Some_iff)
  then have "0 < length w" and "length w \<le> length s" by (auto dest: prefix_length_le)
  then have "length s - length w < length s" by linarith
  then show "((ws, drop (length w) s), (ws, s)) \<in> measure (\<lambda>(ws, s). length s)" by simp
qed simp

declare strip_front.simps [simp del]

definition TrimSpace :: "string \<Rightarrow> string" where
  "TrimSpace s =
     rev (strip_front (map rev utf8_spaces) (rev (strip_front utf8_spaces s)))"

lemma strip_front_suffix: "suffix (strip_front ws s) s"
proof (induction ws s rule: strip_front.induct)
  case (1 ws s)
  show ?case
  proof (cases "find (\<lambda>w. w \<noteq> [] \<and> prefix w s) ws")
    case None
    then show ?thesis by (subst strip_front.simps) simp
  next
    case (Some w)
    with 1 have "suffix (strip_front ws (drop (length w) s)) (drop (length w) s)" by simp
    then have "suffix (strip_front ws (drop (length w) s)) s"
      by (rule suffix_order.order_trans) (rule suffix_drop)
    with Some show ?thesis by (subst strip_front.simps) simp
  qed
qed

section \<open>Decimal numerals\<close>

definition digit_char :: "nat \<Rightarrow> char" where
  "digit_char d = char_of (48 + d)"

definition is_digit :: "char \<Rightarrow> bool" where
  "is_digit c \<longleftrightarrow> 48 \<le> (of_char c :: nat) \<and> (of_char c :: nat) \<le> 57"

definition digit_val :: "char \<Rightarrow> nat" where
  "digit_val c = of_char c - 48"

text \<open>The decimal text that \<open>%d\<close> and \<open>strconv.Itoa\<close> print for a number that is not negative.\<close>

fun itoa :: "nat \<Rightarrow> string" where
  "itoa n = (if n < 10 then [digit_char n] else itoa (n div 10) @ [digit_char (n mod 10)])"

declare itoa.simps [simp del]

definition decimal :: "string \<Rightarrow> nat" where
  "decimal s = foldl (\<lambda>acc c. 10 * acc + digit_val c) 0 s"

text \<open>\<open>strconv.ParseUint(s, 10, 64)\<close>: digits only, at least one, and the value fits 64 bits.\<close>

definition ParseUint :: "string \<Rightarrow> uint64 option" where
  "ParseUint s =
     (if s \<noteq> [] \<and> list_all is_digit s \<and> decimal s < 2 ^ 64
      then Some (word_of_nat (decimal s)) else None)"

lemma digit_char_lt [simp]: "d < 10 \<Longrightarrow> is_digit (digit_char d)"
  by (simp add: is_digit_def digit_char_def)

lemma digit_val_char [simp]: "d < 10 \<Longrightarrow> digit_val (digit_char d) = d"
  by (simp add: digit_val_def digit_char_def)

lemma itoa_not_Nil [simp]: "itoa n \<noteq> []"
  by (subst itoa.simps) simp

lemma itoa_digits [simp]: "list_all is_digit (itoa n)"
proof (induction n rule: itoa.induct)
  case (1 n)
  then show ?case by (subst itoa.simps) simp
qed

lemma decimal_snoc [simp]: "decimal (s @ [c]) = 10 * decimal s + digit_val c"
  by (simp add: decimal_def)

lemma decimal_itoa [simp]: "decimal (itoa n) = n"
proof (induction n rule: itoa.induct)
  case (1 n)
  show ?case
  proof (cases "n < 10")
    case True
    then show ?thesis by (subst itoa.simps) (simp add: decimal_def)
  next
    case False
    with 1 show ?thesis by (subst itoa.simps) simp
  qed
qed

lemma ParseUint_itoa [simp]: "n < 2 ^ 64 \<Longrightarrow> ParseUint (itoa n) = Some (word_of_nat n)"
  by (simp add: ParseUint_def)

lemma itoa_inject: "itoa m = itoa n \<longleftrightarrow> m = n"
  by (metis decimal_itoa)

text \<open>\<open>%d\<close> on a signed number.\<close>

definition fmt_int :: "int \<Rightarrow> string" where
  "fmt_int i = (if i < 0 then CHR ''-'' # itoa (nat (- i)) else itoa (nat i))"

section \<open>Paths\<close>

text \<open>
  The elements of a slash-separated path, and \<open>filepath.Clean\<close> on them: empty elements and dots
  disappear, a double dot removes the element before it, or itself at the root.
\<close>

fun path_split :: "string \<Rightarrow> string list" where
  "path_split [] = [[]]"
| "path_split (c # s) =
     (if c = CHR ''/'' then [] # path_split s
      else (case path_split s of [] \<Rightarrow> [[c]] | e # es \<Rightarrow> (c # e) # es))"

fun clean_elems :: "bool \<Rightarrow> string list \<Rightarrow> string list \<Rightarrow> string list" where
  "clean_elems rooted out [] = rev out"
| "clean_elems rooted out (e # es) =
     (if e = [] \<or> e = ''.'' then clean_elems rooted out es
      else if e = ''..'' then
        (case out of
           [] \<Rightarrow> clean_elems rooted (if rooted then [] else [e]) es
         | o1 # os \<Rightarrow> if o1 = ''..'' then clean_elems rooted (e # out) es
                     else clean_elems rooted os es)
      else clean_elems rooted (e # out) es)"

definition filepath_Clean :: "string \<Rightarrow> string" where
  "filepath_Clean p =
     (let rooted = HasPrefix p ''/'';
          q = (if rooted then ''/'' else []) @ Join (clean_elems rooted [] (path_split p)) ''/''
      in if q = [] then ''.'' else q)"

definition filepath_Join :: "string \<Rightarrow> string \<Rightarrow> string" where
  "filepath_Join a b =
     (case filter (\<lambda>e. e \<noteq> []) [a, b] of
        [] \<Rightarrow> []
      | es \<Rightarrow> filepath_Clean (Join es ''/''))"

text \<open>\<open>path.Base\<close>: the last element after trailing slashes are removed.\<close>

definition path_Base :: "string \<Rightarrow> string" where
  "path_Base p =
     (if p = [] then ''.''
      else let q = rev (dropWhile (\<lambda>c. c = CHR ''/'') (rev p))
           in if q = [] then ''/'' else last (path_split q))"

section \<open>Lists\<close>

lemma mset_subset_set: "mset xs = mset ys \<Longrightarrow> set xs = set ys"
  by (metis set_mset_mset)

lemma mset_rotate1 [simp]: "mset (rotate1 xs) = mset xs"
  by (cases xs) simp_all

lemma sorted_map_distinct_unique:
  fixes f :: "'a \<Rightarrow> 'b :: linorder"
  assumes "mset xs = mset ys" and "sorted (map f xs)" and "sorted (map f ys)"
    and "distinct (map f xs)"
  shows "xs = ys"
proof -
  have "inj_on f (set xs)" using assms(4) by (simp add: distinct_map)
  moreover have "map f xs = map f ys"
    using assms(1-3) by (metis mset_map properties_for_sort)
  moreover have "set xs = set ys" using assms(1) by (rule mset_subset_set)
  ultimately show ?thesis by (metis inj_on_map_eq_map Un_absorb)
qed

lemma map_eq_map_Inr:
  "(\<exists>cs. map f xs = map Inr cs) \<longleftrightarrow> (\<forall>x \<in> set xs. \<exists>c. f x = Inr c)"
proof (induction xs)
  case (Cons x xs)
  have "(\<exists>cs. map f (x # xs) = map Inr cs) \<longleftrightarrow> (\<exists>c cs. f x = Inr c \<and> map f xs = map Inr cs)"
    by (auto simp: Cons_eq_map_conv intro: exI [of _ "_ # _"])
  with Cons show ?case by auto
qed simp

end
