(* ===== verification/GoSort.thy ===== *)
theory GoSort
  imports GoPrelude
begin

text \<open>
  \<open>sort.Sort\<close> of the Go standard library on a slice whose \<open>Less\<close> compares a key.
  \<open>Sort\<close> runs \<open>insertionSort\<close> on at most twelve elements and pattern-defeating quicksort on
  more; the former is modelled as it is written, the latter is the parameter \<open>pdq\<close>, whose
  documented contract (a permutation in ascending order, with no promise on equal keys) is the
  locale \<open>sorter\<close>.
\<close>

section \<open>The contract\<close>

locale sorter =
  fixes srt :: "('a \<Rightarrow> 'k :: linorder) \<Rightarrow> 'a list \<Rightarrow> 'a list"
  assumes mset_srt: "mset (srt f xs) = mset xs"
    and sorted_srt: "sorted (map f (srt f xs))"
begin

lemma length_srt: "length (srt f xs) = length xs"
  by (metis mset_srt size_mset)

lemma set_srt: "set (srt f xs) = set xs"
  by (metis mset_srt set_mset_mset)

lemma keys_srt: "map f (srt f xs) = sort (map f xs)"
  by (metis mset_map mset_srt properties_for_sort sorted_srt)

lemma srt_unique:
  assumes "mset ys = mset xs" and "sorted (map f ys)" and "distinct (map f ys)"
  shows "srt f xs = ys"
  using assms sorted_map_distinct_unique [of ys "srt f xs" f] by (simp add: mset_srt sorted_srt)

end

section \<open>insertionSort\<close>

text \<open>
  The inner loop \<open>for j := i; j > a && data.Less(j, j-1); j--\<close> with its swap, from \<open>a = 0\<close>, and
  the outer loop over \<open>i\<close>.
\<close>

fun insert_down :: "('a \<Rightarrow> 'k :: linorder) \<Rightarrow> nat \<Rightarrow> 'a list \<Rightarrow> 'a list" where
  "insert_down f 0 xs = xs"
| "insert_down f (Suc j) xs =
     (if f (xs ! Suc j) < f (xs ! j)
      then insert_down f j (xs[Suc j := xs ! j, j := xs ! Suc j]) else xs)"

definition insertionSort :: "('a \<Rightarrow> 'k :: linorder) \<Rightarrow> 'a list \<Rightarrow> 'a list" where
  "insertionSort f xs = fold (insert_down f) [1..<length xs] xs"

definition maxInsertion :: nat where
  "maxInsertion = 12"

definition sort_Sort ::
  "(('a \<Rightarrow> 'k :: linorder) \<Rightarrow> 'a list \<Rightarrow> 'a list) \<Rightarrow> ('a \<Rightarrow> 'k) \<Rightarrow> 'a list \<Rightarrow> 'a list" where
  "sort_Sort pdq f xs =
     (if length xs \<le> 1 then xs
      else if length xs \<le> maxInsertion then insertionSort f xs
      else pdq f xs)"

text \<open>Where the inner loop puts an element: after the elements whose key is not greater.\<close>

definition ins_after :: "('a \<Rightarrow> 'k :: linorder) \<Rightarrow> 'a \<Rightarrow> 'a list \<Rightarrow> 'a list" where
  "ins_after f x ps = filter (\<lambda>y. f y \<le> f x) ps @ x # filter (\<lambda>y. f x < f y) ps"

lemma insert_down_eq:
  "sorted (map f ps) \<Longrightarrow> insert_down f (length ps) (ps @ x # rs) = ins_after f x ps @ rs"
proof (induction ps arbitrary: rs rule: rev_induct)
  case Nil
  then show ?case by (simp add: ins_after_def)
next
  case (snoc y qs)
  have swap: "(qs @ y # x # rs)[Suc (length qs) := y, length qs := x] = qs @ x # y # rs"
    by (simp add: list_update_append)
  show ?case
  proof (cases "f x < f y")
    case True
    with snoc.prems have "insert_down f (length qs) (qs @ x # y # rs) = ins_after f x qs @ y # rs"
      by (intro snoc.IH) (simp add: sorted_append)
    with True swap show ?thesis by (simp add: nth_append ins_after_def)
  next
    case False
    then have "\<forall>z \<in> set (qs @ [y]). f z \<le> f x"
      using snoc.prems by (fastforce simp: sorted_append)
    then have "ins_after f x (qs @ [y]) = qs @ [y, x]"
      by (simp add: ins_after_def filter_id_conv filter_empty_conv not_less)
    with False show ?thesis by (simp add: nth_append)
  qed
qed

lemma mset_ins_after [simp]: "mset (ins_after f x ps) = add_mset x (mset ps)"
  by (simp add: ins_after_def) (metis (no_types, lifting) filter_cong mset_filter
      multiset_partition not_less)

lemma length_ins_after [simp]: "length (ins_after f x ps) = Suc (length ps)"
  by (metis mset_ins_after size_add_mset size_mset)

lemma sorted_ins_after: "sorted (map f ps) \<Longrightarrow> sorted (map f (ins_after f x ps))"
  by (auto simp: ins_after_def sorted_append sorted_filter)

lemma stable_ins_after:
  "filter (\<lambda>y. k = f y) (ins_after f x ps) = filter (\<lambda>y. k = f y) (ps @ [x])"
proof (cases "k \<le> f x")
  case True
  then have "filter (\<lambda>y. k = f y) (filter (\<lambda>y. f x < f y) ps) = []"
    by (auto simp: filter_empty_conv)
  moreover have "filter (\<lambda>y. k = f y) (filter (\<lambda>y. f y \<le> f x) ps) = filter (\<lambda>y. k = f y) ps"
    using True by (simp add: conj_commute cong: filter_cong) (metis (mono_tags, lifting) filter_cong)
  ultimately show ?thesis by (auto simp: ins_after_def simp del: filter_filter)
next
  case False
  then have "filter (\<lambda>y. k = f y) (filter (\<lambda>y. f y \<le> f x) ps) = []"
    by (auto simp: filter_empty_conv)
  moreover have "filter (\<lambda>y. k = f y) (filter (\<lambda>y. f x < f y) ps) = filter (\<lambda>y. k = f y) ps"
    using False by simp (metis (mono_tags, lifting) filter_cong not_le)
  ultimately show ?thesis using False by (auto simp: ins_after_def simp del: filter_filter)
qed

text \<open>The invariant of the outer loop: a sorted, stable permutation of the first \<open>i\<close> elements.\<close>

definition sorted_upto :: "('a \<Rightarrow> 'k :: linorder) \<Rightarrow> 'a list \<Rightarrow> 'a list \<Rightarrow> bool" where
  "sorted_upto f xs ps \<longleftrightarrow> mset ps = mset xs \<and> sorted (map f ps)
     \<and> (\<forall>k. filter (\<lambda>y. k = f y) ps = filter (\<lambda>y. k = f y) xs)"

lemma sorted_upto_step: "sorted_upto f xs ps \<Longrightarrow> sorted_upto f (xs @ [x]) (ins_after f x ps)"
  by (auto simp: sorted_upto_def sorted_ins_after stable_ins_after)

lemma sorted_upto_fold:
  assumes "Suc n \<le> length xs"
  shows "\<exists>ps. fold (insert_down f) [1..<Suc n] xs = ps @ drop (Suc n) xs
           \<and> sorted_upto f (take (Suc n) xs) ps"
  using assms
proof (induction n)
  case 0
  then obtain x ys where "xs = x # ys" by (cases xs) auto
  then show ?case by (intro exI [of _ "[x]"]) (simp add: sorted_upto_def)
next
  case (Suc n)
  then obtain ps where ps: "fold (insert_down f) [1..<Suc n] xs = ps @ drop (Suc n) xs"
    "sorted_upto f (take (Suc n) xs) ps" by auto
  let ?x = "xs ! Suc n"
  have len: "length ps = Suc n"
    using ps(2) Suc.prems by (metis Suc_leD length_take min_absorb2 size_mset sorted_upto_def)
  have dr: "drop (Suc n) xs = ?x # drop (Suc (Suc n)) xs"
    using Suc.prems by (simp add: Cons_nth_drop_Suc)
  have tk: "take (Suc (Suc n)) xs = take (Suc n) xs @ [?x]"
    using Suc.prems by (simp add: take_Suc_conv_app_nth)
  have "insert_down f (Suc n) (ps @ ?x # drop (Suc (Suc n)) xs)
      = ins_after f ?x ps @ drop (Suc (Suc n)) xs"
    using insert_down_eq [of f ps] ps(2) by (simp add: sorted_upto_def len [symmetric])
  then have "fold (insert_down f) [1..<Suc (Suc n)] xs = ins_after f ?x ps @ drop (Suc (Suc n)) xs"
    using ps(1) dr by (simp add: upt_Suc)
  moreover have "sorted_upto f (take (Suc (Suc n)) xs) (ins_after f ?x ps)"
    unfolding tk using ps(2) by (rule sorted_upto_step)
  ultimately show ?case by blast
qed

text \<open>Hence the loops compute the stable sort of the library.\<close>

lemma insertionSort_eq_sort_key: "insertionSort f xs = sort_key f xs"
proof (cases xs)
  case Nil
  then show ?thesis by (simp add: insertionSort_def)
next
  case (Cons x ys)
  then have "Suc (length ys) \<le> length xs" by simp
  then obtain ps where "fold (insert_down f) [1..<Suc (length ys)] xs = ps"
    and "sorted_upto f xs ps"
    using sorted_upto_fold [of "length ys" xs f] Cons by auto
  then have ps: "insertionSort f xs = ps" "mset ps = mset xs" "sorted (map f ps)"
    "\<And>k. filter (\<lambda>y. k = f y) ps = filter (\<lambda>y. k = f y) xs"
    using Cons by (auto simp: insertionSort_def sorted_upto_def)
  have "sort_key f xs = ps"
    by (rule properties_for_sort_key) (simp_all add: ps)
  with ps(1) show ?thesis by simp
qed

interpretation insertion: sorter insertionSort
  by unfold_locales (simp_all add: insertionSort_eq_sort_key)

text \<open>With a quicksort that keeps the contract, \<open>sort.Sort\<close> keeps it.\<close>

locale pdq_sorter = sorter pdq for pdq :: "('a \<Rightarrow> 'k :: linorder) \<Rightarrow> 'a list \<Rightarrow> 'a list"
begin

sublocale go_sort: sorter "sort_Sort pdq"
proof
  fix f :: "'a \<Rightarrow> 'k" and xs :: "'a list"
  show "mset (sort_Sort pdq f xs) = mset xs"
    by (simp add: sort_Sort_def insertion.mset_srt mset_srt)
  show "sorted (map f (sort_Sort pdq f xs))"
    using insertion.sorted_srt [of f xs] sorted_srt [of f xs]
    by (cases xs) (auto simp: sort_Sort_def)
qed

end

interpretation pdq_insertion: pdq_sorter insertionSort
  by unfold_locales

lemma sort_Sort_small:
  "length xs \<le> maxInsertion \<Longrightarrow> sort_Sort pdq f xs = sort_key f xs"
  by (cases xs) (auto simp: sort_Sort_def insertionSort_eq_sort_key)

end
