(* ===== verification/SqliteConn.thy ===== *)
theory SqliteConn
  imports GoPrelude
begin

text \<open>
  The SQLite connection as package migrationx uses it (src/vendor/zombiezen.com/go/sqlite/sqlitex):
  savepoints, \<open>Save\<close> with its deferred release, and \<open>ExecuteScript\<close>. The contents of the database
  beside the table schema_migrations are a parameter \<open>'u\<close>, and so is what a statement of a script
  does to the database. Any statement may fail, and the connection may be interrupted at any
  statement: the argument \<open>flt\<close> says what happens to the statement with a given number.
\<close>

section \<open>Databases and connections\<close>

text \<open>The rows (version, dirty) of schema_migrations, \<open>None\<close> as long as there is no such table.\<close>

record 'u database =
  user :: 'u
  schema_migrations :: "(uint64 \<times> bool) list option"

text \<open>
  \<open>cur\<close> is the database as this connection sees it, \<open>saves\<close> the database at each open savepoint,
  innermost first. A connection without open savepoint is in autocommit mode.
\<close>

record 'u conn =
  cur :: "'u database"
  saves :: "'u database list"
  interrupted :: bool
  ops :: nat

type_synonym 'u stmt = "'u database \<Rightarrow> 'u database result"

definition AutocommitEnabled :: "'u conn \<Rightarrow> bool" where
  "AutocommitEnabled c \<longleftrightarrow> saves c = []"

text \<open>What other connections see: the state before the outermost savepoint.\<close>

definition committed :: "'u conn \<Rightarrow> 'u database" where
  "committed c = (if saves c = [] then cur c else last (saves c))"

text \<open>
  A statement fails with an error, or the interrupt arrives, which fails this and all later
  statements and, for a statement that writes, rolls the whole transaction back.
\<close>

datatype fault = Fails go_error | Interrupt bool

type_synonym faults = "nat \<Rightarrow> fault option"

definition errInterrupt :: go_error where
  "errInterrupt = ErrNew ''sqlite: interrupted''"

definition exec_op ::
  "faults \<Rightarrow> ('u conn \<Rightarrow> 'u conn result) \<Rightarrow> 'u conn \<Rightarrow> go_error option \<times> 'u conn" where
  "exec_op flt f c =
     (let c1 = c\<lparr>ops := Suc (ops c)\<rparr>
      in if interrupted c then (Some errInterrupt, c1)
         else case flt (ops c) of
           Some (Fails e) \<Rightarrow> (Some e, c1)
         | Some (Interrupt rolled_back) \<Rightarrow>
             (Some errInterrupt,
              if rolled_back \<and> saves c \<noteq> []
              then c1\<lparr>cur := last (saves c), saves := [], interrupted := True\<rparr>
              else c1\<lparr>interrupted := True\<rparr>)
         | None \<Rightarrow> (case f c1 of Inl e \<Rightarrow> (Some e, c1) | Inr c2 \<Rightarrow> (None, c2)))"

definition on_db :: "'u stmt \<Rightarrow> 'u conn \<Rightarrow> 'u conn result" where
  "on_db f c = map_sum id (\<lambda>d. c\<lparr>cur := d\<rparr>) (f (cur c))"

section \<open>Savepoints\<close>

text \<open>
  A savepoint is found by its name; the innermost of that name is the one at depth \<open>n\<close>. Releasing
  it or rolling back to it ends the savepoints inside it.
\<close>

definition savepoint :: "'u conn \<Rightarrow> 'u conn result" where
  "savepoint c = Inr (c\<lparr>saves := cur c # saves c\<rparr>)"

definition release :: "nat \<Rightarrow> 'u conn \<Rightarrow> 'u conn result" where
  "release n c = Inr (c\<lparr>saves := drop (length (saves c) - n) (saves c)\<rparr>)"

definition rollback_to :: "nat \<Rightarrow> 'u conn \<Rightarrow> 'u conn result" where
  "rollback_to n c =
     (let ss = drop (length (saves c) - Suc n) (saves c)
      in case ss of [] \<Rightarrow> Inl (ErrNew ''no such savepoint'')
         | d # _ \<Rightarrow> Inr (c\<lparr>cur := d, saves := ss\<rparr>))"

type_synonym 'u action = "'u conn \<Rightarrow> go_error option outcome \<times> 'u conn"

text \<open>The error path runs with the interrupt disabled, so no interrupt reaches its statements.\<close>

definition masked :: "faults \<Rightarrow> faults" where
  "masked flt k = (case flt k of Some (Interrupt _) \<Rightarrow> None | x \<Rightarrow> x)"

definition orig_message :: "go_error option outcome \<Rightarrow> string" where
  "orig_message r = (case r of Ret (Some e) \<Rightarrow> Error e @ [CHR 0x0A, CHR 0x09] | _ \<Rightarrow> [])"

definition error_path :: "faults \<Rightarrow> nat \<Rightarrow> go_error option outcome \<Rightarrow> 'u action" where
  "error_path flt n r c =
     (let restore = (\<lambda>c'. c'\<lparr>interrupted := interrupted c\<rparr>)
      in case exec_op (masked flt) (rollback_to n) (c\<lparr>interrupted := False\<rparr>) of
           (Some e, c1) \<Rightarrow> (Panic (orig_message r @ Error e), restore c1)
         | (None, c1) \<Rightarrow>
             (case exec_op (masked flt) (release n) c1 of
                (Some e, c2) \<Rightarrow> (Panic (orig_message r @ Error e), restore c2)
              | (None, c2) \<Rightarrow> (r, restore c2)))"

definition releaseFn :: "faults \<Rightarrow> nat \<Rightarrow> go_error option outcome \<Rightarrow> 'u action" where
  "releaseFn flt n r c =
     (if AutocommitEnabled c then (r, c)
      else if r = Ret None then
        (case exec_op flt (release n) c of
           (None, c1) \<Rightarrow> (Ret None, c1)
         | (Some e, c1) \<Rightarrow>
             if AutocommitEnabled c1 then (Ret (Some e), c1)
             else error_path flt n (Ret (Some e)) c1)
      else error_path flt n r c)"

text \<open>
  \<open>defer sqlitex.Save(conn)(&err)\<close> around a function body. When the interrupt stops the
  SAVEPOINT statement itself, the body still runs and the error is set at its end.
\<close>

definition Save :: "faults \<Rightarrow> 'u action \<Rightarrow> 'u action" where
  "Save flt body c =
     (case exec_op flt savepoint c of
        (Some e, c1) \<Rightarrow>
          if interrupted c1
          then (case body c1 of
                  (Ret None, c2) \<Rightarrow> (Ret (Some e), c2)
                | (r, c2) \<Rightarrow> (r, c2))
          else (Panic (Error e), c1)
      | (None, c1) \<Rightarrow>
          (case body c1 of (r, c2) \<Rightarrow> releaseFn flt (length (saves c)) r c2))"

section \<open>Scripts\<close>

text \<open>A script is the list of its statements, executed one by one inside a savepoint.\<close>

fun exec_stmts :: "faults \<Rightarrow> 'u stmt list \<Rightarrow> 'u conn \<Rightarrow> go_error option \<times> 'u conn" where
  "exec_stmts flt [] c = (None, c)"
| "exec_stmts flt (f # fs) c =
     (case exec_op flt (on_db f) c of
        (Some e, c1) \<Rightarrow> (Some e, c1)
      | (None, c1) \<Rightarrow> exec_stmts flt fs c1)"

definition ExecuteScript :: "faults \<Rightarrow> 'u stmt list \<Rightarrow> 'u action" where
  "ExecuteScript flt fs = Save flt (\<lambda>c. case exec_stmts flt fs c of (e, c1) \<Rightarrow> (Ret e, c1))"

text \<open>The effect of the statements on the database alone, when nothing else goes wrong.\<close>

fun run_stmts :: "'u stmt list \<Rightarrow> 'u stmt" where
  "run_stmts [] d = Inr d"
| "run_stmts (f # fs) d = (case f d of Inl e \<Rightarrow> Inl e | Inr d' \<Rightarrow> run_stmts fs d')"

section \<open>What an action may do to the open savepoints\<close>

text \<open>
  Inside a transaction, or once interrupted, a well-behaved action leaves the savepoints it found in
  place (and may leave more behind when it panics), or the whole transaction is gone, rolled back.
\<close>

definition live :: "'u conn \<Rightarrow> bool" where
  "live c \<longleftrightarrow> saves c \<noteq> [] \<or> interrupted c"

definition framed :: "'u conn \<Rightarrow> 'u conn \<Rightarrow> bool" where
  "framed c c' \<longleftrightarrow> (saves c \<noteq> [] \<and> suffix (saves c) (saves c'))
     \<or> (saves c' = [] \<and> interrupted c' \<and> cur c' = committed c)"

lemma suffix_last: "suffix ys xs \<Longrightarrow> ys \<noteq> [] \<Longrightarrow> last xs = last ys"
  by (auto simp: suffix_def)

lemma suffix_drop_length: "suffix ys xs \<Longrightarrow> drop (length xs - length ys) xs = ys"
  by (auto simp: suffix_def)

lemma framed_committed: "framed c c' \<Longrightarrow> committed c' = committed c"
  by (auto simp: framed_def committed_def suffix_last)

lemma framed_live: "framed c c' \<Longrightarrow> live c'"
  by (auto simp: framed_def live_def)

lemma framed_refl: "live c \<Longrightarrow> framed c c"
  by (auto simp: framed_def live_def committed_def)

lemma framed_trans: "framed c c' \<Longrightarrow> framed c' c'' \<Longrightarrow> framed c c''"
  using framed_committed [of c c'] suffix_order.trans by (auto simp: framed_def)

lemma framed_same: "live c \<Longrightarrow> saves c' = saves c \<Longrightarrow> interrupted c' = interrupted c \<Longrightarrow>
    saves c = [] \<longrightarrow> cur c' = cur c \<Longrightarrow> framed c c'"
  by (auto simp: framed_def live_def committed_def)

subsection \<open>Single statements\<close>

lemma exec_op_error:
  assumes "exec_op flt f c = (Some e, c')"
  shows "committed c' = committed c \<and> (live c \<longrightarrow> framed c c')
    \<and> (interrupted c' \<longrightarrow> live c')
    \<and> (saves c' = saves c \<and> cur c' = cur c \<or> saves c' = [] \<and> interrupted c')"
proof (cases "interrupted c")
  case True
  with assms show ?thesis
    by (auto simp: exec_op_def Let_def live_def committed_def framed_def)
next
  case False
  with assms show ?thesis
    by (auto simp: exec_op_def Let_def live_def committed_def framed_def
        split: option.splits fault.splits sum.splits if_splits)
qed

lemma exec_op_ok:
  "exec_op flt f c = (None, c') \<Longrightarrow>
     f (c\<lparr>ops := Suc (ops c)\<rparr>) = Inr c' \<and> \<not> interrupted c \<and> flt (ops c) = None"
  by (auto simp: exec_op_def Let_def split: if_splits option.splits fault.splits sum.splits)

lemma exec_op_no_fault: "\<not> interrupted c \<Longrightarrow> flt (ops c) = None \<Longrightarrow>
    exec_op flt f c =
      (case f (c\<lparr>ops := Suc (ops c)\<rparr>) of
         Inl e \<Rightarrow> (Some e, c\<lparr>ops := Suc (ops c)\<rparr>) | Inr c' \<Rightarrow> (None, c'))"
  by (simp add: exec_op_def Let_def)

lemma exec_op_on_db_ok:
  "exec_op flt (on_db f) c = (None, c') \<Longrightarrow>
     f (cur c) = Inr (cur c') \<and> saves c' = saves c \<and> \<not> interrupted c'"
  by (auto dest!: exec_op_ok simp: on_db_def map_sum_def split: sum.splits)

lemma exec_op_savepoint_ok:
  "exec_op flt savepoint c = (None, c') \<Longrightarrow>
     saves c' = cur c # saves c \<and> cur c' = cur c \<and> \<not> interrupted c'"
  by (auto dest!: exec_op_ok simp: savepoint_def)

lemma exec_op_release_ok:
  "exec_op flt (release n) c = (None, c') \<Longrightarrow>
     saves c' = drop (length (saves c) - n) (saves c) \<and> cur c' = cur c \<and> \<not> interrupted c'"
  by (auto dest!: exec_op_ok simp: release_def)

lemma exec_op_rollback_to_ok:
  "exec_op flt (rollback_to n) c = (None, c') \<Longrightarrow>
     drop (length (saves c) - Suc n) (saves c) = d # ss \<Longrightarrow>
     saves c' = d # ss \<and> cur c' = d \<and> \<not> interrupted c'"
  by (auto dest!: exec_op_ok simp: rollback_to_def Let_def)

lemma exec_op_on_db_framed:
  assumes "live c" and "exec_op flt (on_db f) c = (e, c')"
  shows "framed c c'"
proof (cases e)
  case None
  with assms exec_op_on_db_ok [of flt f c c'] exec_op_ok [of flt "on_db f" c c'] show ?thesis
    by (intro framed_same) (auto simp: live_def)
next
  case (Some err)
  with assms exec_op_error show ?thesis by blast
qed

subsection \<open>The deferred release\<close>

lemma error_path_cases:
  assumes "suffix (d # ss) (saves c)" and "error_path flt (length ss) r c = (r', c')"
  shows "interrupted c' = interrupted c
    \<and> (r' = r \<and> saves c' = ss \<and> cur c' = d \<or> (\<exists>p. r' = Panic p) \<and> suffix (d # ss) (saves c'))"
proof -
  let ?flt = "masked flt"
  have noint: "\<not> interrupted x \<Longrightarrow> exec_op ?flt f x = (e, x') \<Longrightarrow>
      e \<noteq> None \<Longrightarrow> saves x' = saves x \<and> cur x' = cur x" for f :: "'a conn \<Rightarrow> 'a conn result" and x x' e
    by (auto simp: exec_op_def Let_def masked_def split: if_splits option.splits fault.splits sum.splits)
  have ss: "drop (length (saves c) - Suc (length ss)) (saves c) = d # ss"
    using suffix_drop_length [OF assms(1)] by simp
  obtain e1 c1 where 1: "exec_op ?flt (rollback_to (length ss)) (c\<lparr>interrupted := False\<rparr>) = (e1, c1)"
    by fastforce
  show ?thesis
  proof (cases e1)
    case (Some e)
    with 1 noint [OF _ 1] assms show ?thesis by (auto simp: error_path_def Let_def)
  next
    case None
    with exec_op_rollback_to_ok [of ?flt "length ss" _ c1 d ss] 1 ss
    have c1: "saves c1 = d # ss" "cur c1 = d" "\<not> interrupted c1" by auto
    obtain e2 c2 where 2: "exec_op ?flt (release (length ss)) c1 = (e2, c2)" by fastforce
    show ?thesis
    proof (cases e2)
      case (Some e)
      with 1 2 None c1 noint [OF _ 2] assms(2) show ?thesis by (auto simp: error_path_def Let_def)
    next
      case None
      with exec_op_release_ok [of ?flt _ _ c2] 2 c1 have "saves c2 = ss" "cur c2 = d" by auto
      with 1 2 \<open>e1 = None\<close> None assms(2) show ?thesis by (auto simp: error_path_def Let_def)
    qed
  qed
qed

lemma releaseFn_cases:
  assumes "saves c1 = d # ss" and "framed c1 c2" and "releaseFn flt (length ss) r c2 = (r', c3)"
  shows "(r' = Ret None \<and> r = Ret None \<and> suffix (d # ss) (saves c2) \<and> saves c3 = ss \<and> cur c3 = cur c2)
    \<or> (saves c3 = [] \<and> interrupted c3 \<and> cur c3 = last (d # ss) \<and> (r' = Ret None \<longrightarrow> r = Ret None \<and> c3 = c2))
    \<or> (r' \<noteq> Ret None \<and> (saves c3 = ss \<and> cur c3 = d \<or> suffix (d # ss) (saves c3)))"
proof (cases "saves c2 = []")
  case True
  with assms show ?thesis
    by (auto simp: releaseFn_def AutocommitEnabled_def framed_def committed_def)
next
  case False
  with assms(1,2) have sfx: "suffix (d # ss) (saves c2)" by (auto simp: framed_def)
  show ?thesis
  proof (cases "r = Ret None")
    case r: False
    with False assms(3) have "error_path flt (length ss) r c2 = (r', c3)"
      by (simp add: releaseFn_def AutocommitEnabled_def)
    from error_path_cases [OF sfx this] r show ?thesis by auto
  next
    case r: True
    obtain e c' where rel: "exec_op flt (release (length ss)) c2 = (e, c')" by fastforce
    show ?thesis
    proof (cases e)
      case None
      have "drop (length (saves c2) - length ss) (saves c2) = ss"
        using sfx by (metis suffix_ConsD suffix_drop_length)
      with None rel have "saves c' = ss" and "cur c' = cur c2"
        using exec_op_release_ok [of flt _ c2 c'] by auto
      with None rel False r sfx assms(3) show ?thesis
        by (simp add: releaseFn_def AutocommitEnabled_def)
    next
      case (Some err)
      note st = exec_op_error [OF rel [unfolded Some]]
      show ?thesis
      proof (cases "saves c' = []")
        case True
        then have "interrupted c'" using st False by auto
        moreover have "cur c' = last (d # ss)"
          using st True False sfx by (auto simp: committed_def suffix_last)
        ultimately show ?thesis
          using True Some rel False r assms(3) by (auto simp: releaseFn_def AutocommitEnabled_def)
      next
        case same: False
        with st sfx have "suffix (d # ss) (saves c')" by auto
        moreover have "error_path flt (length ss) (Ret (Some err)) c' = (r', c3)"
          using same Some rel False r assms(3) by (simp add: releaseFn_def AutocommitEnabled_def)
        ultimately show ?thesis using error_path_cases by blast
      qed
    qed
  qed
qed

section \<open>The interface of actions, and Save\<close>

text \<open>
  An action on the connection keeps to its own savepoints, and when it returns nil it has closed all
  of them. \<open>Save\<close> turns any such action into another one, and makes it atomic: when the result is
  an error or a panic, the committed database is what it was.
\<close>

locale action =
  fixes act :: "'u action"
  assumes act_framed: "live c \<Longrightarrow> act c = (r, c') \<Longrightarrow> framed c c'"
    and act_nil: "act c = (Ret None, c') \<Longrightarrow> saves c' = saves c \<and> interrupted c' = interrupted c"
begin

lemma Save_interrupted:
  assumes "exec_op flt savepoint c = (Some e, c1)" and "Save flt act c = (r, c')"
  shows "r \<noteq> Ret None \<and> committed c' = committed c \<and> (live c \<longrightarrow> framed c c')"
proof (cases "interrupted c1")
  case False
  with assms exec_op_error [OF assms(1)] show ?thesis by (auto simp: Save_def)
next
  case True
  then have "live c1" by (simp add: live_def)
  obtain r1 c2 where body: "act c1 = (r1, c2)" by fastforce
  then have fr: "framed c1 c2" using \<open>live c1\<close> by (rule act_framed [rotated])
  have "r \<noteq> Ret None" and "c' = c2"
    using assms body True by (auto simp: Save_def split: outcome.splits option.splits)
  with exec_op_error [OF assms(1)] fr framed_committed [OF fr] show ?thesis
    by (auto intro: framed_trans)
qed

lemma Save_body:
  assumes "exec_op flt savepoint c = (None, c1)"
  shows "live c1 \<and> saves c1 = cur c # saves c \<and> framed c1 (snd (act c1))
    \<and> Save flt act c = releaseFn flt (length (saves c)) (fst (act c1)) (snd (act c1))"
proof -
  have c1: "saves c1 = cur c # saves c" using exec_op_savepoint_ok [OF assms] by simp
  then have "live c1" by (simp add: live_def)
  with c1 assms show ?thesis
    using act_framed [of c1 "fst (act c1)" "snd (act c1)"] by (simp add: Save_def split: prod.splits)
qed

lemma Save_atomic:
  assumes "Save flt act c = (r, c')" and "r \<noteq> Ret None"
  shows "committed c' = committed c"
proof (cases "exec_op flt savepoint c")
  case (Pair e c1)
  show ?thesis
  proof (cases e)
    case (Some err)
    with Pair assms(1) Save_interrupted show ?thesis by blast
  next
    case None
    note body = Save_body [OF Pair [unfolded None]]
    then have "releaseFn flt (length (saves c)) (fst (act c1)) (snd (act c1)) = (r, c')"
      using assms(1) by simp
    from releaseFn_cases [OF _ _ this] body assms(2)
    consider "saves c' = []" "cur c' = last (cur c # saves c)" | "saves c' = saves c" "cur c' = cur c"
      | "suffix (cur c # saves c) (saves c')" by blast
    then show ?thesis
      by cases (auto simp: committed_def suffix_last)
  qed
qed

lemma Save_nil:
  assumes "Save flt act c = (Ret None, c')"
  shows "\<exists>c1 c2. exec_op flt savepoint c = (None, c1) \<and> act c1 = (Ret None, c2)
    \<and> saves c' = saves c \<and> cur c' = cur c2 \<and> \<not> interrupted c'"
proof (cases "exec_op flt savepoint c")
  case (Pair e c1)
  show ?thesis
  proof (cases e)
    case (Some err)
    with Pair assms Save_interrupted show ?thesis by blast
  next
    case None
    note body = Save_body [OF Pair [unfolded None]]
    obtain r1 c2 where act: "act c1 = (r1, c2)" by fastforce
    with body assms have rel: "releaseFn flt (length (saves c)) r1 c2 = (Ret None, c')" by simp
    have fr: "framed c1 c2" using body act by simp
    have "r1 = Ret None"
      using releaseFn_cases [OF _ fr rel] body by blast
    with act act_nil have c2: "saves c2 = cur c # saves c" using body by auto
    have "saves c' = saves c \<and> cur c' = cur c2 \<and> \<not> interrupted c'"
    proof (cases "exec_op flt (release (length (saves c))) c2")
      case (Pair e' c3)
      with rel c2 \<open>r1 = Ret None\<close> exec_op_release_ok [of flt "length (saves c)" c2 c3] show ?thesis
        by (auto simp: releaseFn_def AutocommitEnabled_def error_path_def Let_def
            split: option.splits if_splits prod.splits)
    qed
    with Pair None act \<open>r1 = Ret None\<close> show ?thesis by blast
  qed
qed

lemma action_Save: "action (Save flt act)"
proof
  fix c c' :: "'u conn" and r
  assume "live c" and run: "Save flt act c = (r, c')"
  show "framed c c'"
  proof (cases "exec_op flt savepoint c")
    case (Pair e c1)
    show ?thesis
    proof (cases e)
      case (Some err)
      with Pair run \<open>live c\<close> Save_interrupted show ?thesis by blast
    next
      case None
      note body = Save_body [OF Pair [unfolded None]]
      have "\<not> interrupted c" using exec_op_ok Pair None by blast
      with \<open>live c\<close> have ne: "saves c \<noteq> []" by (simp add: live_def)
      from body run have "releaseFn flt (length (saves c)) (fst (act c1)) (snd (act c1)) = (r, c')"
        by simp
      from releaseFn_cases [OF _ _ this] body
      consider "saves c' = []" "interrupted c'" "cur c' = last (cur c # saves c)" | "saves c' = saves c"
        | "suffix (cur c # saves c) (saves c')" by blast
      then show ?thesis
        using ne by cases (auto simp: framed_def committed_def dest: suffix_ConsD)
    qed
  qed
next
  fix c c' :: "'u conn"
  assume "Save flt act c = (Ret None, c')"
  then show "saves c' = saves c \<and> interrupted c' = interrupted c"
    using Save_nil exec_op_ok by blast
qed

end

section \<open>Scripts are actions\<close>

lemma exec_stmts_framed:
  "live c \<Longrightarrow> exec_stmts flt fs c = (e, c') \<Longrightarrow> framed c c'"
proof (induction fs arbitrary: c)
  case Nil
  then show ?case by (simp add: framed_refl)
next
  case (Cons f fs)
  obtain e1 c1 where step: "exec_op flt (on_db f) c = (e1, c1)" by fastforce
  with Cons.prems(1) have fr: "framed c c1" by (rule exec_op_on_db_framed)
  show ?case
  proof (cases e1)
    case None
    with Cons step fr show ?thesis by (auto intro: framed_trans framed_live)
  next
    case (Some err)
    with Cons.prems step fr show ?thesis by simp
  qed
qed

lemma exec_stmts_nil:
  "exec_stmts flt fs c = (None, c') \<Longrightarrow>
     run_stmts fs (cur c) = Inr (cur c') \<and> saves c' = saves c \<and> interrupted c' = interrupted c"
proof (induction fs arbitrary: c)
  case (Cons f fs)
  then obtain c1 where "exec_op flt (on_db f) c = (None, c1)" and "exec_stmts flt fs c1 = (None, c')"
    by (auto split: prod.splits option.splits)
  with Cons.IH [of c1] exec_op_on_db_ok [of flt f c c1] exec_op_ok [of flt "on_db f" c c1]
  show ?case by auto
qed simp

interpretation script: action "\<lambda>c. case exec_stmts flt fs c of (e, c1) \<Rightarrow> (Ret e, c1)" for flt fs
  by unfold_locales (auto dest: exec_stmts_framed exec_stmts_nil split: prod.splits)

interpretation ExecuteScript: action "ExecuteScript flt fs" for flt fs
  unfolding ExecuteScript_def by (rule script.action_Save)

lemma ExecuteScript_nil:
  assumes "ExecuteScript flt fs c = (Ret None, c')"
  shows "run_stmts fs (cur c) = Inr (cur c')"
proof -
  from script.Save_nil [OF assms [unfolded ExecuteScript_def]] obtain c1 c2
    where "exec_op flt savepoint c = (None, c1)" and "exec_stmts flt fs c1 = (None, c2)"
      and "cur c' = cur c2" by (fastforce split: prod.splits)
  then show ?thesis using exec_stmts_nil exec_op_savepoint_ok by metis
qed

section \<open>Without faults\<close>

text \<open>
  On a connection that is not interrupted and with no fault, an action that follows a function on
  databases applies it, or restores the database and returns the error.
\<close>

abbreviation no_faults :: faults where
  "no_faults \<equiv> \<lambda>_. None"

definition err_of :: "'a result \<Rightarrow> go_error option" where
  "err_of x = (case x of Inl e \<Rightarrow> Some e | Inr _ \<Rightarrow> None)"

lemma err_of_simps [simp]: "err_of (Inl e) = Some e" "err_of (Inr d) = None"
  by (simp_all add: err_of_def)

definition follows :: "'u action \<Rightarrow> 'u stmt \<Rightarrow> bool" where
  "follows act f \<longleftrightarrow> (\<forall>c. \<not> interrupted c \<longrightarrow>
     (\<exists>c'. act c = (Ret (err_of (f (cur c))), c') \<and> saves c' = saves c \<and> \<not> interrupted c'
        \<and> (\<forall>d. f (cur c) = Inr d \<longrightarrow> cur c' = d)))"

lemma followsI:
  assumes "\<And>c. \<not> interrupted c \<Longrightarrow> \<exists>c'. act c = (Ret (err_of (f (cur c))), c') \<and> saves c' = saves c
    \<and> \<not> interrupted c' \<and> (\<forall>d. f (cur c) = Inr d \<longrightarrow> cur c' = d)"
  shows "follows act f"
  using assms by (simp add: follows_def)

lemma followsE:
  assumes "follows act f" and "\<not> interrupted c"
  obtains (error) e c' where "f (cur c) = Inl e" "act c = (Ret (Some e), c')" "saves c' = saves c"
    "\<not> interrupted c'"
  | (nil) c' where "f (cur c) = Inr (cur c')" "act c = (Ret None, c')" "saves c' = saves c"
    "\<not> interrupted c'"
proof (cases "f (cur c)")
  case (Inl e)
  with assms that(1) show thesis by (auto simp: follows_def)
next
  case (Inr d)
  from assms obtain c' where "act c = (Ret (err_of (f (cur c))), c')" "saves c' = saves c"
    "\<not> interrupted c'" "\<forall>d. f (cur c) = Inr d \<longrightarrow> cur c' = d"
    unfolding follows_def by blast
  with Inr show thesis by (intro that(2) [of c']) simp_all
qed

lemma masked_no_faults [simp]: "masked no_faults = no_faults"
  by (auto simp: masked_def)

text \<open>\<open>Save\<close> adds that an error restores the database.\<close>

lemma Save_follows:
  assumes "follows act f" and "\<not> interrupted c"
  shows "\<exists>c'. Save no_faults act c = (Ret (err_of (f (cur c))), c') \<and> saves c' = saves c
    \<and> \<not> interrupted c' \<and> cur c' = (case f (cur c) of Inl e \<Rightarrow> cur c | Inr d \<Rightarrow> d)"
proof -
  let ?c1 = "c\<lparr>ops := Suc (ops c), saves := cur c # saves c\<rparr>"
  have sp: "exec_op no_faults savepoint c = (None, ?c1)"
    using assms(2) by (simp add: exec_op_no_fault savepoint_def)
  have "\<not> interrupted ?c1" using assms(2) by simp
  with assms(1) show ?thesis
  proof (cases rule: followsE)
    case (error e c2)
    with sp show ?thesis
      by (simp add: Save_def releaseFn_def error_path_def AutocommitEnabled_def exec_op_no_fault
          release_def rollback_to_def Let_def)
  next
    case (nil c2)
    with sp show ?thesis
      by (simp add: Save_def releaseFn_def AutocommitEnabled_def exec_op_no_fault release_def)
  qed
qed

lemma follows_Save: "follows act f \<Longrightarrow> follows (Save no_faults act) f"
  by (rule followsI) (drule (1) Save_follows, auto)

lemma follows_stmts: "follows (\<lambda>c. case exec_stmts no_faults fs c of (e, c1) \<Rightarrow> (Ret e, c1)) (run_stmts fs)"
proof (rule followsI)
  fix c :: "'a conn"
  assume "\<not> interrupted c"
  then have "\<exists>c'. exec_stmts no_faults fs c = (err_of (run_stmts fs (cur c)), c') \<and> saves c' = saves c
    \<and> \<not> interrupted c' \<and> (\<forall>d. run_stmts fs (cur c) = Inr d \<longrightarrow> cur c' = d)"
  proof (induction fs arbitrary: c)
    case (Cons f fs)
    show ?case
    proof (cases "f (cur c)")
      case (Inl e)
      with Cons.prems show ?thesis by (simp add: exec_op_no_fault on_db_def)
    next
      case (Inr d)
      with Cons.prems Cons.IH [of "c\<lparr>ops := Suc (ops c), cur := d\<rparr>"] show ?thesis
        by (simp add: exec_op_no_fault on_db_def)
    qed
  qed simp
  then show "\<exists>c'. (case exec_stmts no_faults fs c of (e, c1) \<Rightarrow> (Ret e, c1))
      = (Ret (err_of (run_stmts fs (cur c))), c') \<and> saves c' = saves c
    \<and> \<not> interrupted c' \<and> (\<forall>d. run_stmts fs (cur c) = Inr d \<longrightarrow> cur c' = d)" by auto
qed

lemma follows_ExecuteScript: "follows (ExecuteScript no_faults fs) (run_stmts fs)"
  unfolding ExecuteScript_def by (intro follows_Save follows_stmts)

lemma follows_op: "follows (\<lambda>c. case exec_op no_faults (on_db f) c of (e, c1) \<Rightarrow> (Ret e, c1)) f"
proof (rule followsI)
  fix c :: "'a conn"
  assume "\<not> interrupted c"
  then show "\<exists>c'. (case exec_op no_faults (on_db f) c of (e, c1) \<Rightarrow> (Ret e, c1))
      = (Ret (err_of (f (cur c))), c') \<and> saves c' = saves c \<and> \<not> interrupted c'
      \<and> (\<forall>d. f (cur c) = Inr d \<longrightarrow> cur c' = d)"
    by (cases "f (cur c)") (simp_all add: exec_op_no_fault on_db_def)
qed

end
