(* ===== verification/Migrationx.thy ===== *)
theory Migrationx
  imports SqliteConn
begin

text \<open>
  The migration runner of package migrationx (src/sqlite/migrationx/migration.go) on a SQLite
  connection: the version table, the loops over the scripts, and \<open>Migrate\<close>, \<open>Up\<close> and \<open>Down\<close>.
  What the SQL text of a migration script means is the parameter \<open>stmts\<close>, which gives the
  statements of a script as functions on the database.
\<close>

section \<open>The version table\<close>

definition create_table :: "'u stmt" where
  "create_table d =
     (case schema_migrations d of
        None \<Rightarrow> Inr (d\<lparr>schema_migrations := Some []\<rparr>)
      | Some _ \<Rightarrow> Inr d)"

text \<open>The unique index can be created, or exists already, exactly if the versions are distinct.\<close>

definition create_index :: "'u stmt" where
  "create_index d =
     (case schema_migrations d of
        None \<Rightarrow> Inl (ErrNew ''no such table: schema_migrations'')
      | Some rows \<Rightarrow> if distinct (map fst rows) then Inr d
                     else Inl (ErrNew ''UNIQUE constraint failed: schema_migrations.version''))"

definition VersionSchema :: "'u stmt list" where
  "VersionSchema = [create_table, create_index]"

definition ensureVersionSchema :: "faults \<Rightarrow> 'u action" where
  "ensureVersionSchema flt = Save flt (ExecuteScript flt VersionSchema)"

text \<open>\<open>SELECT version FROM schema_migrations LIMIT 1\<close>: 0 when there is no row.\<close>

definition select_version :: "'u stmt" where
  "select_version d =
     (case schema_migrations d of
        None \<Rightarrow> Inl (ErrNew ''no such table: schema_migrations'')
      | Some _ \<Rightarrow> Inr d)"

definition first_version :: "'u database \<Rightarrow> uint64" where
  "first_version d =
     (case schema_migrations d of Some ((v, _) # _) \<Rightarrow> v | _ \<Rightarrow> 0)"

definition dbVersion :: "faults \<Rightarrow> 'u conn \<Rightarrow> uint64 result \<times> 'u conn" where
  "dbVersion flt c =
     (case exec_op flt (on_db select_version) c of
        (Some e, c1) \<Rightarrow> (Inl e, c1)
      | (None, c1) \<Rightarrow> (Inr (first_version (cur c1)), c1))"

definition delete_rows :: "'u stmt" where
  "delete_rows d =
     (case schema_migrations d of
        None \<Rightarrow> Inl (ErrNew ''no such table: schema_migrations'')
      | Some _ \<Rightarrow> Inr (d\<lparr>schema_migrations := Some []\<rparr>))"

definition insert_row :: "uint64 \<Rightarrow> 'u stmt" where
  "insert_row v d =
     (case schema_migrations d of
        None \<Rightarrow> Inl (ErrNew ''no such table: schema_migrations'')
      | Some rows \<Rightarrow> if v \<in> fst ` set rows
                     then Inl (ErrNew ''UNIQUE constraint failed: schema_migrations.version'')
                     else Inr (d\<lparr>schema_migrations := Some (rows @ [(v, False)])\<rparr>))"

definition setDbVersion :: "faults \<Rightarrow> uint64 \<Rightarrow> 'u action" where
  "setDbVersion flt version c =
     (case exec_op flt (on_db delete_rows) c of
        (Some e, c1) \<Rightarrow> (Ret (Some e), c1)
      | (None, c1) \<Rightarrow>
          (case exec_op flt (on_db (insert_row version)) c1 of (e, c2) \<Rightarrow> (Ret e, c2)))"

section \<open>Migrate\<close>

record Migrations =
  UpScripts :: "string list"
  DownScripts :: "string list"

definition NewMigrations :: "string list \<Rightarrow> string list \<Rightarrow> Migrations result" where
  "NewMigrations up down =
     (if length up \<noteq> length down
      then Inl (ErrNew ''must have a 'down' migration for each 'up' migration'')
      else Inr \<lparr>UpScripts = up, DownScripts = down\<rparr>)"

text \<open>\<open>if err := a; err != nil \<open>{\<close> return w(err) \<open>}\<close>\<close>, and then \<open>b\<close>.\<close>

definition and_then :: "(go_error \<Rightarrow> go_error) \<Rightarrow> 'u action \<Rightarrow> 'u action \<Rightarrow> 'u action" where
  "and_then w a b c =
     (case a c of
        (Ret None, c1) \<Rightarrow> b c1
      | (Ret (Some e), c1) \<Rightarrow> (Ret (Some (w e)), c1)
      | (Panic p, c1) \<Rightarrow> (Panic p, c1))"

definition return_nil :: "'u action" where
  "return_nil c = (Ret None, c)"

definition return_err :: "go_error \<Rightarrow> 'u action" where
  "return_err e c = (Ret (Some e), c)"

definition migrate_failed :: "go_error \<Rightarrow> go_error" where
  "migrate_failed e = ErrWrap ''migrate failed: '' e"

definition target_too_high :: "uint64 \<Rightarrow> nat \<Rightarrow> go_error" where
  "target_too_high t n = ErrNew (''migrate failed: target version '' @ itoa (unat t)
     @ '' is higher than max migration version '' @ itoa n)"

definition version_too_high :: "uint64 \<Rightarrow> nat \<Rightarrow> go_error" where
  "version_too_high v n = ErrNew (''migrate failed: database version '' @ itoa (unat v)
     @ '' is higher than max migration version '' @ itoa n)"

text \<open>The two loops: down from index \<open>i\<close> to index \<open>t\<close>, and up over a slice of the scripts.\<close>

function down_loop ::
  "faults \<Rightarrow> (string \<Rightarrow> 'u stmt list) \<Rightarrow> string list \<Rightarrow> int \<Rightarrow> int \<Rightarrow> 'u action" where
  "down_loop flt stmts downs i t =
     (if t \<le> i
      then if 0 \<le> i \<and> i < int (length downs)
           then and_then migrate_failed (ExecuteScript flt (stmts (downs ! nat i)))
                  (down_loop flt stmts downs (i - 1) t)
           else (\<lambda>c. (Panic index_out_of_range, c))
      else return_nil)"
  by pat_completeness auto
termination
  by (relation "measure (\<lambda>(flt, stmts, downs, i, t). nat (i - t + 1))") auto

declare down_loop.simps [simp del]

fun up_loop :: "faults \<Rightarrow> (string \<Rightarrow> 'u stmt list) \<Rightarrow> string list \<Rightarrow> 'u action" where
  "up_loop flt stmts [] = return_nil"
| "up_loop flt stmts (migration # ms) =
     and_then migrate_failed (ExecuteScript flt (stmts migration)) (up_loop flt stmts ms)"

definition with_version :: "faults \<Rightarrow> (uint64 \<Rightarrow> 'u action) \<Rightarrow> 'u action" where
  "with_version flt k c =
     (case dbVersion flt c of
        (Inl e, c1) \<Rightarrow> (Ret (Some (migrate_failed e)), c1)
      | (Inr version, c1) \<Rightarrow> k version c1)"

definition migrate_from ::
  "faults \<Rightarrow> (string \<Rightarrow> 'u stmt list) \<Rightarrow> Migrations \<Rightarrow> uint64 \<Rightarrow> uint64 \<Rightarrow> 'u action" where
  "migrate_from flt stmts m target version =
     (if version = target then return_nil
      else if word_of_nat (length (UpScripts m)) < version
      then return_err (version_too_high version (length (UpScripts m)))
      else and_then id
             (if target < version
              then down_loop flt stmts (DownScripts m) (sint (version - 1)) (sint target)
              else up_loop flt stmts (drop (unat version) (take (unat target) (UpScripts m))))
             (and_then migrate_failed (setDbVersion flt target) return_nil))"

definition Migrate_body ::
  "faults \<Rightarrow> (string \<Rightarrow> 'u stmt list) \<Rightarrow> Migrations \<Rightarrow> uint64 \<Rightarrow> 'u action" where
  "Migrate_body flt stmts m target =
     (if word_of_nat (length (UpScripts m)) < target
      then return_err (target_too_high target (length (UpScripts m)))
      else and_then migrate_failed (ensureVersionSchema flt)
             (with_version flt (migrate_from flt stmts m target)))"

definition Migrate ::
  "faults \<Rightarrow> (string \<Rightarrow> 'u stmt list) \<Rightarrow> Migrations \<Rightarrow> uint64 \<Rightarrow> 'u action" where
  "Migrate flt stmts m target = Save flt (Migrate_body flt stmts m target)"

definition Up :: "faults \<Rightarrow> (string \<Rightarrow> 'u stmt list) \<Rightarrow> Migrations \<Rightarrow> 'u action" where
  "Up flt stmts m = Migrate flt stmts m (word_of_nat (length (UpScripts m)))"

definition Down :: "faults \<Rightarrow> (string \<Rightarrow> 'u stmt list) \<Rightarrow> Migrations \<Rightarrow> 'u action" where
  "Down flt stmts m = Migrate flt stmts m 0"

section \<open>The specification: migrations as functions on the database\<close>

definition wf_migrations :: "Migrations \<Rightarrow> bool" where
  "wf_migrations m \<longleftrightarrow> length (UpScripts m) = length (DownScripts m) \<and> length (UpScripts m) < 2 ^ 63"

text \<open>The scripts between two versions, in the order in which they have to run.\<close>

definition scripts_between :: "Migrations \<Rightarrow> nat \<Rightarrow> nat \<Rightarrow> string list" where
  "scripts_between m v t =
     (if t < v then rev (drop t (take v (DownScripts m))) else drop v (take t (UpScripts m)))"

fun run_scripts :: "(string \<Rightarrow> 'u stmt list) \<Rightarrow> string list \<Rightarrow> 'u stmt" where
  "run_scripts stmts [] d = Inr d"
| "run_scripts stmts (s # ss) d =
     (case run_stmts (stmts s) d of
        Inl e \<Rightarrow> Inl (migrate_failed e)
      | Inr d' \<Rightarrow> run_scripts stmts ss d')"

definition set_version :: "uint64 \<Rightarrow> 'u stmt" where
  "set_version v d =
     (case schema_migrations d of
        None \<Rightarrow> Inl (migrate_failed (ErrNew ''no such table: schema_migrations''))
      | Some _ \<Rightarrow> Inr (d\<lparr>schema_migrations := Some [(v, False)]\<rparr>))"

definition migrate_db :: "(string \<Rightarrow> 'u stmt list) \<Rightarrow> Migrations \<Rightarrow> uint64 \<Rightarrow> 'u stmt" where
  "migrate_db stmts m target d =
     (if length (UpScripts m) < unat target
      then Inl (target_too_high target (length (UpScripts m)))
      else case run_stmts VersionSchema d of
        Inl e \<Rightarrow> Inl (migrate_failed e)
      | Inr d1 \<Rightarrow>
          let version = first_version d1
          in if version = target then Inr d1
             else if length (UpScripts m) < unat version
             then Inl (version_too_high version (length (UpScripts m)))
             else case run_scripts stmts (scripts_between m (unat version) (unat target)) d1 of
               Inl e \<Rightarrow> Inl e
             | Inr d2 \<Rightarrow> set_version target d2)"


section \<open>The pieces of Migrate are actions\<close>

lemma action_return_nil: "action return_nil"
  by unfold_locales (auto simp: return_nil_def intro: framed_refl)

lemma action_return_err: "action (return_err e)"
  by unfold_locales (auto simp: return_err_def intro: framed_refl)

lemma action_panic: "action (\<lambda>c. (Panic p, c))"
  by unfold_locales (auto intro: framed_refl)

lemma action_and_then:
  assumes "action a" and "action b"
  shows "action (and_then w a b)"
proof
  fix c c' :: "'a conn" and r
  assume "live c" and run: "and_then w a b c = (r, c')"
  obtain r1 c1 where a: "a c = (r1, c1)" by fastforce
  with assms(1) \<open>live c\<close> have fr: "framed c c1" by (rule action.act_framed)
  show "framed c c'"
  proof (cases "r1 = Ret None")
    case True
    with a run have "b c1 = (r, c')" by (simp add: and_then_def)
    with assms(2) framed_live [OF fr] have "framed c1 c'" by (rule action.act_framed)
    with fr show ?thesis by (rule framed_trans)
  next
    case False
    with a run fr show ?thesis by (auto simp: and_then_def split: outcome.splits option.splits)
  qed
next
  fix c c' :: "'a conn"
  assume "and_then w a b c = (Ret None, c')"
  then obtain c1 where "a c = (Ret None, c1)" and "b c1 = (Ret None, c')"
    by (auto simp: and_then_def split: prod.splits outcome.splits option.splits)
  with assms show "saves c' = saves c \<and> interrupted c' = interrupted c"
    by (metis action.act_nil)
qed

lemma setDbVersion_script:
  "setDbVersion flt v = (\<lambda>c. case exec_stmts flt [delete_rows, insert_row v] c of (e, c1) \<Rightarrow> (Ret e, c1))"
  by (rule ext) (auto simp: setDbVersion_def split: prod.splits option.splits)

lemma action_setDbVersion: "action (setDbVersion flt v)"
  unfolding setDbVersion_script by (rule script.action_axioms)

lemma action_with_version:
  assumes "\<And>v. action (k v)"
  shows "action (with_version flt k)"
proof
  fix c c' :: "'a conn" and r
  assume "live c" and run: "with_version flt k c = (r, c')"
  obtain e c1 where q: "exec_op flt (on_db select_version) c = (e, c1)" by fastforce
  with \<open>live c\<close> have fr: "framed c c1" by (rule exec_op_on_db_framed)
  show "framed c c'"
  proof (cases e)
    case None
    with q run have "k (first_version (cur c1)) c1 = (r, c')"
      by (simp add: with_version_def dbVersion_def)
    with assms framed_live [OF fr] have "framed c1 c'" by (rule action.act_framed)
    with fr show ?thesis by (rule framed_trans)
  next
    case (Some err)
    with q run fr show ?thesis by (auto simp: with_version_def dbVersion_def)
  qed
next
  fix c c' :: "'a conn"
  assume "with_version flt k c = (Ret None, c')"
  then obtain c1 where "exec_op flt (on_db select_version) c = (None, c1)"
    and "k (first_version (cur c1)) c1 = (Ret None, c')"
    by (auto simp: with_version_def dbVersion_def split: prod.splits option.splits)
  with assms show "saves c' = saves c \<and> interrupted c' = interrupted c"
    by (metis action.act_nil exec_op_on_db_ok exec_op_ok)
qed

lemma action_up_loop: "action (up_loop flt stmts ms)"
  by (induction ms) (simp_all add: action_return_nil action_and_then ExecuteScript.action_axioms)

lemma action_down_loop: "action (down_loop flt stmts downs i t)"
proof (induction flt stmts downs i t rule: down_loop.induct)
  case (1 flt stmts downs i t)
  then show ?case
    by (subst down_loop.simps)
      (simp add: action_return_nil action_panic action_and_then ExecuteScript.action_axioms)
qed

lemma action_migrate_from: "action (migrate_from flt stmts m target version)"
  by (simp add: migrate_from_def action_return_nil action_return_err action_and_then
      action_up_loop action_down_loop action_setDbVersion)

interpretation ensureVersionSchema: action "ensureVersionSchema flt" for flt
  unfolding ensureVersionSchema_def by (rule ExecuteScript.action_Save)

interpretation Migrate_body: action "Migrate_body flt stmts m target" for flt stmts m target
  by (simp add: Migrate_body_def action_return_err action_and_then action_with_version
      action_migrate_from ensureVersionSchema.action_axioms)

interpretation Migrate: action "Migrate flt stmts m target" for flt stmts m target
  unfolding Migrate_def by (rule Migrate_body.action_Save)


section \<open>The loops run the scripts between the two versions\<close>

lemma of_nat_less_word: "n < 2 ^ 63 \<Longrightarrow> (word_of_nat n :: uint64) < v \<longleftrightarrow> n < unat v"
  by (simp add: word_less_nat_alt unat_of_nat)

lemma sint_index:
  assumes "unat v \<le> n" and "n < 2 ^ 63"
  shows "sint (v :: uint64) = int (unat v)"
proof -
  have "unat v < 2 ^ 63" using assms by simp
  then have "int (unat v) < int (2 ^ 63)" by (simp only: of_nat_less_iff)
  then have "signed_take_bit 63 (int (unat v)) = int (unat v)"
    by (intro signed_take_bit_int_eq_self) (simp_all del: of_nat_unat)
  then show ?thesis by (simp add: sint_uint)
qed

lemma sint_index_pred:
  assumes "target < version" and "unat version \<le> n" and "n < 2 ^ 63"
  shows "sint (version - 1 :: uint64) = int (unat version) - 1"
proof -
  have "version \<noteq> 0" using assms(1) by auto
  then have "unat (version - 1) = unat version - 1" and "0 < unat version"
    by (simp_all add: unat_minus_one unat_gt_0)
  then show ?thesis using sint_index [of "version - 1" n] assms(2,3) by simp
qed

lemma down_loop_eq:
  assumes "i < int (length downs)" and "-1 \<le> i" and "0 \<le> t"
  shows "down_loop flt stmts downs i t = up_loop flt stmts (rev (drop (nat t) (take (nat (i + 1)) downs)))"
  using assms
proof (induction flt stmts downs i t rule: down_loop.induct)
  case (1 flt stmts downs i t)
  show ?case
  proof (cases "t \<le> i")
    case True
    have "nat (i + 1) = Suc (nat i)" using True 1 by simp
    moreover have "take (Suc (nat i)) downs = take (nat i) downs @ [downs ! nat i]"
      using True 1 by (intro take_Suc_conv_app_nth) simp
    ultimately show ?thesis
      using True 1 by (subst down_loop.simps) simp
  next
    case False
    then show ?thesis using 1 by (subst down_loop.simps) simp
  qed
qed

lemma down_loop_nat:
  assumes "v \<le> length downs"
  shows "down_loop flt stmts downs (int v - 1) (int t) = up_loop flt stmts (rev (drop t (take v downs)))"
  using assms down_loop_eq [of "int v - 1" downs "int t" flt stmts] by simp

lemma migrate_from_eq:
  assumes "wf_migrations m" and "unat target \<le> length (UpScripts m)"
  shows "migrate_from flt stmts m target version =
     (if version = target then return_nil
      else if length (UpScripts m) < unat version
      then return_err (version_too_high version (length (UpScripts m)))
      else and_then id (up_loop flt stmts (scripts_between m (unat version) (unat target)))
             (and_then migrate_failed (setDbVersion flt target) return_nil))"
proof -
  let ?n = "length (UpScripts m)"
  have n: "?n < 2 ^ 63" and len: "length (DownScripts m) = ?n"
    using assms(1) by (simp_all add: wf_migrations_def)
  have "down_loop flt stmts (DownScripts m) (sint (version - 1)) (sint target)
      = up_loop flt stmts (scripts_between m (unat version) (unat target))"
    if "target < version" and "unat version \<le> ?n"
  proof -
    have "sint (version - 1) = int (unat version) - 1" using that n by (rule sint_index_pred)
    moreover have "sint target = int (unat target)" using assms(2) n by (rule sint_index)
    moreover note down_loop_nat [of "unat version" "DownScripts m" flt stmts "unat target"]
    ultimately show ?thesis
      using that len by (simp add: scripts_between_def word_less_nat_alt)
  qed
  then show ?thesis
    unfolding migrate_from_def of_nat_less_word [OF n]
    by (auto simp: scripts_between_def word_less_nat_alt)
qed

section \<open>Composition of functions on the database\<close>

definition seq_db :: "(go_error \<Rightarrow> go_error) \<Rightarrow> 'u stmt \<Rightarrow> 'u stmt \<Rightarrow> 'u stmt" where
  "seq_db w f g d = (case f d of Inl e \<Rightarrow> Inl (w e) | Inr d' \<Rightarrow> g d')"

definition version_db :: "(uint64 \<Rightarrow> 'u stmt) \<Rightarrow> 'u stmt" where
  "version_db k = seq_db migrate_failed select_version (\<lambda>d. k (first_version d) d)"

lemma run_scripts_Cons:
  "run_scripts stmts (s # ss) = seq_db migrate_failed (run_stmts (stmts s)) (run_scripts stmts ss)"
  by (rule ext) (simp add: seq_db_def)

lemma set_version_eq: "set_version v = seq_db migrate_failed (run_stmts [delete_rows, insert_row v]) Inr"
  by (rule ext) (simp add: set_version_def seq_db_def delete_rows_def insert_row_def
      split: option.splits)

lemma VersionSchema_has_table:
  "run_stmts VersionSchema d = Inr d' \<Longrightarrow> \<exists>rows. schema_migrations d' = Some rows"
  by (auto simp: VersionSchema_def create_table_def create_index_def
      split: option.splits sum.splits if_splits)

definition migrate_from_db ::
  "(string \<Rightarrow> 'u stmt list) \<Rightarrow> Migrations \<Rightarrow> uint64 \<Rightarrow> uint64 \<Rightarrow> 'u stmt" where
  "migrate_from_db stmts m target version =
     (if version = target then Inr
      else if length (UpScripts m) < unat version
      then (\<lambda>_. Inl (version_too_high version (length (UpScripts m))))
      else seq_db id (run_scripts stmts (scripts_between m (unat version) (unat target)))
             (set_version target))"

lemma migrate_db_eq:
  "migrate_db stmts m target =
     (if length (UpScripts m) < unat target
      then (\<lambda>_. Inl (target_too_high target (length (UpScripts m))))
      else seq_db migrate_failed (run_stmts VersionSchema)
             (version_db (migrate_from_db stmts m target)))"
proof (rule ext)
  fix d :: "'a database"
  show "migrate_db stmts m target d =
     (if length (UpScripts m) < unat target
      then (\<lambda>_. Inl (target_too_high target (length (UpScripts m))))
      else seq_db migrate_failed (run_stmts VersionSchema)
             (version_db (migrate_from_db stmts m target))) d"
  proof (cases "run_stmts VersionSchema d")
    case (Inl e)
    then show ?thesis by (simp add: migrate_db_def seq_db_def)
  next
    case (Inr d1)
    then have "select_version d1 = Inr d1"
      using VersionSchema_has_table [OF Inr] by (auto simp: select_version_def)
    with Inr show ?thesis
      by (simp add: migrate_db_def seq_db_def version_db_def migrate_from_db_def Let_def
          split: sum.splits)
  qed
qed

section \<open>A nil result: the scripts have run\<close>

definition nil_runs :: "'u action \<Rightarrow> 'u stmt \<Rightarrow> bool" where
  "nil_runs a f \<longleftrightarrow> (\<forall>c c'. a c = (Ret None, c') \<longrightarrow> f (cur c) = Inr (cur c'))"

lemma nil_runs_return_nil: "nil_runs return_nil Inr"
  by (simp add: nil_runs_def return_nil_def)

lemma nil_runs_return_err: "nil_runs (return_err e) f"
  by (simp add: nil_runs_def return_err_def)

lemma nil_runs_and_then:
  assumes "nil_runs a f" and "nil_runs b g"
  shows "nil_runs (and_then w a b) (seq_db w f g)"
  using assms by (fastforce simp: nil_runs_def and_then_def seq_db_def
      split: prod.splits outcome.splits option.splits)

lemma nil_runs_ExecuteScript: "nil_runs (ExecuteScript flt fs) (run_stmts fs)"
  by (simp add: nil_runs_def ExecuteScript_nil)

lemma nil_runs_setDbVersion: "nil_runs (setDbVersion flt v) (run_stmts [delete_rows, insert_row v])"
  unfolding nil_runs_def setDbVersion_script
  by (auto dest!: exec_stmts_nil simp del: exec_stmts.simps run_stmts.simps split: prod.splits)

lemma nil_runs_up_loop: "nil_runs (up_loop flt stmts ms) (run_scripts stmts ms)"
proof (induction ms)
  case Nil
  have "run_scripts stmts [] = Inr" by (rule ext) simp
  then show ?case by (simp add: nil_runs_return_nil)
next
  case (Cons s ss)
  then show ?case
    unfolding run_scripts_Cons up_loop.simps by (intro nil_runs_and_then nil_runs_ExecuteScript)
qed

lemma nil_runs_with_version:
  assumes "\<And>v. nil_runs (k v) (kf v)"
  shows "nil_runs (with_version flt k) (version_db kf)"
  unfolding nil_runs_def
proof (intro allI impI)
  fix c c' :: "'a conn"
  assume "with_version flt k c = (Ret None, c')"
  then obtain c1 where q: "exec_op flt (on_db select_version) c = (None, c1)"
    and "k (first_version (cur c1)) c1 = (Ret None, c')"
    by (auto simp: with_version_def dbVersion_def split: prod.splits option.splits)
  then have "kf (first_version (cur c1)) (cur c1) = Inr (cur c')"
    using assms by (simp add: nil_runs_def)
  with exec_op_on_db_ok [OF q] show "version_db kf (cur c) = Inr (cur c')"
    by (simp add: version_db_def seq_db_def)
qed


lemma nil_runs_Migrate_body:
  assumes "wf_migrations m"
  shows "nil_runs (Migrate_body flt stmts m target) (migrate_db stmts m target)"
proof (cases "length (UpScripts m) < unat target")
  case True
  with assms show ?thesis
    unfolding Migrate_body_def migrate_db_eq
    by (simp add: of_nat_less_word wf_migrations_def nil_runs_return_err)
next
  case False
  have schema: "nil_runs (ensureVersionSchema flt) (run_stmts VersionSchema)"
    unfolding nil_runs_def ensureVersionSchema_def
    by (metis ExecuteScript.Save_nil ExecuteScript_nil exec_op_savepoint_ok)
  have "nil_runs (migrate_from flt stmts m target v) (migrate_from_db stmts m target v)" for v
    unfolding migrate_from_eq [OF assms leI [OF False]] migrate_from_db_def set_version_eq
    by (simp add: nil_runs_return_nil nil_runs_return_err nil_runs_and_then nil_runs_up_loop
        nil_runs_setDbVersion del: run_stmts.simps)
  then have "nil_runs (and_then migrate_failed (ensureVersionSchema flt)
      (with_version flt (migrate_from flt stmts m target)))
    (seq_db migrate_failed (run_stmts VersionSchema) (version_db (migrate_from_db stmts m target)))"
    by (intro nil_runs_and_then schema nil_runs_with_version)
  with False assms show ?thesis
    unfolding Migrate_body_def migrate_db_eq by (simp add: of_nat_less_word wf_migrations_def)
qed

lemma Migrate_nil:
  assumes "wf_migrations m" and "Migrate flt stmts m target c = (Ret None, c')"
  shows "migrate_db stmts m target (cur c) = Inr (cur c') \<and> saves c' = saves c"
  using Migrate_body.Save_nil [OF assms(2) [unfolded Migrate_def]]
    nil_runs_Migrate_body [OF assms(1), of flt stmts target] exec_op_savepoint_ok
  by (fastforce simp: nil_runs_def)

section \<open>Without faults, Migrate computes the specification\<close>

lemma follows_return_nil: "follows return_nil Inr"
  by (rule followsI) (simp add: return_nil_def)

lemma follows_return_err: "follows (return_err e) (\<lambda>_. Inl e)"
  by (rule followsI) (simp add: return_err_def)

lemma follows_and_then:
  assumes "follows a f" and "follows b g"
  shows "follows (and_then w a b) (seq_db w f g)"
proof (rule followsI)
  fix c :: "'a conn"
  assume "\<not> interrupted c"
  with assms(1) show "\<exists>c'. and_then w a b c = (Ret (err_of (seq_db w f g (cur c))), c') \<and> saves c' = saves c
    \<and> \<not> interrupted c' \<and> (\<forall>d. seq_db w f g (cur c) = Inr d \<longrightarrow> cur c' = d)"
  proof (cases rule: followsE)
    case (error e c1)
    then show ?thesis by (simp add: and_then_def seq_db_def)
  next
    case (nil c1)
    with assms(2) [unfolded follows_def, rule_format, of c1] show ?thesis
      by (simp add: and_then_def seq_db_def)
  qed
qed

lemma follows_with_version:
  assumes "\<And>v. follows (k v) (kf v)"
  shows "follows (with_version no_faults k) (version_db kf)"
proof (rule followsI)
  fix c :: "'a conn"
  assume ni: "\<not> interrupted c"
  show "\<exists>c'. with_version no_faults k c = (Ret (err_of (version_db kf (cur c))), c') \<and> saves c' = saves c
    \<and> \<not> interrupted c' \<and> (\<forall>d. version_db kf (cur c) = Inr d \<longrightarrow> cur c' = d)"
  proof (cases "select_version (cur c)")
    case (Inl e)
    with ni show ?thesis
      by (simp add: with_version_def dbVersion_def exec_op_no_fault on_db_def version_db_def seq_db_def)
  next
    case (Inr d)
    let ?c = "c\<lparr>ops := Suc (ops c), cur := d\<rparr>"
    have "with_version no_faults k c = k (first_version d) ?c"
      using ni Inr by (simp add: with_version_def dbVersion_def exec_op_no_fault on_db_def)
    moreover have "\<not> interrupted ?c" using ni by simp
    moreover have "follows (k (first_version d)) (kf (first_version d))" by (rule assms)
    ultimately show ?thesis
      using Inr unfolding follows_def version_db_def seq_db_def by fastforce
  qed
qed

lemma follows_up_loop: "follows (up_loop no_faults stmts ms) (run_scripts stmts ms)"
proof (induction ms)
  case Nil
  have "run_scripts stmts [] = Inr" by (rule ext) simp
  then show ?case by (simp add: follows_return_nil)
next
  case (Cons s ss)
  then show ?case
    unfolding run_scripts_Cons up_loop.simps by (intro follows_and_then follows_ExecuteScript)
qed

lemma follows_setDbVersion: "follows (setDbVersion no_faults v) (run_stmts [delete_rows, insert_row v])"
  unfolding setDbVersion_script by (rule follows_stmts)

lemma follows_Migrate_body:
  assumes "wf_migrations m"
  shows "follows (Migrate_body no_faults stmts m target) (migrate_db stmts m target)"
proof (cases "length (UpScripts m) < unat target")
  case True
  with assms show ?thesis
    unfolding Migrate_body_def migrate_db_eq
    by (simp add: of_nat_less_word wf_migrations_def follows_return_err)
next
  case False
  have schema: "follows (ensureVersionSchema no_faults) (run_stmts VersionSchema)"
    unfolding ensureVersionSchema_def by (intro follows_Save follows_ExecuteScript)
  have "follows (migrate_from no_faults stmts m target v) (migrate_from_db stmts m target v)" for v
    unfolding migrate_from_eq [OF assms leI [OF False]] migrate_from_db_def set_version_eq
    by (simp add: follows_return_nil follows_return_err follows_and_then follows_up_loop
        follows_setDbVersion del: run_stmts.simps)
  then have "follows (and_then migrate_failed (ensureVersionSchema no_faults)
      (with_version no_faults (migrate_from no_faults stmts m target)))
    (seq_db migrate_failed (run_stmts VersionSchema) (version_db (migrate_from_db stmts m target)))"
    by (intro follows_and_then schema follows_with_version)
  with False assms show ?thesis
    unfolding Migrate_body_def migrate_db_eq by (simp add: of_nat_less_word wf_migrations_def)
qed

lemma Migrate_exact:
  assumes "wf_migrations m" and "\<not> interrupted c"
  shows "\<exists>c'. Migrate no_faults stmts m target c = (Ret (err_of (migrate_db stmts m target (cur c))), c')
    \<and> saves c' = saves c \<and> \<not> interrupted c'
    \<and> cur c' = (case migrate_db stmts m target (cur c) of Inl e \<Rightarrow> cur c | Inr d \<Rightarrow> d)"
  unfolding Migrate_def using follows_Migrate_body [OF assms(1)] assms(2) by (rule Save_follows)


section \<open>Scripts that leave the version table alone\<close>

text \<open>
  Migration scripts are written by the user of the package and work on the user's tables. With
  statements that do only that, the effect of a list of scripts is a function on those tables.
\<close>

definition on_user :: "('u \<Rightarrow> 'u result) \<Rightarrow> 'u stmt" where
  "on_user f d = map_sum id (\<lambda>u. d\<lparr>user := u\<rparr>) (f (user d))"

fun run_user :: "('u \<Rightarrow> 'u result) list \<Rightarrow> 'u \<Rightarrow> 'u result" where
  "run_user [] u = Inr u"
| "run_user (f # fs) u = (case f u of Inl e \<Rightarrow> Inl e | Inr u' \<Rightarrow> run_user fs u')"

definition user_scripts :: "(string \<Rightarrow> ('u \<Rightarrow> 'u result) list) \<Rightarrow> string \<Rightarrow> 'u stmt list" where
  "user_scripts ust s = map on_user (ust s)"

fun run_user_scripts :: "(string \<Rightarrow> ('u \<Rightarrow> 'u result) list) \<Rightarrow> string list \<Rightarrow> 'u \<Rightarrow> 'u result" where
  "run_user_scripts ust [] u = Inr u"
| "run_user_scripts ust (s # ss) u =
     (case run_user (ust s) u of
        Inl e \<Rightarrow> Inl (migrate_failed e)
      | Inr u' \<Rightarrow> run_user_scripts ust ss u')"

lemma run_stmts_user: "run_stmts (map on_user fs) d = map_sum id (\<lambda>u. d\<lparr>user := u\<rparr>) (run_user fs (user d))"
proof (induction fs arbitrary: d)
  case (Cons f fs)
  show ?case by (cases "f (user d)") (simp_all add: on_user_def [of f] Cons.IH)
qed simp

lemma run_scripts_user:
  "run_scripts (user_scripts ust) ss d = map_sum id (\<lambda>u. d\<lparr>user := u\<rparr>) (run_user_scripts ust ss (user d))"
proof (induction ss arbitrary: d)
  case (Cons s ss)
  show ?case
    by (cases "run_user (ust s) (user d)") (simp_all add: user_scripts_def [of ust s] run_stmts_user Cons.IH)
qed simp

lemma run_user_scripts_append:
  "run_user_scripts ust (ss @ ts) u =
     (case run_user_scripts ust ss u of Inl e \<Rightarrow> Inl e | Inr u' \<Rightarrow> run_user_scripts ust ts u')"
  by (induction ss arbitrary: u) (simp_all split: sum.splits)

text \<open>Down scripts that undo the up scripts of the same number, in reverse order, undo them all.\<close>

definition undoes :: "(string \<Rightarrow> ('u \<Rightarrow> 'u result) list) \<Rightarrow> string \<Rightarrow> string \<Rightarrow> bool" where
  "undoes ust down up \<longleftrightarrow> (\<forall>u u'. run_user (ust up) u = Inr u' \<longrightarrow> run_user (ust down) u' = Inr u)"

lemma run_user_scripts_undo:
  assumes "list_all2 (undoes ust) downs ups" and "run_user_scripts ust ups u = Inr u'"
  shows "run_user_scripts ust (rev downs) u' = Inr u"
  using assms
proof (induction arbitrary: u rule: list_all2_induct)
  case (Cons d ds p ps)
  then obtain u1 where "run_user (ust p) u = Inr u1" and "run_user_scripts ust ps u1 = Inr u'"
    by (auto split: sum.splits)
  moreover from this have "run_user (ust d) u1 = Inr u" using Cons.hyps by (auto simp: undoes_def)
  ultimately show ?case using Cons.IH by (simp add: run_user_scripts_append)
qed simp

text \<open>What a successful migration leaves behind.\<close>

lemma run_stmts_VersionSchema:
  "run_stmts VersionSchema d = Inr d' \<Longrightarrow> user d' = user d \<and> first_version d' = first_version d
     \<and> run_stmts VersionSchema d' = Inr d'"
  by (auto simp: VersionSchema_def create_table_def create_index_def first_version_def
      split: option.splits sum.splits if_splits)

lemma migrate_db_version:
  assumes "migrate_db stmts m target d = Inr d'"
  shows "unat target \<le> length (UpScripts m) \<and> first_version d' = target
    \<and> run_stmts VersionSchema d' = Inr d'"
  using assms
  by (auto simp: migrate_db_def set_version_def first_version_def VersionSchema_def create_table_def
      create_index_def Let_def split: if_splits sum.splits option.splits list.splits)

lemma migrate_db_user:
  assumes "migrate_db (user_scripts ust) m target d = Inr d'"
  shows "run_user_scripts ust (scripts_between m (unat (first_version d)) (unat target)) (user d)
           = Inr (user d')
    \<and> unat (first_version d) \<le> length (UpScripts m)"
proof -
  from assms obtain d1 where d1: "run_stmts VersionSchema d = Inr d1"
    and le: "unat target \<le> length (UpScripts m)"
    by (auto simp: migrate_db_def split: if_splits sum.splits)
  note v = run_stmts_VersionSchema [OF d1]
  show ?thesis
  proof (cases "first_version d1 = target")
    case True
    with assms d1 v le show ?thesis by (auto simp: migrate_db_def scripts_between_def split: if_splits)
  next
    case False
    with assms d1 v show ?thesis
      by (auto simp: migrate_db_def run_scripts_user set_version_def Let_def map_sum_def
          split: if_splits sum.splits option.splits)
  qed
qed

lemma migrate_db_user_ok:
  assumes "run_stmts VersionSchema d = Inr d"
    and "unat target \<le> length (UpScripts m)" and "unat (first_version d) \<le> length (UpScripts m)"
    and "run_user_scripts ust (scripts_between m (unat (first_version d)) (unat target)) (user d) = Inr u"
  shows "\<exists>d'. migrate_db (user_scripts ust) m target d = Inr d' \<and> user d' = u"
proof (cases "first_version d = target")
  case True
  with assms show ?thesis by (simp add: migrate_db_def scripts_between_def)
next
  case False
  from VersionSchema_has_table [OF assms(1)] obtain rows where "schema_migrations d = Some rows" by blast
  with False assms show ?thesis
    by (simp add: migrate_db_def run_scripts_user set_version_def Let_def)
qed


section \<open>Properties\<close>

text \<open>An example: two migrations that each add an entry to a list, and their inverses.\<close>

definition push :: "nat \<Rightarrow> nat list \<Rightarrow> nat list result" where
  "push x u = Inr (x # u)"

definition pop :: "nat \<Rightarrow> nat list \<Rightarrow> nat list result" where
  "pop x u = (case u of y # ys \<Rightarrow> if y = x then Inr ys else Inl (ErrNew ''wrong entry'')
                      | [] \<Rightarrow> Inl (ErrNew ''no entry''))"

definition example_scripts :: "string \<Rightarrow> (nat list \<Rightarrow> nat list result) list" where
  "example_scripts s =
     (if s = ''u1'' then [push 1] else if s = ''u2'' then [push 2, push 3]
      else if s = ''d1'' then [pop 1] else if s = ''d2'' then [pop 3, pop 2] else [])"

definition example_migrations :: Migrations where
  "example_migrations = \<lparr>UpScripts = [''u1'', ''u2''], DownScripts = [''d1'', ''d2'']\<rparr>"

definition fresh_conn :: "nat list conn" where
  "fresh_conn = \<lparr>cur = \<lparr>user = [], schema_migrations = None\<rparr>, saves = [], interrupted = False, ops = 0\<rparr>"

definition second_script_fails :: faults where
  "second_script_fails k = (if k = 13 then Some (Fails (ErrNew ''disk full'')) else None)"



text \<open>
  C26: When \<open>Migrate\<close> returns nil, in whatever way statements could have failed, no transaction is
  left open beyond those of the caller, exactly the scripts between the version found and the target
  version have run, in order and each to its end, and the version table holds the target version.
\<close>

theorem Migrate_success:
  assumes "wf_migrations m" and "Migrate flt stmts m target c = (Ret None, c')"
  shows "migrate_db stmts m target (cur c) = Inr (cur c') \<and> saves c' = saves c
    \<and> first_version (cur c') = target \<and> unat target \<le> length (UpScripts m)"
  using Migrate_nil [OF assms] migrate_db_version by blast

theorem Migrate_success_witness:
  "first_version (cur (snd (Migrate (\<lambda>k. None) (user_scripts example_scripts) example_migrations 1 fresh_conn))) = 1"
proof -
  let ?run = "Migrate (\<lambda>k. None) (user_scripts example_scripts) example_migrations 1 fresh_conn"
  have "fst ?run = Ret None" by code_simp
  then have "?run = (Ret None, snd ?run)" by (metis prod.collapse)
  moreover have "wf_migrations example_migrations"
    by (simp add: wf_migrations_def example_migrations_def)
  ultimately show ?thesis using Migrate_success by blast
qed

text \<open>
  C12: When no statement fails of itself and the connection is not interrupted, \<open>Migrate\<close> refines
  the specification: it never panics, returns exactly the error of the specification, leaves the
  database of the specification on success and the database as it was on an error.
\<close>

theorem Migrate_refines:
  assumes "wf_migrations m" and "\<not> interrupted c"
  shows "\<exists>c'. Migrate no_faults stmts m target c = (Ret (err_of (migrate_db stmts m target (cur c))), c')
    \<and> saves c' = saves c
    \<and> cur c' = (case migrate_db stmts m target (cur c) of Inl e \<Rightarrow> cur c | Inr d \<Rightarrow> d)"
  using Migrate_exact [OF assms] by blast

theorem Migrate_refines_witness:
  "\<exists>c'. Migrate no_faults (user_scripts example_scripts) example_migrations 2 fresh_conn = (Ret None, c')
    \<and> user (cur c') = [3, 2, 1] \<and> schema_migrations (cur c') = Some [(2, False)]"
proof -
  have "migrate_db (user_scripts example_scripts) example_migrations 2 (cur fresh_conn)
      = Inr \<lparr>user = [3, 2, 1], schema_migrations = Some [(2, False)]\<rparr>"
    by code_simp
  then show ?thesis
    using Migrate_refines [of example_migrations fresh_conn "user_scripts example_scripts" 2]
    by (auto simp: wf_migrations_def example_migrations_def fresh_conn_def)
qed

text \<open>
  C27: Down migrations that undo the up migrations of the same number bring the data back: after a
  successful migration from version v to a higher version, with any pattern of faults survived on the
  way, migrating back to v without faults succeeds and restores the contents of the user's tables.
\<close>

theorem Migrate_up_down:
  assumes "wf_migrations m" and "list_all2 (undoes ust) (DownScripts m) (UpScripts m)"
    and "first_version (cur c) < target"
    and "Migrate flt (user_scripts ust) m target c = (Ret None, c1)"
  shows "\<exists>c2. Migrate no_faults (user_scripts ust) m (first_version (cur c)) c1 = (Ret None, c2)
    \<and> user (cur c2) = user (cur c) \<and> first_version (cur c2) = first_version (cur c)"
proof -
  let ?v = "first_version (cur c)"
  note up = Migrate_nil [OF assms(1,4)]
  have d1: "run_stmts VersionSchema (cur c1) = Inr (cur c1)" "first_version (cur c1) = target"
    "unat target \<le> length (UpScripts m)"
    using up migrate_db_version by blast+
  have ni: "\<not> interrupted c1"
    using Migrate_body.Save_nil [OF assms(4) [unfolded Migrate_def]] by blast
  have lt: "unat ?v < unat target" using assms(3) by (simp add: word_less_nat_alt)
  have "run_user_scripts ust (drop (unat ?v) (take (unat target) (UpScripts m))) (user (cur c)) = Inr (user (cur c1))"
    using migrate_db_user [OF conjunct1 [OF up]] lt by (simp add: scripts_between_def)
  moreover have "list_all2 (undoes ust) (drop (unat ?v) (take (unat target) (DownScripts m)))
      (drop (unat ?v) (take (unat target) (UpScripts m)))"
    using assms(2) by (intro list_all2_dropI list_all2_takeI)
  ultimately have "run_user_scripts ust (scripts_between m (unat target) (unat ?v)) (user (cur c1)) = Inr (user (cur c))"
    using lt run_user_scripts_undo by (auto simp: scripts_between_def)
  then obtain d2 where d2: "migrate_db (user_scripts ust) m ?v (cur c1) = Inr d2" "user d2 = user (cur c)"
    using migrate_db_user_ok [OF d1(1), of ?v m] d1(2,3) lt by auto
  then show ?thesis
    using Migrate_exact [OF assms(1) ni, of "user_scripts ust" ?v] migrate_db_version [OF d2(1)] by auto
qed

theorem Migrate_up_down_witness:
  "\<exists>c2. Migrate no_faults (user_scripts example_scripts) example_migrations 0
      (snd (Migrate no_faults (user_scripts example_scripts) example_migrations 2 fresh_conn)) = (Ret None, c2)
    \<and> user (cur c2) = []"
proof -
  let ?run = "Migrate no_faults (user_scripts example_scripts) example_migrations 2 fresh_conn"
  have "fst ?run = Ret None" by code_simp
  then have run: "?run = (Ret None, snd ?run)" by (metis prod.collapse)
  have wf: "wf_migrations example_migrations"
    by (simp add: wf_migrations_def example_migrations_def)
  have "list_all2 (undoes example_scripts) (DownScripts example_migrations) (UpScripts example_migrations)"
    by (simp add: example_migrations_def undoes_def example_scripts_def push_def pop_def)
  then show ?thesis
    using Migrate_up_down [OF wf _ _ run] by (auto simp: fresh_conn_def first_version_def)
qed

text \<open>
  \<open>NewMigrations\<close> accepts exactly the pairs of lists of equal length, and from what it accepts
  \<open>Up\<close> goes to the last version and \<open>Down\<close> to version 0: without faults, \<open>Up\<close> on a database at
  version v runs the up scripts from v on, and \<open>Down\<close> runs the down scripts below v in reverse.
\<close>

theorem NewMigrations_Up_Down:
  assumes "NewMigrations up down = Inr m" and "length up < 2 ^ 63" and "\<not> interrupted c"
    and "run_stmts VersionSchema (cur c) = Inr (cur c)"
    and "first_version (cur c) = v" and "unat v \<le> length up"
  shows "fst (Up no_faults stmts m c) = Ret (err_of (if unat v = length up then Inr (cur c)
           else seq_db id (run_scripts stmts (drop (unat v) up)) (set_version (word_of_nat (length up))) (cur c)))
    \<and> fst (Down no_faults stmts m c) = Ret (err_of (if unat v = 0 then Inr (cur c)
           else seq_db id (run_scripts stmts (rev (take (unat v) down))) (set_version 0) (cur c)))"
proof -
  have m: "UpScripts m = up" "DownScripts m = down" "length down = length up"
    using assms(1) by (auto simp: NewMigrations_def split: if_splits)
  then have wf: "wf_migrations m" using assms(2) by (simp add: wf_migrations_def)
  have n: "unat (word_of_nat (length up) :: uint64) = length up"
    using assms(2) by (simp add: unat_of_nat)
  then have eq: "v = word_of_nat (length up) \<longleftrightarrow> unat v = length up" by (metis word_unat_eq_iff)
  have id: "(case x of Inl e \<Rightarrow> Inl (id e) | Inr y \<Rightarrow> f y) = (case x of Inl e \<Rightarrow> Inl e | Inr y \<Rightarrow> f y)"
    for x :: "'a database result" and f :: "'a stmt" by (cases x) simp_all
  have up: "migrate_db stmts m (word_of_nat (length up)) (cur c) = (if unat v = length up then Inr (cur c)
      else seq_db id (run_scripts stmts (drop (unat v) up)) (set_version (word_of_nat (length up))) (cur c))"
    using assms(4-6) m n eq by (simp add: migrate_db_def seq_db_def scripts_between_def Let_def id)
  have down: "migrate_db stmts m 0 (cur c) = (if unat v = 0 then Inr (cur c)
      else seq_db id (run_scripts stmts (rev (take (unat v) down))) (set_version 0) (cur c))"
    using assms(4-6) m n eq
    by (auto simp: migrate_db_def seq_db_def scripts_between_def Let_def id unat_eq_0 word_gt_0)
  show ?thesis
    using Migrate_exact [OF wf assms(3), of stmts "word_of_nat (length up)"]
      Migrate_exact [OF wf assms(3), of stmts 0]
    unfolding Up_def Down_def m(1) up down by (elim exE conjE) simp
qed

theorem NewMigrations_Up_Down_witness:
  "fst (Down no_faults (user_scripts example_scripts) example_migrations
     (fresh_conn\<lparr>cur := \<lparr>user = [1], schema_migrations = Some [(1, False)]\<rparr>\<rparr>)) = Ret None"
proof -
  let ?c = "fresh_conn\<lparr>cur := \<lparr>user = [1], schema_migrations = Some [(1, False)]\<rparr>\<rparr>"
  have "NewMigrations [''u1'', ''u2''] [''d1'', ''d2''] = Inr example_migrations" by code_simp
  moreover have "run_stmts VersionSchema (cur ?c) = Inr (cur ?c)" by code_simp
  moreover have "first_version (cur ?c) = 1" by code_simp
  moreover have "err_of (seq_db id (run_scripts (user_scripts example_scripts) (rev (take (unat (1::uint64)) [''d1'', ''d2''])))
      (set_version 0) (cur ?c)) = None" by code_simp
  ultimately show ?thesis
    using NewMigrations_Up_Down [of "[''u1'', ''u2'']" "[''d1'', ''d2'']" example_migrations ?c 1
        "user_scripts example_scripts"] by (simp add: fresh_conn_def)
qed

end
