(* ===== verification/MigrationFiles.thy ===== *)
theory MigrationFiles
  imports GoSort Migrationx
begin

text \<open>
  How package migrationx finds its scripts in a file system (src/sqlite/migrationx/migration.go,
  \<open>NewMigrationsFromFS\<close>, \<open>parseMigration\<close>, \<open>readString\<close>): the file names that the regular
  expression accepts, the sort by number, the check for gaps and the reading of the files. The file
  system is a parameter.
\<close>

section \<open>File names\<close>

record migration =
  pos :: uint64
  up :: bool
  name :: string

text \<open>
  The end of the expression, \<open>.*\.(up|down)\.sql\<close>: \<open>.*\<close> is greedy and stops at a line break, so the
  last occurrence of \<open>.up.sql\<close> or \<open>.down.sql\<close> on the line is the one that matches.
\<close>

fun last_kind :: "string \<Rightarrow> string option" where
  "last_kind [] = None"
| "last_kind (c # s) =
     (if c = CHR 0x0A then None
      else case last_kind s of
        Some k \<Rightarrow> Some k
      | None \<Rightarrow> if HasPrefix (c # s) ''.up.sql'' then Some ''up''
                else if HasPrefix (c # s) ''.down.sql'' then Some ''down''
                else None)"

text \<open>A match that begins at the first character, with its two groups.\<close>

definition match_here :: "string \<Rightarrow> (string \<times> string) option" where
  "match_here s =
     (let ds = takeWhile is_digit s
      in if ds = [] then None
         else case dropWhile is_digit s of
           [] \<Rightarrow> None
         | c # t \<Rightarrow> if c = CHR ''_'' then map_option (Pair ds) (last_kind t) else None)"

text \<open>\<open>FindStringSubmatch\<close>: the leftmost match; the expression is not anchored.\<close>

fun FindStringSubmatch :: "string \<Rightarrow> (string \<times> string) option" where
  "FindStringSubmatch [] = None"
| "FindStringSubmatch (c # s) =
     (case match_here (c # s) of Some m \<Rightarrow> Some m | None \<Rightarrow> FindStringSubmatch s)"

definition parseMigration :: "string \<Rightarrow> migration option" where
  "parseMigration n =
     (case FindStringSubmatch n of
        None \<Rightarrow> None
      | Some (digits, scriptType) \<Rightarrow>
          (case ParseUint digits of
             None \<Rightarrow> None
           | Some p \<Rightarrow>
               if p = 0 then None
               else if scriptType \<noteq> ''up'' \<and> scriptType \<noteq> ''down'' then None
               else Some \<lparr>pos = p, up = (scriptType = ''up''), name = n\<rparr>))"

section \<open>The file system\<close>

record dir_entry =
  entry_name :: string
  IsDir :: bool

text \<open>Opening a file may fail, and so may copying its contents.\<close>

record file_system =
  ReadDir :: "string \<Rightarrow> dir_entry list result"
  Open :: "string \<Rightarrow> string result result"

definition readString :: "file_system \<Rightarrow> string \<Rightarrow> string \<Rightarrow> string result" where
  "readString fsys subpath filename =
     (case Open fsys (filepath_Join subpath filename) of
        Inl e \<Rightarrow> Inl e
      | Inr (Inl e) \<Rightarrow> Inl (ErrWrap (filename @ '': '') e)
      | Inr (Inr content) \<Rightarrow> Inr content)"

section \<open>NewMigrationsFromFS\<close>

text \<open>The loop over the directory entries, with the two slices it appends to.\<close>

fun collect :: "dir_entry list \<Rightarrow> migration list \<Rightarrow> migration list \<Rightarrow> migration list \<times> migration list" where
  "collect [] upFiles downFiles = (upFiles, downFiles)"
| "collect (e # es) upFiles downFiles =
     (if IsDir e then collect es upFiles downFiles
      else case parseMigration (entry_name e) of
        None \<Rightarrow> collect es upFiles downFiles
      | Some m \<Rightarrow> if up m then collect es (upFiles @ [m]) downFiles
                  else collect es upFiles (downFiles @ [m]))"

text \<open>The loop that looks for the first number out of place; \<open>int(m.pos)-1\<close> wraps at 64 bits.\<close>

fun first_gap :: "nat \<Rightarrow> migration list \<Rightarrow> nat option" where
  "first_gap i [] = None"
| "first_gap i (m # ms) = (if int i \<noteq> sint (pos m - 1) then Some (i + 1) else first_gap (Suc i) ms)"

definition missing :: "string \<Rightarrow> nat \<Rightarrow> go_error" where
  "missing kind n = ErrNew (kind @ '' migration for migration '' @ itoa n @ '' is missing'')"

fun read_all :: "file_system \<Rightarrow> string \<Rightarrow> migration list \<Rightarrow> migration list \<Rightarrow> Migrations \<Rightarrow> Migrations result" where
  "read_all fsys subpath (u # us) (d # ds) out =
     (case readString fsys subpath (name u) of
        Inl e \<Rightarrow> Inl e
      | Inr cu \<Rightarrow>
          (case readString fsys subpath (name d) of
             Inl e \<Rightarrow> Inl e
           | Inr cd \<Rightarrow> read_all fsys subpath us ds
               (out\<lparr>UpScripts := UpScripts out @ [cu], DownScripts := DownScripts out @ [cd]\<rparr>)))"
| "read_all fsys subpath _ _ out = Inr out"

definition NewMigrationsFromFS ::
  "((migration \<Rightarrow> uint64) \<Rightarrow> migration list \<Rightarrow> migration list) \<Rightarrow> file_system \<Rightarrow> string \<Rightarrow> Migrations result" where
  "NewMigrationsFromFS pdq fsys subpath =
     (case ReadDir fsys subpath of
        Inl e \<Rightarrow> Inl e
      | Inr es \<Rightarrow>
          (case collect es [] [] of (upFiles, downFiles) \<Rightarrow>
             if length upFiles \<noteq> length downFiles
             then Inl (ErrNew ''target directory must have a 'down' migration for each 'up' migration'')
             else let us = sort_Sort pdq pos upFiles; ds = sort_Sort pdq pos downFiles
                  in case first_gap 0 us of
                       Some n \<Rightarrow> Inl (missing ''up'' n)
                     | None \<Rightarrow>
                         (case first_gap 0 ds of
                            Some n \<Rightarrow> Inl (missing ''down'' n)
                          | None \<Rightarrow> read_all fsys subpath us ds \<lparr>UpScripts = [], DownScripts = []\<rparr>)))"

section \<open>File names that are accepted\<close>

lemma last_kind_cases: "last_kind s = Some k \<Longrightarrow> k = ''up'' \<or> k = ''down''"
  by (induction s) (auto split: if_splits option.splits)

lemma last_kind_append: "last_kind s = Some k \<Longrightarrow> CHR 0x0A \<notin> set p \<Longrightarrow> last_kind (p @ s) = Some k"
  by (induction p) auto

lemma last_kind_up: "CHR 0x0A \<notin> set p \<Longrightarrow> last_kind (p @ ''.up.sql'') = Some ''up''"
  by (rule last_kind_append) (simp_all add: HasPrefix_def)

lemma last_kind_down: "CHR 0x0A \<notin> set p \<Longrightarrow> last_kind (p @ ''.down.sql'') = Some ''down''"
  by (rule last_kind_append) (simp_all add: HasPrefix_def)

lemma last_kind_found: "\<exists>k. last_kind (''.up.sql'' @ rest) = Some k"
  by (simp add: HasPrefix_def split: option.splits)

lemma match_here_digits:
  assumes "list_all is_digit ds" and "ds \<noteq> []"
  shows "match_here (ds @ CHR ''_'' # t) = map_option (Pair ds) (last_kind t)"
proof -
  have "takeWhile is_digit (ds @ CHR ''_'' # t) = ds" and "dropWhile is_digit (ds @ CHR ''_'' # t) = CHR ''_'' # t"
    using assms(1) by (simp_all add: takeWhile_append dropWhile_append list_all_iff is_digit_def)
  with assms(2) show ?thesis by (simp add: match_here_def Let_def)
qed

lemma FindStringSubmatch_here: "match_here s = Some m \<Longrightarrow> FindStringSubmatch s = Some m"
  by (cases s) (simp_all add: match_here_def)

lemma ParseUint_itoa_iff: "ParseUint (itoa n) = (if n < 2 ^ 64 then Some (word_of_nat n) else None)"
  by (simp add: ParseUint_def)

lemma parseMigration_numbered:
  assumes "last_kind t = Some k"
  shows "parseMigration (itoa n @ CHR ''_'' # t) =
    (if 0 < n \<and> n < 2 ^ 64 then Some \<lparr>pos = word_of_nat n, up = (k = ''up''), name = itoa n @ CHR ''_'' # t\<rparr> else None)"
proof -
  have "FindStringSubmatch (itoa n @ CHR ''_'' # t) = Some (itoa n, k)"
    using assms by (intro FindStringSubmatch_here) (simp add: match_here_digits)
  moreover have "(word_of_nat n :: uint64) = 0 \<longleftrightarrow> n = 0" if "n < 2 ^ 64"
    using that unat_of_nat [of n, where ?'a = 64] by (auto simp del: unat_of_nat)
  ultimately show ?thesis
    using last_kind_cases [OF assms] by (auto simp: parseMigration_def ParseUint_itoa_iff)
qed

lemma parseMigration_name: "parseMigration n = Some m \<Longrightarrow> name m = n \<and> pos m \<noteq> 0"
  by (auto simp: parseMigration_def split: option.splits prod.splits if_splits)

section \<open>Collecting and checking\<close>

definition migration_files :: "dir_entry list \<Rightarrow> migration list" where
  "migration_files es = List.map_filter (\<lambda>e. if IsDir e then None else parseMigration (entry_name e)) es"

lemma collect_eq:
  "collect es us ds = (us @ filter up (migration_files es), ds @ filter (\<lambda>m. \<not> up m) (migration_files es))"
  by (induction es us ds rule: collect.induct)
    (auto simp: migration_files_def map_filter_simps split: option.splits)

lemma length_migration_files: "length (migration_files es) \<le> length es"
  by (induction es) (auto simp: migration_files_def map_filter_simps split: option.splits)

lemma first_gap_None_iff:
  "first_gap i ms = None \<longleftrightarrow> (\<forall>j < length ms. sint (pos (ms ! j) - 1) = int (i + j))"
proof (induction ms arbitrary: i)
  case (Cons m ms)
  show ?case by (auto simp: Cons.IH nth_Cons split: nat.splits)
qed simp

lemma sint_pred_eq: "n < 2 ^ 63 \<Longrightarrow> sint (p - 1 :: uint64) = int n \<longleftrightarrow> p = word_of_nat (Suc n)"
proof -
  assume n: "n < 2 ^ 63"
  then have "sint (word_of_nat n :: uint64) = int n"
    using sint_index [of "word_of_nat n" n] by (simp add: unat_of_nat)
  then have "sint (p - 1) = int n \<longleftrightarrow> p - 1 = word_of_nat n" by (metis signed_word_eqI)
  then show ?thesis by (auto simp: algebra_simps)
qed

lemma read_all_eq:
  "length us = length ds \<Longrightarrow> read_all fsys subpath us ds out = Inr m \<longleftrightarrow>
     (\<exists>cus cds. map (\<lambda>x. readString fsys subpath (name x)) us = map Inr cus
        \<and> map (\<lambda>x. readString fsys subpath (name x)) ds = map Inr cds
        \<and> m = out\<lparr>UpScripts := UpScripts out @ cus, DownScripts := DownScripts out @ cds\<rparr>)"
proof (induction us ds arbitrary: out rule: list_induct2)
  case (Cons u us d ds)
  then show ?case
    by (auto simp: map_eq_Cons_conv Cons_eq_map_conv split: sum.splits)
qed auto

section \<open>Which directories are accepted\<close>

text \<open>The numbers of a list of files, each from 1 up exactly once.\<close>

definition complete :: "migration list \<Rightarrow> bool" where
  "complete ms \<longleftrightarrow> mset (map (\<lambda>m. unat (pos m)) ms) = mset [1..<Suc (length ms)]"

lemma first_gap_positions:
  assumes "length ms < 2 ^ 63"
  shows "first_gap 0 ms = None \<longleftrightarrow> map (\<lambda>m. unat (pos m)) ms = [1..<Suc (length ms)]"
proof -
  have "sint (pos (ms ! j) - 1) = int j \<longleftrightarrow> unat (pos (ms ! j)) = Suc j" if "j < length ms" for j
  proof -
    have "unat (word_of_nat (Suc j) :: uint64) = Suc j"
      using that assms by (simp add: unat_of_nat del: of_nat_Suc)
    then have "pos (ms ! j) = word_of_nat (Suc j) \<longleftrightarrow> unat (pos (ms ! j)) = Suc j"
      by (metis word_unat_eq_iff)
    then show ?thesis using that assms by (subst sint_pred_eq) simp_all
  qed
  then have "first_gap 0 ms = None \<longleftrightarrow> (\<forall>j < length ms. unat (pos (ms ! j)) = Suc j)"
    by (simp add: first_gap_None_iff)
  then show ?thesis by (subst list_eq_iff_nth_eq) (simp del: upt_Suc)
qed

locale file_sorter = pdq_sorter pdq
  for pdq :: "(migration \<Rightarrow> uint64) \<Rightarrow> migration list \<Rightarrow> migration list"
begin

lemma sorted_positions:
  assumes "length ms < 2 ^ 63"
  shows "first_gap 0 (sort_Sort pdq pos ms) = None \<longleftrightarrow> complete ms"
proof -
  let ?s = "sort_Sort pdq pos ms"
  have len: "length ?s = length ms" by (rule go_sort.length_srt)
  have "sorted (map (\<lambda>m. unat (pos m)) ?s)"
    using go_sort.sorted_srt [of pos ms]
    by (auto simp: sorted_wrt_map word_le_nat_alt elim: sorted_wrt_mono_rel [rotated])
  then have "map (\<lambda>m. unat (pos m)) ?s = sort (map (\<lambda>m. unat (pos m)) ms)"
    by (metis go_sort.mset_srt mset_map properties_for_sort)
  moreover have "sort (map (\<lambda>m. unat (pos m)) ms) = [1..<Suc (length ms)] \<longleftrightarrow> complete ms"
    unfolding complete_def by (metis mset_sort properties_for_sort sorted_upt)
  ultimately show ?thesis using first_gap_positions [of ?s] assms len by simp
qed

lemma length_sorted: "length (sort_Sort pdq pos fs) = length fs"
  by (rule go_sort.length_srt)

lemma accepted:
  assumes "ReadDir fsys subpath = Inr es" and "length es < 2 ^ 63"
  defines "us \<equiv> filter up (migration_files es)" and "ds \<equiv> filter (\<lambda>m. \<not> up m) (migration_files es)"
  shows "NewMigrationsFromFS pdq fsys subpath = Inr m \<longleftrightarrow>
    complete us \<and> complete ds \<and> length us = length ds
    \<and> map (\<lambda>x. readString fsys subpath (name x)) (sort_Sort pdq pos us) = map Inr (UpScripts m)
    \<and> map (\<lambda>x. readString fsys subpath (name x)) (sort_Sort pdq pos ds) = map Inr (DownScripts m)"
proof -
  have len: "length us < 2 ^ 63" "length ds < 2 ^ 63"
    using assms(2) length_migration_files [of es] unfolding us_def ds_def
    by (meson le_less_trans length_filter_le)+
  have "NewMigrationsFromFS pdq fsys subpath = Inr m \<longleftrightarrow> length us = length ds
      \<and> first_gap 0 (sort_Sort pdq pos us) = None \<and> first_gap 0 (sort_Sort pdq pos ds) = None
      \<and> read_all fsys subpath (sort_Sort pdq pos us) (sort_Sort pdq pos ds) \<lparr>UpScripts = [], DownScripts = []\<rparr> = Inr m"
    using assms(1) by (auto simp: NewMigrationsFromFS_def collect_eq us_def ds_def Let_def split: option.splits)
  then show ?thesis
    unfolding sorted_positions [OF len(1)] sorted_positions [OF len(2)]
    by (cases m) (auto simp: read_all_eq go_sort.length_srt)
qed

lemma readable:
  "(\<exists>cs. map f (sort_Sort pdq pos xs) = map Inr cs) \<longleftrightarrow> (\<forall>x \<in> set xs. \<exists>c. f x = Inr c)"
  by (simp add: map_eq_map_Inr go_sort.set_srt)

lemma accepts:
  assumes "ReadDir fsys subpath = Inr es" and "length es < 2 ^ 63"
  defines "us \<equiv> filter up (migration_files es)" and "ds \<equiv> filter (\<lambda>m. \<not> up m) (migration_files es)"
  shows "(\<exists>m. NewMigrationsFromFS pdq fsys subpath = Inr m) \<longleftrightarrow>
    complete us \<and> complete ds \<and> length us = length ds
    \<and> (\<forall>f \<in> set (migration_files es). \<exists>content. readString fsys subpath (name f) = Inr content)"
proof -
  let ?read = "\<lambda>x. readString fsys subpath (name x)"
  have "(\<exists>m. NewMigrationsFromFS pdq fsys subpath = Inr m) \<longleftrightarrow>
    complete us \<and> complete ds \<and> length us = length ds
    \<and> (\<exists>m :: Migrations. map ?read (sort_Sort pdq pos us) = map Inr (UpScripts m)
        \<and> map ?read (sort_Sort pdq pos ds) = map Inr (DownScripts m))"
    unfolding us_def ds_def accepted [OF assms(1,2)] by simp
  moreover have "(\<exists>m :: Migrations. map ?read (sort_Sort pdq pos us) = map Inr (UpScripts m)
        \<and> map ?read (sort_Sort pdq pos ds) = map Inr (DownScripts m))
    \<longleftrightarrow> (\<exists>cus. map ?read (sort_Sort pdq pos us) = map Inr cus)
      \<and> (\<exists>cds. map ?read (sort_Sort pdq pos ds) = map Inr cds)"
    by (metis Migrations.select_convs)
  ultimately show ?thesis unfolding readable by (auto simp: us_def ds_def)
qed

lemma script_of_file:
  assumes "map (\<lambda>x. readString fsys subpath (name x)) (sort_Sort pdq pos fs) = map Inr cs"
    and "complete fs" and "length fs < 2 ^ 63" and "f \<in> set fs"
  shows "readString fsys subpath (name f) = Inr (cs ! (unat (pos f) - 1)) \<and> unat (pos f) - 1 < length cs"
proof -
  let ?s = "sort_Sort pdq pos fs"
  have len: "length ?s = length cs" "length ?s = length fs"
    using assms(1) by (metis length_map) (rule go_sort.length_srt)
  have ps: "map (\<lambda>m. unat (pos m)) ?s = [1..<Suc (length ?s)]"
    using sorted_positions [OF assms(3)] first_gap_positions [of ?s] assms(2,3) len by simp
  obtain j where j: "j < length ?s" "?s ! j = f"
    using assms(4) by (metis go_sort.set_srt in_set_conv_nth)
  then have "unat (pos f) = Suc j" using arg_cong [OF ps, of "\<lambda>xs. xs ! j"] by (simp del: upt_Suc)
  moreover have "readString fsys subpath (name f) = Inr (cs ! j)"
    using arg_cong [OF assms(1), of "\<lambda>xs. xs ! j"] j len by simp
  ultimately show ?thesis using j len by simp
qed

end

interpretation file_insertion: file_sorter insertionSort
  by unfold_locales

section \<open>Properties\<close>

definition example_fs :: file_system where
  "example_fs = \<lparr>
     ReadDir = (\<lambda>p. if p = ''sql'' then Inr
       [\<lparr>entry_name = ''2_more.down.sql'', IsDir = False\<rparr>, \<lparr>entry_name = ''2_more.up.sql'', IsDir = False\<rparr>,
        \<lparr>entry_name = ''README.md'', IsDir = False\<rparr>, \<lparr>entry_name = ''01_init.up.sql'', IsDir = False\<rparr>,
        \<lparr>entry_name = ''3_dir.up.sql'', IsDir = True\<rparr>, \<lparr>entry_name = ''1_init.down.sql'', IsDir = False\<rparr>]
       else Inl (ErrNew ''file does not exist'')),
     Open = (\<lambda>p. Inr (Inr p))\<rparr>"

definition example_entries :: "dir_entry list" where
  "example_entries = projr (ReadDir example_fs ''sql'')"

lemma example_dir: "ReadDir example_fs ''sql'' = Inr example_entries" "length example_entries < 2 ^ 63"
  by (simp_all add: example_entries_def example_fs_def)

lemma example_files: "migration_files example_entries =
    [\<lparr>pos = 2, up = False, name = ''2_more.down.sql''\<rparr>, \<lparr>pos = 2, up = True, name = ''2_more.up.sql''\<rparr>,
     \<lparr>pos = 1, up = True, name = ''01_init.up.sql''\<rparr>, \<lparr>pos = 1, up = False, name = ''1_init.down.sql''\<rparr>]"
  by (simp add: example_entries_def example_fs_def migration_files_def map_filter_simps parseMigration_def
      match_here_def is_digit_def HasPrefix_def ParseUint_def decimal_def digit_val_def)

lemma example_readable: "readString example_fs ''sql'' s = Inr (filepath_Join ''sql'' s)"
  by (simp add: readString_def example_fs_def)

lemma example_accepted: "\<exists>m. NewMigrationsFromFS insertionSort example_fs ''sql'' = Inr m"
  using file_insertion.accepts [OF example_dir] example_readable by (simp add: example_files complete_def)

text \<open>
  C33: A name made of a number in decimal, an underscore, any description without a line break and the
  extension .up.sql or .down.sql parses to that number and kind exactly if the number is positive and fits 64
  bits; zero and every number that does not fit are no migrations, and none of them is taken modulo 2^64.
\<close>

theorem parseMigration_roundtrip:
  assumes "CHR 0x0A \<notin> set desc"
  shows "parseMigration (itoa n @ ''_'' @ desc @ (if u then ''.up.sql'' else ''.down.sql'')) =
    (if 0 < n \<and> n < 2 ^ 64
     then Some \<lparr>pos = word_of_nat n, up = u,
                name = itoa n @ ''_'' @ desc @ (if u then ''.up.sql'' else ''.down.sql'')\<rparr>
     else None)"
  using parseMigration_numbered [OF last_kind_up [OF assms]] parseMigration_numbered [OF last_kind_down [OF assms]]
  by (cases u) simp_all

theorem parseMigration_roundtrip_witness:
  "parseMigration (itoa 18446744073709551615 @ ''_'' @ ''users'' @ (if True then ''.up.sql'' else ''.down.sql''))
    = Some \<lparr>pos = - 1, up = True,
            name = itoa 18446744073709551615 @ ''_'' @ ''users'' @ (if True then ''.up.sql'' else ''.down.sql'')\<rparr>
   \<and> parseMigration (itoa 18446744073709551616 @ ''_'' @ ''users'' @ (if True then ''.up.sql'' else ''.down.sql'')) = None"
  using parseMigration_roundtrip [of "''users''" 18446744073709551615 True]
    parseMigration_roundtrip [of "''users''" 18446744073709551616 True] by simp

text \<open>
  The expression is not anchored: any text may follow the extension on the name, so the backup
  copy of a script, with a name such as 1_init.up.sql.bak, counts as a second script of its number.
\<close>

theorem parseMigration_unanchored:
  assumes "0 < n" and "n < 2 ^ 64" and "CHR 0x0A \<notin> set desc"
  shows "\<exists>m. parseMigration (itoa n @ ''_'' @ desc @ ''.up.sql'' @ rest) = Some m \<and> pos m = word_of_nat n"
proof -
  obtain k where "last_kind (''.up.sql'' @ rest) = Some k" using last_kind_found by blast
  from parseMigration_numbered [OF last_kind_append [OF this assms(3)]] assms(1,2) show ?thesis by simp
qed

theorem parseMigration_unanchored_witness:
  "\<exists>m. parseMigration (itoa 1 @ ''_'' @ ''init'' @ ''.up.sql'' @ ''.bak'') = Some m \<and> pos m = word_of_nat 1"
  by (rule parseMigration_unanchored) simp_all

text \<open>
  C31: \<open>NewMigrationsFromFS\<close> succeeds exactly if the up files of the directory are numbered 1 to n, each
  number once, the down files likewise, and all of them can be read; the number of directory entries
  fits an int.
\<close>

theorem NewMigrationsFromFS_accepts:
  assumes "sorter pdq" and "ReadDir fsys subpath = Inr es" and "length es < 2 ^ 63"
  shows "(\<exists>m. NewMigrationsFromFS pdq fsys subpath = Inr m) \<longleftrightarrow>
    complete (filter up (migration_files es)) \<and> complete (filter (\<lambda>m. \<not> up m) (migration_files es))
    \<and> length (filter up (migration_files es)) = length (filter (\<lambda>m. \<not> up m) (migration_files es))
    \<and> (\<forall>f \<in> set (migration_files es). \<exists>content. readString fsys subpath (name f) = Inr content)"
  using file_sorter.accepts [OF _ assms(2,3)] assms(1)
  by (simp add: file_sorter_def pdq_sorter_def)

theorem NewMigrationsFromFS_accepts_witness:
  "\<exists>m. NewMigrationsFromFS insertionSort example_fs ''sql'' = Inr m"
  using NewMigrationsFromFS_accepts [OF insertion.sorter_axioms example_dir] example_readable
  by (simp add: example_files complete_def)

text \<open>
  C32: What \<open>NewMigrationsFromFS\<close> returns: a well-formed set of migrations, in which every up file of
  the directory is the up script at its number minus one, and every down file the down script.
\<close>

theorem NewMigrationsFromFS_scripts:
  assumes "sorter pdq" and "ReadDir fsys subpath = Inr es" and "length es < 2 ^ 63"
    and "NewMigrationsFromFS pdq fsys subpath = Inr m"
  shows "wf_migrations m \<and> length (UpScripts m) = length (filter up (migration_files es))
    \<and> (\<forall>f \<in> set (migration_files es).
         readString fsys subpath (name f) = Inr ((if up f then UpScripts m else DownScripts m) ! (unat (pos f) - 1))
         \<and> unat (pos f) - 1 < length (UpScripts m))"
proof -
  let ?us = "filter up (migration_files es)" and ?ds = "filter (\<lambda>m. \<not> up m) (migration_files es)"
  have fs: "file_sorter pdq" using assms(1) by (simp add: file_sorter_def pdq_sorter_def)
  note acc = file_sorter.accepted [OF fs assms(2,3), THEN iffD1, OF assms(4)]
  have len: "length (UpScripts m) = length ?us" "length (DownScripts m) = length ?ds"
    using acc file_sorter.length_sorted [OF fs] by (metis length_map)+
  have small: "length ?us < 2 ^ 63" "length ?ds < 2 ^ 63"
    using length_migration_files [of es] assms(3) by (meson le_less_trans length_filter_le)+
  have "readString fsys subpath (name f) = Inr ((if up f then UpScripts m else DownScripts m) ! (unat (pos f) - 1))
      \<and> unat (pos f) - 1 < length (UpScripts m)" if "f \<in> set (migration_files es)" for f
  proof (cases "up f")
    case True
    with that acc file_sorter.script_of_file [OF fs _ _ small(1), of fsys subpath "UpScripts m" f]
    show ?thesis by simp
  next
    case False
    with that acc len file_sorter.script_of_file [OF fs _ _ small(2), of fsys subpath "DownScripts m" f]
    show ?thesis by simp
  qed
  then show ?thesis using acc len small unfolding wf_migrations_def by auto
qed

theorem NewMigrationsFromFS_scripts_witness:
  "\<exists>m. NewMigrationsFromFS insertionSort example_fs ''sql'' = Inr m
    \<and> readString example_fs ''sql'' ''01_init.up.sql'' = Inr (UpScripts m ! 0)
    \<and> readString example_fs ''sql'' ''2_more.down.sql'' = Inr (DownScripts m ! 1)"
proof -
  obtain m where m: "NewMigrationsFromFS insertionSort example_fs ''sql'' = Inr m"
    using example_accepted by blast
  from NewMigrationsFromFS_scripts [OF insertion.sorter_axioms example_dir m] m show ?thesis
    by (simp add: example_files)
qed

end
