(* ===== verification/SqlMigration.thy ===== *)
theory SqlMigration
  imports MigrationFiles
begin

text \<open>
  The migration runner of package migration on a \<open>database/sql\<close> handle
  (src/sqlite/migration/migration.go): one transaction around the same steps as in migrationx, with a
  rollback on every error path and a commit at the end. Any statement, the rollback and the commit
  may fail, and the context may be cancelled at any of them.
\<close>

section \<open>Transactions\<close>

text \<open>
  \<open>stored\<close> is the committed database, \<open>work\<close> the database as the transaction sees it while \<open>tx_open\<close>.
  A fault \<open>Fails\<close> fails one operation. \<open>Interrupt\<close> is the cancelled context: the operation fails with
  the context's error, and the pool has (\<open>True\<close>) or has not yet (\<open>False\<close>) rolled the transaction back.
\<close>

record 'u sqldb =
  stored :: "'u database"
  work :: "'u database"
  tx_open :: bool
  calls :: nat

type_synonym 'u tx_action = "'u sqldb \<Rightarrow> go_error option outcome \<times> 'u sqldb"

definition ErrTxDone :: go_error where
  "ErrTxDone = ErrNew ''sql: transaction has already been committed or rolled back''"

definition Canceled :: go_error where
  "Canceled = ErrNew ''context canceled''"

definition tx_call :: "faults \<Rightarrow> ('u sqldb \<Rightarrow> 'u sqldb result) \<Rightarrow> 'u sqldb \<Rightarrow> go_error option \<times> 'u sqldb" where
  "tx_call flt f s =
     (let s1 = s\<lparr>calls := Suc (calls s)\<rparr>
      in if \<not> tx_open s then (Some ErrTxDone, s1)
         else case flt (calls s) of
           Some (Fails e) \<Rightarrow> (Some e, s1)
         | Some (Interrupt rolled_back) \<Rightarrow> (Some Canceled, s1\<lparr>tx_open := \<not> rolled_back\<rparr>)
         | None \<Rightarrow> (case f s1 of Inl e \<Rightarrow> (Some e, s1) | Inr s2 \<Rightarrow> (None, s2)))"

definition BeginTx :: "faults \<Rightarrow> 'u sqldb \<Rightarrow> go_error option \<times> 'u sqldb" where
  "BeginTx flt s =
     (let s1 = s\<lparr>calls := Suc (calls s)\<rparr>
      in case flt (calls s) of
           Some (Fails e) \<Rightarrow> (Some e, s1)
         | Some (Interrupt _) \<Rightarrow> (Some Canceled, s1)
         | None \<Rightarrow> (None, s1\<lparr>work := stored s, tx_open := True\<rparr>))"

definition on_work :: "'u stmt \<Rightarrow> 'u sqldb \<Rightarrow> 'u sqldb result" where
  "on_work f s = map_sum id (\<lambda>d. s\<lparr>work := d\<rparr>) (f (work s))"

text \<open>\<open>ExecContext\<close> runs the statements of a script one by one and stops at the first error.\<close>

fun ExecContext :: "faults \<Rightarrow> 'u stmt list \<Rightarrow> 'u sqldb \<Rightarrow> go_error option \<times> 'u sqldb" where
  "ExecContext flt [] s = (None, s)"
| "ExecContext flt (f # fs) s =
     (case tx_call flt (on_work f) s of
        (Some e, s1) \<Rightarrow> (Some e, s1)
      | (None, s1) \<Rightarrow> ExecContext flt fs s1)"

text \<open>Both end the transaction, whether they succeed or not.\<close>

definition Rollback :: "faults \<Rightarrow> 'u sqldb \<Rightarrow> go_error option \<times> 'u sqldb" where
  "Rollback flt s =
     (case tx_call flt Inr s of (e, s1) \<Rightarrow> (e, s1\<lparr>tx_open := False\<rparr>))"

definition Commit :: "faults \<Rightarrow> 'u sqldb \<Rightarrow> go_error option \<times> 'u sqldb" where
  "Commit flt s =
     (case tx_call flt (\<lambda>s1. Inr (s1\<lparr>stored := work s1\<rparr>)) s of (e, s1) \<Rightarrow> (e, s1\<lparr>tx_open := False\<rparr>))"

section \<open>The version table\<close>

definition ensureVersionSchema :: "faults \<Rightarrow> 'u sqldb \<Rightarrow> go_error option \<times> 'u sqldb" where
  "ensureVersionSchema flt = ExecContext flt VersionSchema"

text \<open>
  \<open>Scan\<close> into a uint64: the driver delivers an int64, and a negative one is an error. No row at all
  is version 0.
\<close>

definition scan_error :: "uint64 \<Rightarrow> go_error" where
  "scan_error v = ErrNew (''sql: Scan error on column index 0, name \"version\": converting driver.Value type int64 (\"''
     @ fmt_int (sint v) @ ''\") to a uint64: invalid syntax'')"

definition dbVersion :: "faults \<Rightarrow> 'u sqldb \<Rightarrow> uint64 result \<times> 'u sqldb" where
  "dbVersion flt s =
     (case tx_call flt (on_work select_version) s of
        (Some e, s1) \<Rightarrow> (Inl e, s1)
      | (None, s1) \<Rightarrow>
          (if sint (first_version (work s1)) < 0 then Inl (scan_error (first_version (work s1)))
           else Inr (first_version (work s1)), s1))"

text \<open>The default parameter converter refuses a uint64 with its high bit set.\<close>

definition setDbVersion :: "faults \<Rightarrow> uint64 \<Rightarrow> 'u sqldb \<Rightarrow> go_error option \<times> 'u sqldb" where
  "setDbVersion flt version s =
     (case ExecContext flt [delete_rows] s of
        (Some e, s1) \<Rightarrow> (Some e, s1)
      | (None, s1) \<Rightarrow>
          if sint version < 0
          then (Some (ErrNew ''sql: converting argument $1 type: uint64 values with high bit set are not supported''), s1)
          else ExecContext flt [insert_row version] s1)"

section \<open>Migrate\<close>

definition NewMigrations :: "string list \<Rightarrow> string list \<Rightarrow> Migrations result" where
  "NewMigrations ups downs = (case Migrationx.NewMigrations ups downs of Inl e \<Rightarrow> Inl e | Inr m \<Rightarrow> Inr m)"

definition NewMigrationsFromFS ::
  "((migration \<Rightarrow> uint64) \<Rightarrow> migration list \<Rightarrow> migration list) \<Rightarrow> file_system \<Rightarrow> string \<Rightarrow> Migrations result" where
  "NewMigrationsFromFS pdq fsys subpath =
     (case MigrationFiles.NewMigrationsFromFS pdq fsys subpath of Inl e \<Rightarrow> Inl e | Inr m \<Rightarrow> Inr m)"

text \<open>Every error path: roll back, and report the error with the one of the rollback.\<close>

definition rollback_with :: "faults \<Rightarrow> go_error \<Rightarrow> 'u tx_action" where
  "rollback_with flt e s =
     (case Rollback flt s of
        (Some e2, s1) \<Rightarrow> (Ret (Some (ErrWrap2 ''migrate failed: '' e '', rollback failed: '' e2)), s1)
      | (None, s1) \<Rightarrow> (Ret (Some (ErrWrap ''migrate failed: '' e)), s1))"

definition checked :: "faults \<Rightarrow> ('u sqldb \<Rightarrow> go_error option \<times> 'u sqldb) \<Rightarrow> 'u tx_action \<Rightarrow> 'u tx_action" where
  "checked flt a b s =
     (case a s of (Some e, s1) \<Rightarrow> rollback_with flt e s1 | (None, s1) \<Rightarrow> b s1)"

definition commit_tx :: "faults \<Rightarrow> 'u tx_action" where
  "commit_tx flt s =
     (case Commit flt s of
        (Some e, s1) \<Rightarrow> (Ret (Some (ErrWrap ''migrate failed: '' e)), s1)
      | (None, s1) \<Rightarrow> (Ret None, s1))"

text \<open>The two loops, with what follows them as the continuation.\<close>

function tx_down ::
  "faults \<Rightarrow> (string \<Rightarrow> 'u stmt list) \<Rightarrow> string list \<Rightarrow> int \<Rightarrow> int \<Rightarrow> 'u tx_action \<Rightarrow> 'u tx_action" where
  "tx_down flt stmts downs i t k =
     (if t \<le> i
      then if 0 \<le> i \<and> i < int (length downs)
           then checked flt (ExecContext flt (stmts (downs ! nat i))) (tx_down flt stmts downs (i - 1) t k)
           else (\<lambda>s. (Panic index_out_of_range, s))
      else k)"
  by pat_completeness auto
termination
  by (relation "measure (\<lambda>(flt, stmts, downs, i, t, k). nat (i - t + 1))") auto

declare tx_down.simps [simp del]

fun tx_up :: "faults \<Rightarrow> (string \<Rightarrow> 'u stmt list) \<Rightarrow> string list \<Rightarrow> 'u tx_action \<Rightarrow> 'u tx_action" where
  "tx_up flt stmts [] k = k"
| "tx_up flt stmts (migration # ms) k =
     checked flt (ExecContext flt (stmts migration)) (tx_up flt stmts ms k)"

definition tx_from ::
  "faults \<Rightarrow> (string \<Rightarrow> 'u stmt list) \<Rightarrow> Migrations \<Rightarrow> uint64 \<Rightarrow> uint64 \<Rightarrow> 'u tx_action" where
  "tx_from flt stmts m target version =
     (if version = target then commit_tx flt
      else if word_of_nat (length (UpScripts m)) < version
      then rollback_with flt (ErrNew (''database version '' @ itoa (unat version)
             @ '' is higher than max migration version '' @ itoa (length (UpScripts m))))
      else let k = checked flt (setDbVersion flt target) (commit_tx flt)
           in if target < version
              then tx_down flt stmts (DownScripts m) (sint (version - 1)) (sint target) k
              else tx_up flt stmts (drop (unat version) (take (unat target) (UpScripts m))) k)"

definition tx_version :: "faults \<Rightarrow> (uint64 \<Rightarrow> 'u tx_action) \<Rightarrow> 'u tx_action" where
  "tx_version flt k s =
     (case dbVersion flt s of
        (Inl e, s1) \<Rightarrow> rollback_with flt e s1
      | (Inr version, s1) \<Rightarrow> k version s1)"

definition Migrate :: "faults \<Rightarrow> (string \<Rightarrow> 'u stmt list) \<Rightarrow> Migrations \<Rightarrow> uint64 \<Rightarrow> 'u tx_action" where
  "Migrate flt stmts m target s =
     (if word_of_nat (length (UpScripts m)) < target
      then (Ret (Some (target_too_high target (length (UpScripts m)))), s)
      else case BeginTx flt s of
        (Some e, s1) \<Rightarrow> (Ret (Some (ErrWrap ''migrate failed: '' e)), s1)
      | (None, s1) \<Rightarrow>
          checked flt (ensureVersionSchema flt) (tx_version flt (tx_from flt stmts m target)) s1)"

definition Up :: "faults \<Rightarrow> (string \<Rightarrow> 'u stmt list) \<Rightarrow> Migrations \<Rightarrow> 'u tx_action" where
  "Up flt stmts m = Migrate flt stmts m (word_of_nat (length (UpScripts m)))"

definition Down :: "faults \<Rightarrow> (string \<Rightarrow> 'u stmt list) \<Rightarrow> Migrations \<Rightarrow> 'u tx_action" where
  "Down flt stmts m = Migrate flt stmts m 0"

section \<open>Steps inside the transaction, and how it ends\<close>

text \<open>
  A step leaves the committed database alone, and when it returns nil it has applied its function. An
  end of the transaction has closed it when it returns, has committed the result of its function
  when it returns nil, and has changed nothing otherwise.
\<close>

locale tx_step =
  fixes a :: "'u sqldb \<Rightarrow> go_error option \<times> 'u sqldb" and f :: "'u stmt"
  assumes step_stored: "a s = (e, s') \<Longrightarrow> stored s' = stored s"
    and step_nil: "a s = (None, s') \<Longrightarrow> f (work s) = Inr (work s')"

locale tx_end =
  fixes k :: "'u tx_action" and g :: "'u stmt"
  assumes end_stored: "k s = (r, s') \<Longrightarrow> r \<noteq> Ret None \<Longrightarrow> stored s' = stored s"
    and end_closed: "k s = (r, s') \<Longrightarrow> \<exists>e. r = Ret e \<and> \<not> tx_open s'"
    and end_nil: "k s = (Ret None, s') \<Longrightarrow> g (work s) = Inr (stored s')"

lemma tx_call_stored:
  assumes "tx_call flt (on_work f) s = (e, s')"
  shows "stored s' = stored s"
  using assms by (auto simp: tx_call_def on_work_def Let_def map_sum_def
      split: if_splits option.splits fault.splits sum.splits)

lemma tx_call_nil:
  "tx_call flt f s = (None, s') \<Longrightarrow> f (s\<lparr>calls := Suc (calls s)\<rparr>) = Inr s' \<and> tx_open s"
  by (auto simp: tx_call_def Let_def split: if_splits option.splits fault.splits sum.splits)

lemma tx_call_work_nil: "tx_call flt (on_work f) s = (None, s') \<Longrightarrow> f (work s) = Inr (work s')"
  by (auto dest!: tx_call_nil simp: on_work_def map_sum_def split: sum.splits)

interpretation ExecContext: tx_step "ExecContext flt fs" "run_stmts fs" for flt fs
proof
  fix s s' :: "'a sqldb" and e
  show "stored s' = stored s" if "ExecContext flt fs s = (e, s')"
    using that
  proof (induction fs arbitrary: s)
    case (Cons f fs)
    then show ?case
      by (cases "tx_call flt (on_work f) s") (auto dest!: tx_call_stored split: option.splits)
  qed simp
  show "run_stmts fs (work s) = Inr (work s')" if "ExecContext flt fs s = (None, s')"
    using that
  proof (induction fs arbitrary: s)
    case (Cons f fs)
    then show ?case
      by (cases "tx_call flt (on_work f) s") (auto dest!: tx_call_work_nil split: option.splits)
  qed simp
qed

interpretation ensureVersionSchema: tx_step "ensureVersionSchema flt" "run_stmts VersionSchema" for flt
  unfolding ensureVersionSchema_def by (rule ExecContext.tx_step_axioms)

interpretation setDbVersion: tx_step "setDbVersion flt v" "run_stmts [delete_rows, insert_row v]" for flt v
proof
  fix s s' :: "'a sqldb" and e
  show "stored s' = stored s" if "setDbVersion flt v s = (e, s')"
    using that ExecContext.step_stored
    by (cases "ExecContext flt [delete_rows] s")
      (fastforce simp: setDbVersion_def simp del: ExecContext.simps split: option.splits if_splits)
  show "run_stmts [delete_rows, insert_row v] (work s) = Inr (work s')" if "setDbVersion flt v s = (None, s')"
  proof -
    obtain e1 s1 where 1: "ExecContext flt [delete_rows] s = (e1, s1)" by fastforce
    then have "e1 = None" and "ExecContext flt [insert_row v] s1 = (None, s')"
      using that by (auto simp: setDbVersion_def simp del: ExecContext.simps split: option.splits if_splits)
    with 1 ExecContext.step_nil [of flt "[delete_rows]" s s1] ExecContext.step_nil [of flt "[insert_row v]" s1 s']
    show ?thesis by (auto split: sum.splits)
  qed
qed

lemma Rollback_closes: "Rollback flt s = (e, s') \<Longrightarrow> stored s' = stored s \<and> \<not> tx_open s'"
  by (auto simp: Rollback_def tx_call_def Let_def split: if_splits option.splits fault.splits)

lemma Commit_closes:
  "Commit flt s = (e, s') \<Longrightarrow> \<not> tx_open s' \<and> stored s' = (if e = None then work s else stored s)"
  by (auto simp: Commit_def tx_call_def Let_def split: if_splits option.splits fault.splits)

lemma tx_end_rollback: "tx_end (rollback_with flt e) g"
  by unfold_locales (auto simp: rollback_with_def split: prod.splits option.splits dest: Rollback_closes)

interpretation commit_tx: tx_end "commit_tx flt" Inr for flt
  by unfold_locales (auto simp: commit_tx_def split: prod.splits option.splits dest: Commit_closes)

lemma tx_end_checked:
  assumes "tx_step a f" and "tx_end k g"
  shows "tx_end (checked flt a k) (seq_db w f g)"
proof
  fix s s' :: "'a sqldb" and r
  obtain e s1 where a: "a s = (e, s1)" by fastforce
  then have st: "stored s1 = stored s" using assms(1) by (metis tx_step.step_stored)
  {
    assume run: "checked flt a k s = (r, s')"
    have "(r \<noteq> Ret None \<longrightarrow> stored s' = stored s1) \<and> (\<exists>e. r = Ret e \<and> \<not> tx_open s')"
    proof (cases e)
      case None
      with a run have "k s1 = (r, s')" by (simp add: checked_def)
      then show ?thesis using assms(2) by (metis tx_end.end_stored tx_end.end_closed)
    next
      case (Some err)
      with a run have "rollback_with flt err s1 = (r, s')" by (simp add: checked_def)
      then show ?thesis using tx_end.end_stored tx_end.end_closed tx_end_rollback by blast
    qed
  }
  then show "checked flt a k s = (r, s') \<Longrightarrow> r \<noteq> Ret None \<Longrightarrow> stored s' = stored s"
    and "checked flt a k s = (r, s') \<Longrightarrow> \<exists>e. r = Ret e \<and> \<not> tx_open s'" using st by auto
next
  fix s s' :: "'a sqldb"
  assume run: "checked flt a k s = (Ret None, s')"
  obtain e s1 where a: "a s = (e, s1)" by fastforce
  then have "e = None"
    using run by (auto simp: checked_def rollback_with_def split: option.splits prod.splits)
  with a run have "a s = (None, s1)" and "k s1 = (Ret None, s')" by (simp_all add: checked_def)
  then show "seq_db w f g (work s) = Inr (stored s')"
    using assms by (simp add: seq_db_def tx_step.step_nil [of a f] tx_end.end_nil [of k g])
qed

lemma tx_end_up:
  assumes "tx_end k g"
  shows "tx_end (tx_up flt stmts ms k) (seq_db id (run_scripts stmts ms) g)"
proof (induction ms)
  case Nil
  have "seq_db id (run_scripts stmts []) g = g" by (rule ext) (simp add: seq_db_def)
  with assms show ?case by (simp only: tx_up.simps)
next
  case (Cons s ss)
  have "seq_db id (run_scripts stmts (s # ss)) g
      = seq_db migrate_failed (run_stmts (stmts s)) (seq_db id (run_scripts stmts ss) g)"
    by (rule ext) (simp add: seq_db_def split: sum.splits)
  then show ?case unfolding tx_up.simps using Cons
    by (simp only: tx_end_checked ExecContext.tx_step_axioms)
qed

lemma tx_end_version:
  assumes "\<And>v. tx_end (k v) (kf v)"
  shows "tx_end (tx_version flt k) (version_db kf)"
proof
  fix s s' :: "'a sqldb" and r
  assume run: "tx_version flt k s = (r, s')"
  obtain e s1 where q: "tx_call flt (on_work select_version) s = (e, s1)" by fastforce
  consider err where "rollback_with flt err s1 = (r, s')" | "k (first_version (work s1)) s1 = (r, s')"
    using run q by (auto simp: tx_version_def dbVersion_def split: option.splits if_splits)
  then have "(r \<noteq> Ret None \<longrightarrow> stored s' = stored s1) \<and> (\<exists>e. r = Ret e \<and> \<not> tx_open s')"
  proof cases
    case 1
    then show ?thesis using tx_end.end_stored tx_end.end_closed tx_end_rollback by blast
  next
    case 2
    then show ?thesis using tx_end.end_stored tx_end.end_closed assms by blast
  qed
  then show "r \<noteq> Ret None \<Longrightarrow> stored s' = stored s" and "\<exists>e. r = Ret e \<and> \<not> tx_open s'"
    using tx_call_stored [OF q] by auto
next
  fix s s' :: "'a sqldb"
  assume "tx_version flt k s = (Ret None, s')"
  then obtain s1 where q: "tx_call flt (on_work select_version) s = (None, s1)"
    and "k (first_version (work s1)) s1 = (Ret None, s')"
    by (auto simp: tx_version_def dbVersion_def rollback_with_def
        split: prod.splits option.splits if_splits sum.splits)
  with assms have "kf (first_version (work s1)) (work s1) = Inr (stored s')" by (metis tx_end.end_nil)
  with tx_call_work_nil [OF q] show "version_db kf (work s) = Inr (stored s')"
    by (simp add: version_db_def seq_db_def)
qed

lemma tx_down_eq:
  assumes "i < int (length downs)" and "-1 \<le> i" and "0 \<le> t"
  shows "tx_down flt stmts downs i t k = tx_up flt stmts (rev (drop (nat t) (take (nat (i + 1)) downs))) k"
  using assms
proof (induction flt stmts downs i t k rule: tx_down.induct)
  case (1 flt stmts downs i t k)
  show ?case
  proof (cases "t \<le> i")
    case True
    have "nat (i + 1) = Suc (nat i)" using True 1 by simp
    moreover have "take (Suc (nat i)) downs = take (nat i) downs @ [downs ! nat i]"
      using True 1 by (intro take_Suc_conv_app_nth) simp
    ultimately show ?thesis using True 1 by (subst tx_down.simps) simp
  next
    case False
    then show ?thesis using 1 by (subst tx_down.simps) simp
  qed
qed

lemma tx_from_eq:
  assumes "wf_migrations m" and "unat target \<le> length (UpScripts m)"
  shows "tx_from flt stmts m target version =
     (if version = target then commit_tx flt
      else if length (UpScripts m) < unat version
      then rollback_with flt (ErrNew (''database version '' @ itoa (unat version)
             @ '' is higher than max migration version '' @ itoa (length (UpScripts m))))
      else tx_up flt stmts (scripts_between m (unat version) (unat target))
             (checked flt (setDbVersion flt target) (commit_tx flt)))"
proof -
  let ?n = "length (UpScripts m)"
  have n: "?n < 2 ^ 63" and len: "length (DownScripts m) = ?n"
    using assms(1) by (simp_all add: wf_migrations_def)
  have "tx_down flt stmts (DownScripts m) (sint (version - 1)) (sint target) k
      = tx_up flt stmts (scripts_between m (unat version) (unat target)) k"
    if "target < version" and "unat version \<le> ?n" for k
    using that sint_index_pred [OF that n] sint_index [OF assms(2) n] len
      tx_down_eq [of "int (unat version) - 1" "DownScripts m" "int (unat target)" flt stmts k]
    by (simp add: scripts_between_def word_less_nat_alt del: of_nat_unat)
  then show ?thesis
    unfolding tx_from_def of_nat_less_word [OF n] Let_def
    by (auto simp: scripts_between_def word_less_nat_alt)
qed

lemma tx_end_from:
  assumes "wf_migrations m" and "unat target \<le> length (UpScripts m)"
  shows "tx_end (tx_from flt stmts m target v) (migrate_from_db stmts m target v)"
  unfolding tx_from_eq [OF assms] migrate_from_db_def set_version_eq
  by (simp add: commit_tx.tx_end_axioms tx_end_rollback tx_end_up tx_end_checked
      setDbVersion.tx_step_axioms del: run_stmts.simps)

lemma tx_end_body:
  assumes "wf_migrations m" and "unat target \<le> length (UpScripts m)"
  shows "tx_end (checked flt (ensureVersionSchema flt) (tx_version flt (tx_from flt stmts m target)))
    (migrate_db stmts m target)"
proof -
  have "migrate_db stmts m target = seq_db migrate_failed (run_stmts VersionSchema)
      (version_db (migrate_from_db stmts m target))"
    using assms(2) by (simp add: migrate_db_eq)
  then show ?thesis
    by (simp only: tx_end_checked ensureVersionSchema.tx_step_axioms tx_end_version tx_end_from [OF assms])
qed

lemma BeginTx_cases:
  "BeginTx flt s = (e, s') \<Longrightarrow> stored s' = stored s \<and> (if e = None then work s' = stored s \<and> tx_open s' else tx_open s' = tx_open s)"
  by (auto simp: BeginTx_def Let_def split: option.splits fault.splits)

lemma Migrate_cases:
  assumes "wf_migrations m" and "Migrate flt stmts m target s = (r, s')"
  shows "(r \<noteq> Ret None \<longrightarrow> stored s' = stored s) \<and> (\<exists>e. r = Ret e)
    \<and> (\<not> tx_open s \<longrightarrow> \<not> tx_open s')
    \<and> (r = Ret None \<longrightarrow> migrate_db stmts m target (stored s) = Inr (stored s') \<and> \<not> tx_open s')"
proof (cases "length (UpScripts m) < unat target")
  case True
  with assms show ?thesis by (auto simp: Migrate_def of_nat_less_word wf_migrations_def)
next
  case False
  obtain e s1 where b: "BeginTx flt s = (e, s1)" by fastforce
  have nlt: "\<not> word_of_nat (length (UpScripts m)) < target"
    using False assms(1) by (simp add: of_nat_less_word wf_migrations_def)
  show ?thesis
  proof (cases e)
    case None
    with assms(2) b nlt
    have "checked flt (ensureVersionSchema flt) (tx_version flt (tx_from flt stmts m target)) s1 = (r, s')"
      by (simp add: Migrate_def)
    note body = tx_end.end_stored [OF tx_end_body this] tx_end.end_closed [OF tx_end_body this]
      tx_end.end_nil [OF tx_end_body]
    from this [OF assms(1)] None BeginTx_cases [OF b] False assms(1) show ?thesis
      using \<open>checked _ _ _ s1 = (r, s')\<close> by (metis leI)
  next
    case (Some err)
    with assms(2) b nlt BeginTx_cases [OF b] show ?thesis by (auto simp: Migrate_def)
  qed
qed

section \<open>Without faults\<close>

definition result_or :: "'a \<Rightarrow> 'a result \<Rightarrow> 'a" where
  "result_or d0 x = (case x of Inl _ \<Rightarrow> d0 | Inr d \<Rightarrow> d)"

lemma result_or_simps [simp]: "result_or d0 (Inl e) = d0" "result_or d0 (Inr d) = d"
  by (simp_all add: result_or_def)

text \<open>The end of a transaction in state \<open>s\<close> reports the error of \<open>g\<close>, or commits its result.\<close>

definition exact_at :: "'u tx_action \<Rightarrow> 'u stmt \<Rightarrow> 'u sqldb \<Rightarrow> bool" where
  "exact_at k g s \<longleftrightarrow> (\<exists>e s'. k s = (Ret e, s') \<and> map_option Error e = map_option Error (err_of (g (work s)))
     \<and> stored s' = result_or (stored s) (g (work s)))"

definition step_exact :: "('u sqldb \<Rightarrow> go_error option \<times> 'u sqldb) \<Rightarrow> 'u stmt \<Rightarrow> bool" where
  "step_exact a f \<longleftrightarrow> (\<forall>s. tx_open s \<longrightarrow> (\<exists>s'. a s = (err_of (f (work s)), s') \<and> tx_open s'
     \<and> stored s' = stored s \<and> (\<forall>d. f (work s) = Inr d \<longrightarrow> work s' = d)))"

lemma tx_call_no_faults:
  "tx_open s \<Longrightarrow> tx_call no_faults f s =
     (case f (s\<lparr>calls := Suc (calls s)\<rparr>) of Inl e \<Rightarrow> (Some e, s\<lparr>calls := Suc (calls s)\<rparr>) | Inr s2 \<Rightarrow> (None, s2))"
  by (simp add: tx_call_def Let_def)

lemma step_exact_ExecContext: "step_exact (ExecContext no_faults fs) (run_stmts fs)"
  unfolding step_exact_def
proof (intro allI impI)
  fix s :: "'a sqldb"
  assume "tx_open s"
  then show "\<exists>s'. ExecContext no_faults fs s = (err_of (run_stmts fs (work s)), s') \<and> tx_open s'
     \<and> stored s' = stored s \<and> (\<forall>d. run_stmts fs (work s) = Inr d \<longrightarrow> work s' = d)"
  proof (induction fs arbitrary: s)
    case (Cons f fs)
    show ?case
    proof (cases "f (work s)")
      case (Inl e)
      with Cons.prems show ?thesis by (simp add: tx_call_no_faults on_work_def)
    next
      case (Inr d)
      with Cons.prems Cons.IH [of "s\<lparr>calls := Suc (calls s), work := d\<rparr>"] show ?thesis
        by (simp add: tx_call_no_faults on_work_def)
    qed
  qed simp
qed

lemma sql_setDbVersion_script:
  "0 \<le> sint v \<Longrightarrow> setDbVersion flt v = ExecContext flt [delete_rows, insert_row v]"
  by (rule ext) (auto simp: setDbVersion_def split: prod.splits option.splits)

lemma exact_rollback:
  "tx_open s \<Longrightarrow> g (work s) = Inl e' \<Longrightarrow> Error e' = Error (migrate_failed e) \<Longrightarrow>
     exact_at (rollback_with no_faults e) g s"
  by (simp add: exact_at_def rollback_with_def Rollback_def tx_call_no_faults migrate_failed_def)

lemma exact_commit: "tx_open s \<Longrightarrow> exact_at (commit_tx no_faults) Inr s"
  by (simp add: exact_at_def commit_tx_def Commit_def tx_call_no_faults)

lemma exact_checked:
  assumes "step_exact a f" and "tx_open s"
    and "\<And>s'. tx_open s' \<Longrightarrow> stored s' = stored s \<Longrightarrow> f (work s) = Inr (work s') \<Longrightarrow> exact_at k g s'"
  shows "exact_at (checked no_faults a k) (seq_db migrate_failed f g) s"
proof -
  from assms(1,2) obtain s1 where a: "a s = (err_of (f (work s)), s1)" "tx_open s1" "stored s1 = stored s"
    "\<forall>d. f (work s) = Inr d \<longrightarrow> work s1 = d" unfolding step_exact_def by blast
  show ?thesis
  proof (cases "f (work s)")
    case (Inl e)
    with a show ?thesis
      by (simp add: exact_at_def checked_def seq_db_def rollback_with_def Rollback_def
          tx_call_no_faults migrate_failed_def)
  next
    case (Inr d)
    with a assms(3) [of s1] show ?thesis by (simp add: exact_at_def checked_def seq_db_def)
  qed
qed

lemma exact_up:
  assumes "\<And>s'. tx_open s' \<Longrightarrow> exact_at k g s'" and "tx_open s"
  shows "exact_at (tx_up no_faults stmts ms k) (seq_db id (run_scripts stmts ms) g) s"
  using assms(2)
proof (induction ms arbitrary: s)
  case Nil
  then show ?case using assms(1) by (simp add: exact_at_def seq_db_def)
next
  case (Cons x xs)
  have "seq_db id (run_scripts stmts (x # xs)) g
      = seq_db migrate_failed (run_stmts (stmts x)) (seq_db id (run_scripts stmts xs) g)"
    by (rule ext) (simp add: seq_db_def split: sum.splits)
  with Cons show ?case
    unfolding tx_up.simps by (simp only: exact_checked step_exact_ExecContext)
qed

lemma exact_from:
  assumes "wf_migrations m" and "unat target \<le> length (UpScripts m)" and "tx_open s"
  shows "exact_at (tx_from no_faults stmts m target v) (migrate_from_db stmts m target v) s"
proof -
  have nn: "0 \<le> sint target"
    using sint_index [OF assms(2)] assms(1) by (simp add: wf_migrations_def)
  have set: "exact_at (checked no_faults (setDbVersion no_faults target) (commit_tx no_faults)) (set_version target) s'"
    if "tx_open s'" for s'
    unfolding set_version_eq sql_setDbVersion_script [OF nn]
    using step_exact_ExecContext that exact_commit by (rule exact_checked)
  show ?thesis
  proof (cases "v = target \<or> length (UpScripts m) < unat v")
    case True
    then show ?thesis
      unfolding tx_from_eq [OF assms(1,2)] migrate_from_db_def
      using assms(3) by (auto intro!: exact_commit exact_rollback simp: version_too_high_def migrate_failed_def)
  next
    case False
    then show ?thesis
      unfolding tx_from_eq [OF assms(1,2)] migrate_from_db_def
      using exact_up [OF set assms(3)] by simp
  qed
qed

lemma exact_version:
  assumes "tx_open s" and "unat (first_version (work s)) < 2 ^ 63"
    and "\<And>s' v. tx_open s' \<Longrightarrow> exact_at (k v) (kf v) s'"
  shows "exact_at (tx_version no_faults k) (version_db kf) s"
proof (cases "select_version (work s)")
  case (Inl e)
  with assms(1) show ?thesis
    by (simp add: exact_at_def tx_version_def dbVersion_def tx_call_no_faults on_work_def version_db_def
        seq_db_def rollback_with_def Rollback_def migrate_failed_def)
next
  case (Inr d)
  then have d: "d = work s" by (auto simp: select_version_def split: option.splits)
  let ?s = "s\<lparr>calls := Suc (calls s)\<rparr>"
  have "0 \<le> sint (first_version (work s))"
    using sint_index [OF order_refl assms(2)] by simp
  then have "tx_version no_faults k s = k (first_version (work s)) (?s\<lparr>work := work s\<rparr>)"
    using Inr d assms(1) by (simp add: tx_version_def dbVersion_def tx_call_no_faults on_work_def)
  then show ?thesis
    using assms(3) [of "?s\<lparr>work := work s\<rparr>" "first_version (work s)"] assms(1) Inr d
    by (simp add: exact_at_def version_db_def seq_db_def)
qed

lemma sql_Migrate_exact:
  assumes "wf_migrations m" and "unat (first_version (stored s)) < 2 ^ 63"
  shows "\<exists>e s'. Migrate no_faults stmts m target s = (Ret e, s')
    \<and> map_option Error e = map_option Error (err_of (migrate_db stmts m target (stored s)))
    \<and> stored s' = result_or (stored s) (migrate_db stmts m target (stored s))"
proof (cases "length (UpScripts m) < unat target")
  case True
  with assms show ?thesis by (simp add: Migrate_def migrate_db_def of_nat_less_word wf_migrations_def)
next
  case False
  let ?s = "s\<lparr>calls := Suc (calls s), work := stored s, tx_open := True\<rparr>"
  have "exact_at (checked no_faults (ensureVersionSchema no_faults)
      (tx_version no_faults (tx_from no_faults stmts m target)))
    (seq_db migrate_failed (run_stmts VersionSchema) (version_db (migrate_from_db stmts m target))) ?s"
    unfolding ensureVersionSchema_def
  proof (rule exact_checked [OF step_exact_ExecContext])
    fix s' :: "'a sqldb"
    assume "tx_open s'" and "run_stmts VersionSchema (work ?s) = Inr (work s')"
    then show "exact_at (tx_version no_faults (tx_from no_faults stmts m target))
        (version_db (migrate_from_db stmts m target)) s'"
      using run_stmts_VersionSchema [of "stored s" "work s'"] assms False
      by (intro exact_version exact_from) simp_all
  qed simp
  then have "exact_at (checked no_faults (ensureVersionSchema no_faults)
      (tx_version no_faults (tx_from no_faults stmts m target))) (migrate_db stmts m target) ?s"
    using False by (simp add: migrate_db_eq)
  then show ?thesis
    using False assms(1) by (simp add: exact_at_def Migrate_def BeginTx_def of_nat_less_word wf_migrations_def Let_def)
qed

section \<open>Properties\<close>

definition fresh_db :: "nat list sqldb" where
  "fresh_db = \<lparr>stored = \<lparr>user = [], schema_migrations = None\<rparr>,
     work = \<lparr>user = [], schema_migrations = None\<rparr>, tx_open = False, calls = 0\<rparr>"

text \<open>The context is cancelled, and the transaction rolled back, at the second script.\<close>

definition cancelled :: faults where
  "cancelled k = (if k = 5 then Some (Interrupt True) else None)"

text \<open>
  C6: The runner on database/sql is all or nothing for every pattern of failing statements, failing
  rollbacks and commits and cancelled contexts: it never panics on well-formed migrations, an error
  leaves the committed database as it was, nil means that exactly the scripts between the version
  found and the target version are committed, and in every case the transaction is closed.
\<close>

theorem sql_Migrate_all_or_nothing:
  assumes "wf_migrations m" and "\<not> tx_open s" and "Migrate flt stmts m target s = (r, s')"
  shows "(\<exists>e. r = Ret e) \<and> \<not> tx_open s'
    \<and> (if r = Ret None then migrate_db stmts m target (stored s) = Inr (stored s') \<and> first_version (stored s') = target
       else stored s' = stored s)"
  using Migrate_cases [OF assms(1,3)] assms(2) migrate_db_version [of stmts m target "stored s" "stored s'"] by auto

theorem sql_Migrate_all_or_nothing_witness:
  "let (r, s') = Migrate cancelled (user_scripts example_scripts) example_migrations 2 fresh_db
   in r = Ret (Some (ErrWrap2 ''migrate failed: '' Canceled '', rollback failed: '' ErrTxDone))
      \<and> stored s' = stored fresh_db"
proof -
  let ?run = "Migrate cancelled (user_scripts example_scripts) example_migrations 2 fresh_db"
  have r: "fst ?run = Ret (Some (ErrWrap2 ''migrate failed: '' Canceled '', rollback failed: '' ErrTxDone))"
    by code_simp
  have "wf_migrations example_migrations" by (simp add: wf_migrations_def example_migrations_def)
  moreover have "\<not> tx_open fresh_db" by (simp add: fresh_db_def)
  ultimately have "stored (snd ?run) = stored fresh_db"
    using sql_Migrate_all_or_nothing [OF _ _ prod.collapse [symmetric], of example_migrations fresh_db cancelled
        "user_scripts example_scripts" 2] r by simp
  with r show ?thesis by (simp add: case_prod_unfold Let_def)
qed



end
