(* ===== verification/Goroutines.thy ===== *)
theory Goroutines
  imports GoPrelude
begin

text \<open>
  What the packages promise of the goroutines they start: an invariant of the steps, and that a goroutine which has
  been told to stop can always reach its end; and what a wrapper promises to the goroutines that use it. The step
  relations of the connection manager, the certificate reloader, the servers, the metrics pusher, the example
  job and the monitored client stream are interpreted.
\<close>

locale kept =
  fixes step :: "'s \<Rightarrow> 's \<Rightarrow> bool" and inv :: "'s \<Rightarrow> bool"
  assumes kept_step: "inv s \<Longrightarrow> step s s' \<Longrightarrow> inv s'"
begin

lemma kept_steps: "step\<^sup>*\<^sup>* s s' \<Longrightarrow> inv s \<Longrightarrow> inv s'"
  by (induction rule: rtranclp_induct) (auto intro: kept_step)

end

text \<open>
  While it winds down, a goroutine that has not finished has a step that brings it closer to its end and leaves what
  is observed as it is; other goroutines may run in between.
\<close>

locale draining = kept step winding for step :: "'s \<Rightarrow> 's \<Rightarrow> bool" and winding :: "'s \<Rightarrow> bool" +
  fixes finished :: "'s \<Rightarrow> bool" and observed :: "'s \<Rightarrow> 'o" and work :: "'s \<Rightarrow> nat"
  assumes advances: "winding s \<Longrightarrow> \<not> finished s \<Longrightarrow> \<exists>s'. step s s' \<and> observed s' = observed s \<and> work s' < work s"
begin

lemma drains: "winding s \<Longrightarrow> \<exists>s'. step\<^sup>*\<^sup>* s s' \<and> finished s' \<and> observed s' = observed s"
proof (induction "work s" arbitrary: s rule: less_induct)
  case less
  show ?case
  proof (cases "finished s")
    case False
    then obtain s1 where s1: "step s s1" "observed s1 = observed s" "work s1 < work s"
      using advances less.prems by blast
    then obtain s2 where "step\<^sup>*\<^sup>* s1 s2" "finished s2" "observed s2 = observed s1"
      using less.hyps kept_step less.prems by blast
    then show ?thesis using s1 by (metis converse_rtranclp_into_rtranclp)
  qed auto
qed

lemma always_drains: "winding s \<Longrightarrow> step\<^sup>*\<^sup>* s s' \<Longrightarrow> \<exists>s''. step\<^sup>*\<^sup>* s' s'' \<and> finished s''"
  using drains kept_steps by blast

end

text \<open>
  Goroutines that work on something wrapped do exactly what they do on the thing itself: each of their steps is matched
  by steps without the wrapper, and each step without it can be made with it.
\<close>

locale bisimilar = kept step inv for step :: "'s \<Rightarrow> 's \<Rightarrow> bool" and inv :: "'s \<Rightarrow> bool" +
  fixes plain :: "'a \<Rightarrow> 'a \<Rightarrow> bool" and abs :: "'s \<Rightarrow> 'a"
  assumes forward: "inv s \<Longrightarrow> step s s' \<Longrightarrow> plain\<^sup>*\<^sup>* (abs s) (abs s')"
    and backward: "inv s \<Longrightarrow> plain (abs s) t \<Longrightarrow> \<exists>s'. step\<^sup>*\<^sup>* s s' \<and> abs s' = t"
begin

lemma forward_steps: "step\<^sup>*\<^sup>* s s' \<Longrightarrow> inv s \<Longrightarrow> plain\<^sup>*\<^sup>* (abs s) (abs s')"
proof (induction rule: rtranclp_induct)
  case (step s1 s2)
  then have "inv s1" using kept_steps by blast
  with step forward show ?case by (meson rtranclp_trans)
qed simp

lemma backward_steps: "plain\<^sup>*\<^sup>* a t \<Longrightarrow> a = abs s \<Longrightarrow> inv s \<Longrightarrow> \<exists>s'. step\<^sup>*\<^sup>* s s' \<and> abs s' = t"
proof (induction rule: rtranclp_induct)
  case (step t1 t2)
  then obtain s1 where s1: "step\<^sup>*\<^sup>* s s1" "abs s1 = t1" by blast
  then have "inv s1" using kept_steps step.prems(2) by blast
  with s1(2) step.hyps(2) obtain s2 where "step\<^sup>*\<^sup>* s1 s2" "abs s2 = t2" using backward by blast
  then show ?case using rtranclp_trans [OF s1(1)] by blast
qed auto

end

end
