(* ===== verification/ConnManager.thy ===== *)
theory ConnManager
  imports Goroutines
begin

text \<open>
  The cache of client connections of package fxgrpc (src/fxgrpc/conn_manager.go), shared by any number
  of goroutines: \<open>Get\<close> looks an address up under the read lock and falls back to \<open>createConnection\<close>,
  which takes the write lock and looks again; \<open>Stop\<close> closes every connection under the write lock.
  First the three functions as they run alone, then a step relation in which goroutines interleave
  at every lock operation and at every access to the map.
\<close>

section \<open>The functions, run alone\<close>

text \<open>
  A connection is the number of the call of \<open>grpc.NewClient\<close> that made it; \<open>newClient\<close> says which calls
  fail and \<open>closeErr\<close> which connections fail to close.
\<close>

record manager =
  idx :: "string \<rightharpoonup> nat"
  calls :: nat
  closed :: "nat set"

record grpc_env =
  newClient :: "string \<Rightarrow> nat \<Rightarrow> go_error option"
  closeErr :: "nat \<Rightarrow> go_error option"

definition NewConnManager :: manager where
  "NewConnManager = \<lparr>idx = Map.empty, calls = 0, closed = {}\<rparr>"

definition create_failed :: "go_error \<Rightarrow> go_error" where
  "create_failed e = ErrWrap ''clientManager: createConnection: '' e"

definition createConnection :: "grpc_env \<Rightarrow> string \<Rightarrow> manager \<Rightarrow> nat result \<times> manager" where
  "createConnection env address m =
     (case idx m address of
        Some conn \<Rightarrow> (Inr conn, m)
      | None \<Rightarrow>
          let conn = calls m; m1 = m\<lparr>calls := Suc (calls m)\<rparr>
          in case newClient env address conn of
               Some e \<Rightarrow> (Inl (create_failed e), m1)
             | None \<Rightarrow> (Inr conn, m1\<lparr>idx := (idx m)(address \<mapsto> conn)\<rparr>))"

definition Get :: "grpc_env \<Rightarrow> string \<Rightarrow> manager \<Rightarrow> nat result \<times> manager" where
  "Get env address m =
     (case idx m address of None \<Rightarrow> createConnection env address m | Some conn \<Rightarrow> (Inr conn, m))"

text \<open>\<open>errors.Join(errs, err)\<close> where \<open>errs\<close> may still be nil.\<close>

definition errors_Join :: "go_error option \<Rightarrow> go_error \<Rightarrow> go_error option" where
  "errors_Join errs e = Some (case errs of None \<Rightarrow> ErrWrap [] e | Some es \<Rightarrow> ErrJoin es e)"

fun close_all :: "grpc_env \<Rightarrow> nat list \<Rightarrow> go_error option \<Rightarrow> manager \<Rightarrow> go_error option \<times> manager" where
  "close_all env [] errs m = (errs, m)"
| "close_all env (c # cs) errs m =
     close_all env cs
       (case closeErr env c of None \<Rightarrow> errs | Some e \<Rightarrow> errors_Join errs e)
       (m\<lparr>closed := insert c (closed m)\<rparr>)"

text \<open>The map is visited in any order, given here as the list of its connections.\<close>

definition Stop :: "grpc_env \<Rightarrow> nat list \<Rightarrow> manager \<Rightarrow> go_error option \<times> manager" where
  "Stop env order m = close_all env order None m"

section \<open>Interleaved goroutines\<close>

text \<open>Where a goroutine is in a call; the lock it holds there is given below.\<close>

datatype pc =
    Idle
  | GetCalled string
  | GetLocked string
  | GetRead string "nat option"
  | GetUnlocked string "nat option"
  | CreateCalled string
  | CreateLocked string
  | CreateMissing string
  | CreateMade string nat
  | CreateReturning string "nat result"
  | GetReturned string "nat result"
  | StopCalled
  | StopLocked "nat list" "go_error option"
  | StopReturning "go_error option"
  | StopReturned "go_error option"

fun holds_read :: "pc \<Rightarrow> bool" where
  "holds_read (GetLocked _) \<longleftrightarrow> True"
| "holds_read (GetRead _ _) \<longleftrightarrow> True"
| "holds_read _ \<longleftrightarrow> False"

fun holds_write :: "pc \<Rightarrow> bool" where
  "holds_write (CreateLocked _) \<longleftrightarrow> True"
| "holds_write (CreateMissing _) \<longleftrightarrow> True"
| "holds_write (CreateMade _ _) \<longleftrightarrow> True"
| "holds_write (CreateReturning _ _) \<longleftrightarrow> True"
| "holds_write (StopLocked _ _) \<longleftrightarrow> True"
| "holds_write (StopReturning _) \<longleftrightarrow> True"
| "holds_write _ \<longleftrightarrow> False"

text \<open>The shared state: the manager, the lock, the goroutines and a log of the connections made.\<close>

record system =
  mgr :: manager
  readers :: "nat set"
  writer :: "nat option"
  pcs :: "nat \<Rightarrow> pc"
  made :: "(nat \<times> string) set"

definition goto :: "nat \<Rightarrow> pc \<Rightarrow> system \<Rightarrow> system" where
  "goto t p s = s\<lparr>pcs := (pcs s)(t := p)\<rparr>"

definition initial :: system where
  "initial = \<lparr>mgr = NewConnManager, readers = {}, writer = None, pcs = (\<lambda>_. Idle), made = {}\<rparr>"

inductive step :: "grpc_env \<Rightarrow> system \<Rightarrow> system \<Rightarrow> bool" for env :: grpc_env where
  call_Get: "pcs s t \<in> {Idle, GetReturned a r, StopReturned e} \<Longrightarrow> step env s (goto t (GetCalled address) s)"
| RLock: "pcs s t = GetCalled a \<Longrightarrow> writer s = None \<Longrightarrow>
    step env s (goto t (GetLocked a) (s\<lparr>readers := insert t (readers s)\<rparr>))"
| lookup: "pcs s t = GetLocked a \<Longrightarrow> step env s (goto t (GetRead a (idx (mgr s) a)) s)"
| RUnlock: "pcs s t = GetRead a x \<Longrightarrow>
    step env s (goto t (GetUnlocked a x) (s\<lparr>readers := readers s - {t}\<rparr>))"
| found: "pcs s t = GetUnlocked a (Some c) \<Longrightarrow> step env s (goto t (GetReturned a (Inr c)) s)"
| not_found: "pcs s t = GetUnlocked a None \<Longrightarrow> step env s (goto t (CreateCalled a) s)"
| Lock: "pcs s t = CreateCalled a \<Longrightarrow> writer s = None \<Longrightarrow> readers s = {} \<Longrightarrow>
    step env s (goto t (CreateLocked a) (s\<lparr>writer := Some t\<rparr>))"
| check_found: "pcs s t = CreateLocked a \<Longrightarrow> idx (mgr s) a = Some c \<Longrightarrow>
    step env s (goto t (CreateReturning a (Inr c)) s)"
| check_missing: "pcs s t = CreateLocked a \<Longrightarrow> idx (mgr s) a = None \<Longrightarrow> step env s (goto t (CreateMissing a) s)"
| NewClient_fails: "pcs s t = CreateMissing a \<Longrightarrow> newClient env a (calls (mgr s)) = Some e \<Longrightarrow>
    step env s (goto t (CreateReturning a (Inl (create_failed e)))
      (s\<lparr>mgr := (mgr s)\<lparr>calls := Suc (calls (mgr s))\<rparr>\<rparr>))"
| NewClient: "pcs s t = CreateMissing a \<Longrightarrow> newClient env a (calls (mgr s)) = None \<Longrightarrow>
    step env s (goto t (CreateMade a (calls (mgr s)))
      (s\<lparr>mgr := (mgr s)\<lparr>calls := Suc (calls (mgr s))\<rparr>, made := insert (calls (mgr s), a) (made s)\<rparr>))"
| store: "pcs s t = CreateMade a c \<Longrightarrow>
    step env s (goto t (CreateReturning a (Inr c)) (s\<lparr>mgr := (mgr s)\<lparr>idx := (idx (mgr s))(a \<mapsto> c)\<rparr>\<rparr>))"
| Unlock: "pcs s t = CreateReturning a r \<Longrightarrow> step env s (goto t (GetReturned a r) (s\<lparr>writer := None\<rparr>))"
| call_Stop: "pcs s t \<in> {Idle, GetReturned a r, StopReturned e} \<Longrightarrow> step env s (goto t StopCalled s)"
| Stop_Lock: "pcs s t = StopCalled \<Longrightarrow> writer s = None \<Longrightarrow> readers s = {} \<Longrightarrow>
    distinct order \<Longrightarrow> set order = ran (idx (mgr s)) \<Longrightarrow>
    step env s (goto t (StopLocked order None) (s\<lparr>writer := Some t\<rparr>))"
| Stop_close: "pcs s t = StopLocked (c # cs) errs \<Longrightarrow>
    step env s (goto t (StopLocked cs (case closeErr env c of None \<Rightarrow> errs | Some e \<Rightarrow> errors_Join errs e))
      (s\<lparr>mgr := (mgr s)\<lparr>closed := insert c (closed (mgr s))\<rparr>\<rparr>))"
| Stop_return: "pcs s t = StopLocked [] errs \<Longrightarrow> step env s (goto t (StopReturning errs) s)"
| Stop_Unlock: "pcs s t = StopReturning errs \<Longrightarrow> step env s (goto t (StopReturned errs) (s\<lparr>writer := None\<rparr>))"

definition reachable :: "grpc_env \<Rightarrow> system \<Rightarrow> bool" where
  "reachable env s \<longleftrightarrow> (step env)\<^sup>*\<^sup>* initial s"

section \<open>Invariants\<close>

text \<open>The lock: its holders are where the code holds it, and a writer is alone.\<close>

definition lock_inv :: "system \<Rightarrow> bool" where
  "lock_inv s \<longleftrightarrow> (\<forall>t. t \<in> readers s \<longleftrightarrow> holds_read (pcs s t))
     \<and> (\<forall>t. writer s = Some t \<longleftrightarrow> holds_write (pcs s t))
     \<and> (writer s \<noteq> None \<longrightarrow> readers s = {})"

lemma lock_inv_writer: "lock_inv s \<Longrightarrow> holds_write (pcs s t) \<Longrightarrow> holds_write (pcs s t') \<Longrightarrow> t' = t"
  unfolding lock_inv_def by (metis option.inject)

lemma step_lock_inv:
  assumes "step env s s'" and "lock_inv s"
  shows "lock_inv s'"
  using assms
  by (induction rule: step.induct)
    (auto simp: lock_inv_def goto_def, (metis holds_write.simps option.inject)+)

text \<open>What a goroutine knows at each point.\<close>

fun pc_inv :: "manager \<Rightarrow> (nat \<times> string) set \<Rightarrow> pc \<Rightarrow> bool" where
  "pc_inv m mk (GetRead a (Some c)) \<longleftrightarrow> idx m a = Some c"
| "pc_inv m mk (GetUnlocked a (Some c)) \<longleftrightarrow> idx m a = Some c"
| "pc_inv m mk (CreateMissing a) \<longleftrightarrow> idx m a = None"
| "pc_inv m mk (CreateMade a c) \<longleftrightarrow> idx m a = None \<and> (c, a) \<in> mk"
| "pc_inv m mk (CreateReturning a (Inr c)) \<longleftrightarrow> idx m a = Some c"
| "pc_inv m mk (GetReturned a (Inr c)) \<longleftrightarrow> idx m a = Some c"
| "pc_inv m mk (StopLocked cs errs) \<longleftrightarrow> ran (idx m) \<subseteq> closed m \<union> set cs"
| "pc_inv m mk (StopReturning errs) \<longleftrightarrow> ran (idx m) \<subseteq> closed m"
| "pc_inv m mk _ \<longleftrightarrow> True"

definition conn_inv :: "system \<Rightarrow> bool" where
  "conn_inv s \<longleftrightarrow> lock_inv s \<and> (\<forall>t. pc_inv (mgr s) (made s) (pcs s t))
     \<and> finite (dom (idx (mgr s)))
     \<and> (\<forall>c a. (c, a) \<in> made s \<longrightarrow> c < calls (mgr s))
     \<and> (\<forall>a c. idx (mgr s) a = Some c \<longrightarrow> (c, a) \<in> made s)
     \<and> (\<forall>c a. (c, a) \<in> made s \<longrightarrow> idx (mgr s) a = Some c \<or> (\<exists>t. pcs s t = CreateMade a c))
     \<and> (\<forall>c a b. (c, a) \<in> made s \<and> (c, b) \<in> made s \<longrightarrow> a = b)"

lemma goto_simps [simp]:
  "mgr (goto t p s) = mgr s" "made (goto t p s) = made s" "pcs (goto t p s) = (pcs s)(t := p)"
  by (simp_all add: goto_def)

text \<open>A goroutine that does not hold the write lock only relies on entries that are present.\<close>

lemma pc_inv_mono:
  assumes "pc_inv m mk p" and "\<not> holds_write p" and "\<And>a c. idx m a = Some c \<Longrightarrow> idx m' a = Some c"
  shows "pc_inv m' mk' p"
proof (cases p)
  case (GetRead a x)
  with assms show ?thesis by (cases x) auto
next
  case (GetUnlocked a x)
  with assms show ?thesis by (cases x) auto
next
  case (GetReturned a x)
  with assms show ?thesis by (cases x) auto
qed (use assms in auto)

lemma conn_inv_frame:
  assumes "conn_inv s" and "lock_inv s'" and "mgr s' = mgr s" and "made s' = made s"
    and "pcs s' = (pcs s)(t := p)" and "pc_inv (mgr s) (made s) p" and "\<And>a c. pcs s t \<noteq> CreateMade a c"
  shows "conn_inv s'"
  using assms unfolding conn_inv_def by (auto simp: fun_upd_def) metis

lemma others_not_writing:
  "lock_inv s \<Longrightarrow> holds_write (pcs s t) \<Longrightarrow> t' \<noteq> t \<Longrightarrow> \<not> holds_write (pcs s t')"
  using lock_inv_writer by blast

text \<open>A step of the goroutine that holds the write lock and changes the manager.\<close>

lemma conn_inv_write:
  assumes "conn_inv s" and "lock_inv s'" and "holds_write (pcs s t)"
    and "pcs s' = (pcs s)(t := p)" and "pc_inv (mgr s') (made s') p"
    and "\<And>a c. idx (mgr s) a = Some c \<Longrightarrow> idx (mgr s') a = Some c"
    and "finite (dom (idx (mgr s')))"
    and "\<forall>c a. (c, a) \<in> made s' \<longrightarrow> c < calls (mgr s')"
    and "\<forall>a c. idx (mgr s') a = Some c \<longrightarrow> (c, a) \<in> made s'"
    and "\<forall>c a. (c, a) \<in> made s' \<longrightarrow> idx (mgr s') a = Some c \<or> (\<exists>t. pcs s' t = CreateMade a c)"
    and "\<forall>c a b. (c, a) \<in> made s' \<and> (c, b) \<in> made s' \<longrightarrow> a = b"
  shows "conn_inv s'"
proof -
  have "pc_inv (mgr s') (made s') (pcs s' t')" for t'
  proof (cases "t' = t")
    case True
    then show ?thesis using assms(4,5) by simp
  next
    case False
    have "lock_inv s" and "pc_inv (mgr s) (made s) (pcs s t')" using assms(1) by (simp_all add: conn_inv_def)
    then have "pc_inv (mgr s') (made s') (pcs s t')"
      using others_not_writing [OF _ assms(3) False] assms(6) by (blast intro: pc_inv_mono)
    then show ?thesis using False assms(4) by simp
  qed
  then show ?thesis using assms(2,7-) unfolding conn_inv_def by blast
qed

lemma conn_inv_made:
  assumes "conn_inv s" and "holds_write (pcs s t)" and "(c, a) \<in> made s"
  shows "idx (mgr s) a = Some c \<or> pcs s t = CreateMade a c"
proof (rule disjCI)
  assume "pcs s t \<noteq> CreateMade a c"
  moreover have "t' = t" if "pcs s t' = CreateMade a c" for t'
    using assms(1,2) that by (intro lock_inv_writer [of s t t']) (simp_all add: conn_inv_def)
  ultimately show "idx (mgr s) a = Some c"
    using assms(1,3) unfolding conn_inv_def by blast
qed

lemma step_NewClient_inv:
  assumes "conn_inv s" and "pcs s t = CreateMissing a" and "lock_inv s'"
    and s': "s' = goto t (CreateMade a (calls (mgr s))) (s\<lparr>mgr := (mgr s)\<lparr>calls := Suc (calls (mgr s))\<rparr>,
      made := insert (calls (mgr s), a) (made s)\<rparr>)"
  shows "conn_inv s'"
proof -
  have fresh: "c < calls (mgr s)" if "(c, b) \<in> made s" for c b
    using assms(1) that by (auto simp: conn_inv_def)
  have uniq: "b = b'" if "(c, b) \<in> made s" and "(c, b') \<in> made s" for c b b'
    using assms(1) that unfolding conn_inv_def by blast
  have idx: "idx (mgr s) b = Some c" if "(c, b) \<in> made s" for c b
    using conn_inv_made [OF assms(1) _ that, of t] assms(2) by simp
  have "pc_inv (mgr s) (made s) (pcs s t)" using assms(1) by (simp add: conn_inv_def)
  with assms(2) have none: "idx (mgr s) a = None" by simp
  show ?thesis
  proof (rule conn_inv_write [OF assms(1,3), of t "CreateMade a (calls (mgr s))"])
    show "\<forall>c b b'. (c, b) \<in> made s' \<and> (c, b') \<in> made s' \<longrightarrow> b = b'"
      using s' by (auto dest: fresh uniq)
    show "\<forall>c b. (c, b) \<in> made s' \<longrightarrow> idx (mgr s') b = Some c \<or> (\<exists>t. pcs s' t = CreateMade b c)"
      using idx s' by auto
  qed (use assms(1,2) fresh none s' in \<open>auto simp: conn_inv_def less_SucI\<close>)
qed

lemma step_store_inv:
  assumes "conn_inv s" and "pcs s t = CreateMade a c" and "lock_inv s'"
    and s': "s' = goto t (CreateReturning a (Inr c)) (s\<lparr>mgr := (mgr s)\<lparr>idx := (idx (mgr s))(a \<mapsto> c)\<rparr>\<rparr>)"
  shows "conn_inv s'"
proof -
  have "pc_inv (mgr s) (made s) (pcs s t)" using assms(1) by (simp add: conn_inv_def)
  with assms(2) have none: "idx (mgr s) a = None" "(c, a) \<in> made s" by simp_all
  have idx: "idx (mgr s') b = Some d" if "(d, b) \<in> made s" for d b
    using conn_inv_made [OF assms(1) _ that, of t] assms(2) none s' by auto
  show ?thesis
  proof (rule conn_inv_write [OF assms(1,3), of t "CreateReturning a (Inr c)"])
    show "\<forall>d b b'. (d, b) \<in> made s' \<and> (d, b') \<in> made s' \<longrightarrow> b = b'"
      using assms(1) s' unfolding conn_inv_def by simp
    show "\<forall>d b. (d, b) \<in> made s' \<longrightarrow> idx (mgr s') b = Some d \<or> (\<exists>t. pcs s' t = CreateMade b d)"
      using idx s' by simp
  qed (use assms(1,2) none s' in \<open>auto simp: conn_inv_def split: if_splits\<close>)
qed

lemma step_same_idx_inv:
  assumes "conn_inv s" and "lock_inv s'" and "holds_write (pcs s t)" and "\<And>a c. pcs s t \<noteq> CreateMade a c"
    and "pcs s' = (pcs s)(t := p)" and "pc_inv (mgr s') (made s') p"
    and "idx (mgr s') = idx (mgr s)" and "made s' = made s" and "calls (mgr s) \<le> calls (mgr s')"
  shows "conn_inv s'"
proof (rule conn_inv_write [OF assms(1,2,3,5,6)])
  show "\<forall>c a. (c, a) \<in> made s' \<longrightarrow> idx (mgr s') a = Some c \<or> (\<exists>t. pcs s' t = CreateMade a c)"
    using conn_inv_made [OF assms(1,3)] assms(4,7,8) by simp
  show "\<forall>c a. (c, a) \<in> made s' \<longrightarrow> c < calls (mgr s')"
    using assms(1,8,9) unfolding conn_inv_def by (metis less_le_trans)
qed (use assms in \<open>auto simp: conn_inv_def\<close>)

lemma step_conn_inv:
  assumes "step env s s'" and "conn_inv s"
  shows "conn_inv s'"
proof -
  have lock: "lock_inv s'" using assms step_lock_inv by (auto simp: conn_inv_def)
  have pcs: "\<And>t. pc_inv (mgr s) (made s) (pcs s t)" using assms(2) by (simp add: conn_inv_def)
  show ?thesis
    using assms(1)
  proof cases
    case (call_Get t a r e address)
    then show ?thesis using conn_inv_frame [OF assms(2) lock, of t "GetCalled address"] by auto
  next
    case (RLock t a)
    then show ?thesis using conn_inv_frame [OF assms(2) lock, of t "GetLocked a"] by auto
  next
    case (lookup t a)
    then show ?thesis
      using conn_inv_frame [OF assms(2) lock, of t "GetRead a (idx (mgr s) a)"] by (cases "idx (mgr s) a") auto
  next
    case (RUnlock t a x)
    then show ?thesis
      using conn_inv_frame [OF assms(2) lock, of t "GetUnlocked a x"] pcs [of t] by (cases x) auto
  next
    case (found t a c)
    then show ?thesis using conn_inv_frame [OF assms(2) lock, of t "GetReturned a (Inr c)"] pcs [of t] by auto
  next
    case (not_found t a)
    then show ?thesis using conn_inv_frame [OF assms(2) lock, of t "CreateCalled a"] by auto
  next
    case (Lock t a)
    then show ?thesis using conn_inv_frame [OF assms(2) lock, of t "CreateLocked a"] by auto
  next
    case (check_found t a c)
    then show ?thesis using conn_inv_frame [OF assms(2) lock, of t "CreateReturning a (Inr c)"] by auto
  next
    case (check_missing t a)
    then show ?thesis using conn_inv_frame [OF assms(2) lock, of t "CreateMissing a"] by auto
  next
    case (NewClient_fails t a e)
    then show ?thesis
      using step_same_idx_inv [OF assms(2) lock, of t "CreateReturning a (Inl (create_failed e))"] by auto
  next
    case (NewClient t a)
    then show ?thesis using step_NewClient_inv [OF assms(2) _ lock] by blast
  next
    case (store t a c)
    then show ?thesis using step_store_inv [OF assms(2) _ lock] by blast
  next
    case (Unlock t a r)
    then show ?thesis
      using conn_inv_frame [OF assms(2) lock, of t "GetReturned a r"] pcs [of t] by (cases r) auto
  next
    case (call_Stop t a r e)
    then show ?thesis using conn_inv_frame [OF assms(2) lock, of t StopCalled] by auto
  next
    case (Stop_Lock t order)
    then show ?thesis using conn_inv_frame [OF assms(2) lock, of t "StopLocked order None"] by auto
  next
    case (Stop_close t c cs errs)
    let ?errs = "case closeErr env c of None \<Rightarrow> errs | Some e \<Rightarrow> errors_Join errs e"
    show ?thesis
      using step_same_idx_inv [OF assms(2) lock, of t "StopLocked cs ?errs"] Stop_close pcs [of t] by auto
  next
    case (Stop_return t errs)
    then show ?thesis using conn_inv_frame [OF assms(2) lock, of t "StopReturning errs"] pcs [of t] by auto
  next
    case (Stop_Unlock t errs)
    then show ?thesis using conn_inv_frame [OF assms(2) lock, of t "StopReturned errs"] by auto
  qed
qed

interpretation conns: kept "step env" conn_inv for env
  by unfold_locales (rule step_conn_inv)

lemma conn_inv_initial: "conn_inv initial"
  by (simp add: conn_inv_def lock_inv_def initial_def NewConnManager_def)

lemma reachable_inv:
  assumes "reachable env s"
  shows "conn_inv s"
  using assms conn_inv_initial unfolding reachable_def by (rule conns.kept_steps)

lemma step_idx_mono:
  assumes "step env s s'" and "conn_inv s" and "idx (mgr s) a = Some c"
  shows "idx (mgr s') a = Some c"
  using assms(1)
proof cases
  case (store t b d)
  then have "idx (mgr s) b = None" using assms(2) pc_inv.simps(4) unfolding conn_inv_def by metis
  with store assms(3) show ?thesis by auto
qed (use assms(3) in simp_all)

interpretation cached: kept "step env" "\<lambda>s. idx (mgr s) a = Some c \<and> conn_inv s" for env a c
  by unfold_locales (blast intro: step_idx_mono conns.kept_step)

lemma steps_idx_mono:
  assumes "(step env)\<^sup>*\<^sup>* s s'" and "conn_inv s" and "idx (mgr s) a = Some c"
  shows "idx (mgr s') a = Some c \<and> conn_inv s'"
  using cached.kept_steps [OF assms(1)] assms(2,3) by blast

text \<open>A goroutine in the middle of a call can go on, unless it waits for a lock that is held.\<close>

definition in_call :: "pc \<Rightarrow> bool" where
  "in_call p \<longleftrightarrow> (case p of Idle \<Rightarrow> False | GetReturned _ _ \<Rightarrow> False | StopReturned _ \<Rightarrow> False | _ \<Rightarrow> True)"

definition can_move :: "grpc_env \<Rightarrow> system \<Rightarrow> nat \<Rightarrow> bool" where
  "can_move env s t \<longleftrightarrow> (\<exists>p s'. step env s s' \<and> pcs s' = (pcs s)(t := p) \<and> p \<noteq> pcs s t)"

lemma can_moveI: "step env s (goto t p s1) \<Longrightarrow> pcs s1 = pcs s \<Longrightarrow> p \<noteq> pcs s t \<Longrightarrow> can_move env s t"
  unfolding can_move_def by (metis goto_simps(3))

lemma holder_moves:
  assumes "holds_read (pcs s t) \<or> holds_write (pcs s t)"
  shows "can_move env s t"
proof (cases "pcs s t")
  case (GetLocked a)
  show ?thesis by (rule can_moveI [OF lookup [OF GetLocked]]) (simp_all add: GetLocked)
next
  case (GetRead a x)
  show ?thesis by (rule can_moveI [OF RUnlock [OF GetRead]]) (simp_all add: GetRead)
next
  case (CreateLocked a)
  show ?thesis
  proof (cases "idx (mgr s) a")
    case None
    show ?thesis by (rule can_moveI [OF check_missing [OF CreateLocked None]]) (simp_all add: CreateLocked)
  next
    case (Some c)
    show ?thesis by (rule can_moveI [OF check_found [OF CreateLocked Some]]) (simp_all add: CreateLocked)
  qed
next
  case (CreateMissing a)
  show ?thesis
  proof (cases "newClient env a (calls (mgr s))")
    case None
    show ?thesis by (rule can_moveI [OF NewClient [OF CreateMissing None]]) (simp_all add: CreateMissing)
  next
    case (Some e)
    show ?thesis by (rule can_moveI [OF NewClient_fails [OF CreateMissing Some]]) (simp_all add: CreateMissing)
  qed
next
  case (CreateMade a c)
  show ?thesis by (rule can_moveI [OF store [OF CreateMade]]) (simp_all add: CreateMade)
next
  case (CreateReturning a r)
  show ?thesis by (rule can_moveI [OF Unlock [OF CreateReturning]]) (simp_all add: CreateReturning)
next
  case (StopLocked cs errs)
  show ?thesis
  proof (cases cs)
    case Nil
    show ?thesis by (rule can_moveI [OF Stop_return [OF StopLocked [unfolded Nil]]]) (simp_all add: StopLocked)
  next
    case (Cons c ds)
    show ?thesis by (rule can_moveI [OF Stop_close [OF StopLocked [unfolded Cons]]]) (simp_all add: StopLocked Cons)
  qed
next
  case (StopReturning errs)
  show ?thesis by (rule can_moveI [OF Stop_Unlock [OF StopReturning]]) (simp_all add: StopReturning)
qed (use assms in simp_all)

lemma some_goroutine_moves:
  assumes "conn_inv s" and "in_call (pcs s t)"
  shows "\<exists>t'. in_call (pcs s t') \<and> can_move env s t'"
proof (cases "\<exists>t'. holds_read (pcs s t') \<or> holds_write (pcs s t')")
  case True
  then obtain t' where t': "holds_read (pcs s t') \<or> holds_write (pcs s t')" by blast
  then have "in_call (pcs s t')" by (cases "pcs s t'") (simp_all add: in_call_def)
  then show ?thesis using holder_moves [OF t'] by blast
next
  case False
  then have free: "writer s = None" "readers s = {}"
    using assms(1) unfolding conn_inv_def lock_inv_def by (metis option.exhaust, blast)
  have "finite (ran (idx (mgr s)))" using assms(1) by (simp add: conn_inv_def finite_ran)
  then obtain order where order: "set order = ran (idx (mgr s))" "distinct order"
    using finite_distinct_list by blast
  have "can_move env s t"
  proof (cases "pcs s t")
    case (GetCalled a)
    show ?thesis by (rule can_moveI [OF RLock [OF GetCalled free(1)]]) (simp_all add: GetCalled)
  next
    case (GetUnlocked a x)
    show ?thesis
    proof (cases x)
      case None
      show ?thesis by (rule can_moveI [OF not_found [OF GetUnlocked [unfolded None]]]) (simp_all add: GetUnlocked)
    next
      case (Some c)
      show ?thesis by (rule can_moveI [OF found [OF GetUnlocked [unfolded Some]]]) (simp_all add: GetUnlocked)
    qed
  next
    case (CreateCalled a)
    show ?thesis by (rule can_moveI [OF Lock [OF CreateCalled free]]) (simp_all add: CreateCalled)
  next
    case StopCalled
    show ?thesis by (rule can_moveI [OF Stop_Lock [OF StopCalled free order(2,1)]]) (simp_all add: StopCalled)
  qed (use assms(2) False in \<open>auto simp: in_call_def\<close>, (metis holds_read.simps holds_write.simps)+)
  then show ?thesis using assms(2) by blast
qed

section \<open>The steps of a call that runs alone\<close>

abbreviation steps :: "grpc_env \<Rightarrow> system \<Rightarrow> system \<Rightarrow> bool" where
  "steps env \<equiv> (step env)\<^sup>*\<^sup>*"

definition quiet :: "system \<Rightarrow> bool" where
  "quiet s \<longleftrightarrow> writer s = None \<and> readers s = {}"

lemma lone_read:
  assumes "quiet s" and "pcs s t = Idle"
  shows "steps env s (goto t (GetUnlocked a (idx (mgr s) a)) s)"
proof -
  let ?s1 = "goto t (GetCalled a) s"
  let ?s2 = "goto t (GetLocked a) (?s1\<lparr>readers := insert t (readers ?s1)\<rparr>)"
  let ?s3 = "goto t (GetRead a (idx (mgr ?s2) a)) ?s2"
  let ?s4 = "goto t (GetUnlocked a (idx (mgr ?s2) a)) (?s3\<lparr>readers := readers ?s3 - {t}\<rparr>)"
  have "step env s ?s1" using assms(2) by (intro call_Get [of s t _ undefined undefined]) simp
  moreover have "step env ?s1 ?s2" using assms(1) by (intro RLock) (simp_all add: goto_def quiet_def)
  moreover have "step env ?s2 ?s3" by (intro lookup) simp
  moreover have "step env ?s3 ?s4" by (intro RUnlock) simp
  moreover have "?s4 = goto t (GetUnlocked a (idx (mgr s) a)) s"
    using assms(1) by (simp add: goto_def quiet_def)
  ultimately show ?thesis by (metis (no_types, lifting) rtranclp.simps)
qed

lemma lone_create:
  assumes "quiet s" and "pcs s t = CreateCalled a" and "idx (mgr s) a = None"
  shows "\<exists>s'. steps env s s' \<and> mgr s' = snd (createConnection env a (mgr s))
    \<and> pcs s' = (pcs s)(t := GetReturned a (fst (createConnection env a (mgr s)))) \<and> quiet s'"
proof -
  let ?m = "(mgr s)\<lparr>calls := Suc (calls (mgr s))\<rparr>"
  let ?s1 = "goto t (CreateLocked a) (s\<lparr>writer := Some t\<rparr>)"
  let ?s2 = "goto t (CreateMissing a) ?s1"
  have start: "steps env s ?s2"
    using assms Lock [of s t a env] check_missing [of ?s1 t a env]
    by (auto simp: quiet_def intro: rtranclp.rtrancl_into_rtrancl)
  show ?thesis
  proof (cases "newClient env a (calls (mgr s))")
    case (Some e)
    let ?s3 = "goto t (CreateReturning a (Inl (create_failed e))) (?s2\<lparr>mgr := ?m\<rparr>)"
    let ?s4 = "goto t (GetReturned a (Inl (create_failed e))) (?s3\<lparr>writer := None\<rparr>)"
    have "step env ?s2 ?s3" using NewClient_fails [of ?s2 t a env e] Some by simp
    moreover have "step env ?s3 ?s4" by (intro Unlock) simp
    ultimately have "steps env s ?s4" using start by (metis rtranclp.rtrancl_into_rtrancl)
    then show ?thesis
      using Some assms(1,3) by (intro exI [of _ ?s4]) (simp add: createConnection_def goto_def quiet_def)
  next
    case None
    let ?c = "calls (mgr s)"
    let ?s3 = "goto t (CreateMade a ?c) (?s2\<lparr>mgr := ?m, made := insert (?c, a) (made ?s2)\<rparr>)"
    let ?s4 = "goto t (CreateReturning a (Inr ?c)) (?s3\<lparr>mgr := (mgr ?s3)\<lparr>idx := (idx (mgr ?s3))(a \<mapsto> ?c)\<rparr>\<rparr>)"
    let ?s5 = "goto t (GetReturned a (Inr ?c)) (?s4\<lparr>writer := None\<rparr>)"
    have "step env ?s2 ?s3" using NewClient [of ?s2 t a env] None by simp
    moreover have "step env ?s3 ?s4" by (intro store) simp
    moreover have "step env ?s4 ?s5" by (intro Unlock) simp
    ultimately have "steps env s ?s5" using start by (meson rtranclp.rtrancl_into_rtrancl)
    then show ?thesis
      using None assms(1,3) by (intro exI [of _ ?s5]) (simp add: createConnection_def goto_def quiet_def Let_def)
  qed
qed

lemma lone_Get:
  assumes "quiet s" and "pcs s t = Idle"
  shows "\<exists>s'. steps env s s' \<and> mgr s' = snd (Get env a (mgr s))
    \<and> pcs s' = (pcs s)(t := GetReturned a (fst (Get env a (mgr s)))) \<and> quiet s'"
proof (cases "idx (mgr s) a")
  case (Some c)
  let ?s = "goto t (GetUnlocked a (idx (mgr s) a)) s"
  have "step env ?s (goto t (GetReturned a (Inr c)) ?s)" using Some by (intro found) simp
  with lone_read [OF assms] have "steps env s (goto t (GetReturned a (Inr c)) ?s)"
    by (rule rtranclp.rtrancl_into_rtrancl)
  then show ?thesis
    using Some assms(1) by (intro exI [of _ "goto t (GetReturned a (Inr c)) ?s"]) (simp add: Get_def goto_def quiet_def)
next
  case None
  let ?s = "goto t (GetUnlocked a (idx (mgr s) a)) s"
  let ?s1 = "goto t (CreateCalled a) ?s"
  have "step env ?s ?s1" using None by (intro not_found) simp
  with lone_read [OF assms] have "steps env s ?s1" by (rule rtranclp.rtrancl_into_rtrancl)
  moreover obtain s' where "steps env ?s1 s'" and "mgr s' = snd (createConnection env a (mgr s))"
    "pcs s' = (pcs s)(t := GetReturned a (fst (createConnection env a (mgr s))))" "quiet s'"
    using lone_create [of ?s1 t a env] assms(1) None by (auto simp: goto_def quiet_def)
  ultimately have "steps env s s' \<and> mgr s' = snd (Get env a (mgr s))
    \<and> pcs s' = (pcs s)(t := GetReturned a (fst (Get env a (mgr s)))) \<and> quiet s'"
    using None rtranclp_trans [of "step env" s ?s1 s'] by (simp add: Get_def)
  then show ?thesis by blast
qed

section \<open>Stop\<close>

lemma close_all_closed: "closed (snd (close_all env cs errs m)) = closed m \<union> set cs
    \<and> idx (snd (close_all env cs errs m)) = idx m"
  by (induction cs arbitrary: errs m) auto

lemma close_all_nil: "fst (close_all env cs errs m) = None \<longleftrightarrow> errs = None \<and> (\<forall>c \<in> set cs. closeErr env c = None)"
  by (induction cs arbitrary: errs m) (auto simp: errors_Join_def split: option.splits)

definition reports :: "go_error option \<Rightarrow> go_error \<Rightarrow> bool" where
  "reports errs e \<longleftrightarrow> (\<exists>es. errs = Some es \<and> errors_Is es e)"

lemma reports_Join: "reports (errors_Join errs e) e" "reports errs e' \<Longrightarrow> reports (errors_Join errs e) e'"
  by (auto simp: reports_def errors_Join_def split: option.splits)

lemma close_all_reports:
  "reports errs e \<or> (\<exists>c \<in> set cs. closeErr env c = Some e) \<Longrightarrow> reports (fst (close_all env cs errs m)) e"
proof (induction cs arbitrary: errs m)
  case (Cons c cs)
  show ?case
    unfolding close_all.simps
    by (rule Cons.IH) (use Cons.prems in \<open>auto simp: reports_Join split: option.splits\<close>)
qed simp

section \<open>Properties\<close>

definition calm :: grpc_env where
  "calm = \<lparr>newClient = (\<lambda>a n. None), closeErr = (\<lambda>c. if c = 0 then Some (ErrNew ''closing'') else None)\<rparr>"

lemma initial_quiet: "quiet initial" "pcs initial t = Idle"
  by (simp_all add: initial_def quiet_def)

lemma calm_Get: "\<exists>s. reachable calm s \<and> pcs s 7 = GetReturned ''db'' (Inr 0) \<and> pcs s 8 = Idle \<and> quiet s"
  using lone_Get [OF initial_quiet, where env = calm and t = 7 and a = "''db''"]
  by (auto simp: reachable_def Get_def createConnection_def calm_def initial_def NewConnManager_def)

text \<open>
  C2: However any number of goroutines interleave, all calls of \<open>Get\<close> for one address that succeed
  return the same connection, also when one call returned long before the other.
\<close>

theorem conn_manager_same_connection:
  assumes "reachable env s" and "steps env s s'"
    and "pcs s t = GetReturned a (Inr c)" and "pcs s' t' = GetReturned a (Inr c')"
  shows "c' = c"
proof -
  have inv: "conn_inv s" using assms(1) by (rule reachable_inv)
  then have "idx (mgr s) a = Some c" using assms(3) pc_inv.simps(6) unfolding conn_inv_def by metis
  with steps_idx_mono [OF assms(2) inv] have "idx (mgr s') a = Some c" and "conn_inv s'" by auto
  moreover from this have "idx (mgr s') a = Some c'"
    using assms(4) pc_inv.simps(6) unfolding conn_inv_def by metis
  ultimately show ?thesis by simp
qed

theorem conn_manager_same_connection_witness:
  "\<exists>s s'. reachable calm s \<and> steps calm s s' \<and> pcs s 7 = GetReturned ''db'' (Inr 0)
    \<and> (\<forall>c'. pcs s' 8 = GetReturned ''db'' (Inr c') \<longrightarrow> c' = 0)"
proof -
  obtain s where s: "reachable calm s" "pcs s 7 = GetReturned ''db'' (Inr 0)" "pcs s 8 = Idle" "quiet s"
    using calm_Get by blast
  obtain s' where "steps calm s s'" using lone_Get [OF s(4,3), where env = calm and a = "''db''"] by blast
  with s conn_manager_same_connection [OF s(1) _ s(2)] show ?thesis by blast
qed

text \<open>
  C13: No connection is ever made twice for an address or dropped: every connection made so far, save
  the one a goroutine is just storing under the write lock, is in the map, where \<open>Stop\<close> finds it.
\<close>

theorem conn_manager_no_leak:
  assumes "reachable env s"
  shows "(\<forall>a c c'. (c, a) \<in> made s \<and> (c', a) \<in> made s \<longrightarrow> c = c')
    \<and> ((\<forall>t a c. pcs s t \<noteq> CreateMade a c) \<longrightarrow> made s = {(c, a). idx (mgr s) a = Some c})"
proof -
  have inv: "conn_inv s" using assms by (rule reachable_inv)
  have one: "c = c'" if "(c, a) \<in> made s" and "(c', a) \<in> made s" for a c c'
  proof (cases "\<exists>t. holds_write (pcs s t)")
    case True
    then obtain t where "holds_write (pcs s t)" ..
    moreover have "pc_inv (mgr s) (made s) (pcs s t)" using inv by (simp add: conn_inv_def)
    ultimately show ?thesis
      using conn_inv_made [OF inv _ that(1), of t] conn_inv_made [OF inv _ that(2), of t] by auto
  next
    case False
    then have "\<forall>t b d. pcs s t \<noteq> CreateMade b d" by (metis holds_write.simps(3))
    then show ?thesis using inv that unfolding conn_inv_def by (metis option.inject)
  qed
  have "\<forall>a c. idx (mgr s) a = Some c \<longrightarrow> (c, a) \<in> made s"
    and "\<forall>c a. (c, a) \<in> made s \<longrightarrow> idx (mgr s) a = Some c \<or> (\<exists>t. pcs s t = CreateMade a c)"
    using inv unfolding conn_inv_def by simp_all
  then have "made s = {(c, a). idx (mgr s) a = Some c}" if "\<forall>t a c. pcs s t \<noteq> CreateMade a c"
    using that by (intro subset_antisym subrelI) blast+
  with one show ?thesis by blast
qed

theorem conn_manager_no_leak_witness:
  "\<exists>s. reachable calm s \<and> pcs s 7 = GetReturned ''db'' (Inr 0)
    \<and> (\<forall>a c c'. (c, a) \<in> made s \<and> (c', a) \<in> made s \<longrightarrow> c = c')"
  using calm_Get conn_manager_no_leak by blast

text \<open>
  C14: The locking cannot deadlock: while any goroutine is inside \<open>Get\<close> or \<open>Stop\<close>, some goroutine
  inside one of them can take its next step.
\<close>

theorem conn_manager_progress:
  assumes "reachable env s" and "in_call (pcs s t)"
  shows "\<exists>t' p s'. in_call (pcs s t') \<and> step env s s' \<and> pcs s' = (pcs s)(t' := p) \<and> p \<noteq> pcs s t'"
  using some_goroutine_moves [OF reachable_inv [OF assms(1)] assms(2)] unfolding can_move_def by blast

theorem conn_manager_progress_witness:
  "\<exists>t' p s'. in_call (pcs (goto 1 (GetCalled ''db'') initial) t') \<and> step calm (goto 1 (GetCalled ''db'') initial) s'
    \<and> pcs s' = (pcs (goto 1 (GetCalled ''db'') initial))(t' := p) \<and> p \<noteq> pcs (goto 1 (GetCalled ''db'') initial) t'"
proof -
  have "reachable calm (goto 1 (GetCalled ''db'') initial)"
    unfolding reachable_def using call_Get [of initial 1 "[]" "Inr 0" None calm "''db''"] initial_quiet by auto
  then show ?thesis by (rule conn_manager_progress [of calm _ 1]) (simp add: in_call_def)
qed

text \<open>
  C40: A call of \<open>Get\<close> that meets no other runs to its end, and its steps compute what the sequential
  function computes: the cached connection, a new one that is now cached, or the wrapped error.
\<close>

theorem conn_manager_Get_steps:
  assumes "quiet s" and "pcs s t = Idle"
  shows "\<exists>s'. steps env s s' \<and> mgr s' = snd (Get env a (mgr s))
    \<and> pcs s' t = GetReturned a (fst (Get env a (mgr s))) \<and> quiet s'"
proof -
  obtain s' where "steps env s s'" "mgr s' = snd (Get env a (mgr s))" "quiet s'"
    "pcs s' = (pcs s)(t := GetReturned a (fst (Get env a (mgr s))))"
    using lone_Get [OF assms] by blast
  then show ?thesis by auto
qed

theorem conn_manager_Get_steps_witness:
  "\<exists>s'. steps calm initial s' \<and> mgr s' = snd (Get calm ''db'' (mgr initial))
    \<and> pcs s' 3 = GetReturned ''db'' (fst (Get calm ''db'' (mgr initial))) \<and> quiet s'"
  by (rule conn_manager_Get_steps) (rule initial_quiet)+

text \<open>
  C29: \<open>Stop\<close> closes every connection of the manager, also after some failed to close; it returns nil
  exactly if all of them closed without error, and otherwise an error that wraps each of theirs. In
  the interleaved runs, all connections in the map are closed before \<open>Stop\<close> gives the lock back.
\<close>

theorem conn_manager_Stop_closes:
  assumes "set order = ran (idx m)"
  shows "ran (idx m) \<subseteq> closed (snd (Stop env order m))
    \<and> (fst (Stop env order m) = None \<longleftrightarrow> (\<forall>c \<in> ran (idx m). closeErr env c = None))
    \<and> (\<forall>c \<in> ran (idx m). \<forall>e. closeErr env c = Some e \<longrightarrow>
         (\<exists>es. fst (Stop env order m) = Some es \<and> errors_Is es e))
    \<and> (reachable env s \<longrightarrow> pcs s t = StopReturning r \<longrightarrow> ran (idx (mgr s)) \<subseteq> closed (mgr s))"
proof -
  have "reports (fst (Stop env order m)) e" if "c \<in> ran (idx m)" and "closeErr env c = Some e" for c e
    unfolding Stop_def using that assms by (intro close_all_reports) auto
  moreover have "ran (idx (mgr s)) \<subseteq> closed (mgr s)" if "reachable env s" and "pcs s t = StopReturning r"
    using reachable_inv [OF that(1)] that(2) pc_inv.simps(8) unfolding conn_inv_def by metis
  ultimately show ?thesis
    using close_all_closed [of env order None m] close_all_nil [of env order None m] assms
    by (auto simp: Stop_def reports_def)
qed

theorem conn_manager_Stop_closes_witness:
  "fst (Stop calm [0, 1] \<lparr>idx = [''a'' \<mapsto> 0, ''b'' \<mapsto> 1], calls = 2, closed = {}\<rparr>) \<noteq> None"
proof -
  let ?m = "\<lparr>idx = [''a'' \<mapsto> 0, ''b'' \<mapsto> 1], calls = 2, closed = {}\<rparr>"
  have "set [0, 1] = ran (idx ?m)" by auto
  moreover have "(0 :: nat) \<in> ran (idx ?m)" by (auto simp: ran_def)
  ultimately show ?thesis using conn_manager_Stop_closes [of "[0, 1]" ?m calm] by (auto simp: calm_def)
qed

end
