(* ===== verification/Codec.thy ===== *)
theory Codec
  imports GoPrelude
begin

text \<open>
  The gRPC codec of package fxgrpc (src/fxgrpc/codec.go): messages with vtproto methods are marshalled into one
  buffer, from the buffer pool when they are large; all others go to the codec that was registered before.
  The buffers of gRPC (src/vendor/google.golang.org/grpc/mem) are modelled as far as the codec uses them, with
  the number of pool buffers that are in use.
\<close>

type_synonym bytes = "8 word list"

section \<open>Buffers\<close>

datatype buffer = SliceBuffer bytes | PoolBuffer bytes

primrec ReadOnlyData :: "buffer \<Rightarrow> bytes" where
  "ReadOnlyData (SliceBuffer b) = b"
| "ReadOnlyData (PoolBuffer b) = b"

text \<open>A pool buffer may hold old contents: \<open>stale n k\<close> is what the n-th \<open>Get\<close> finds in a buffer of length k.\<close>

record pool =
  gets :: nat
  in_use :: nat

definition bufferPoolingThreshold :: nat where
  "bufferPoolingThreshold = 1024"

definition IsBelowBufferPoolingThreshold :: "nat \<Rightarrow> bool" where
  "IsBelowBufferPoolingThreshold n \<longleftrightarrow> n \<le> bufferPoolingThreshold"

definition pool_Get :: "(nat \<Rightarrow> nat \<Rightarrow> bytes) \<Rightarrow> nat \<Rightarrow> pool \<Rightarrow> bytes \<times> pool" where
  "pool_Get stale n p = (stale (gets p) n, p\<lparr>gets := Suc (gets p), in_use := Suc (in_use p)\<rparr>)"

definition pool_Put :: "pool \<Rightarrow> pool" where
  "pool_Put p = p\<lparr>in_use := in_use p - 1\<rparr>"

text \<open>The capacity of the buffer that the tiered pool hands out for a length.\<close>

definition pool_cap :: "nat \<Rightarrow> nat" where
  "pool_cap n = (case find (\<lambda>k. n \<le> k) [256, 4096, 16384, 32768, 1048576] of Some k \<Rightarrow> k | None \<Rightarrow> n)"

text \<open>\<open>NewBuffer\<close> leaves a buffer of small capacity to the garbage collector.\<close>

definition NewBuffer :: "nat \<Rightarrow> bytes \<Rightarrow> buffer" where
  "NewBuffer cap b = (if IsBelowBufferPoolingThreshold cap then SliceBuffer b else PoolBuffer b)"

definition buffer_Free :: "buffer \<Rightarrow> pool \<Rightarrow> pool" where
  "buffer_Free b p = (case b of SliceBuffer _ \<Rightarrow> p | PoolBuffer _ \<Rightarrow> pool_Put p)"

text \<open>
  \<open>MaterializeToBuffer\<close>: a single buffer is referenced once more, several are copied into one. The result comes
  with what \<open>Free\<close> does to it: dropping the extra reference of a single buffer leaves the pool as it is.
\<close>

definition MaterializeToBuffer :: "(nat \<Rightarrow> nat \<Rightarrow> bytes) \<Rightarrow> buffer list \<Rightarrow> pool \<Rightarrow> bytes \<times> (pool \<Rightarrow> pool) \<times> pool" where
  "MaterializeToBuffer stale data p =
     (case data of
        [b] \<Rightarrow> (ReadOnlyData b, id, p)
      | _ \<Rightarrow>
          let all = concat (map ReadOnlyData data)
          in if length all = 0 then ([], id, p)
             else case pool_Get stale (length all) p of
                    (_, p1) \<Rightarrow> (all, buffer_Free (NewBuffer (pool_cap (length all)) all), p1))"

section \<open>The codec\<close>

text \<open>The methods that vtproto generates for a message, and the codec behind.\<close>

record 'm vtproto =
  SizeVT :: "'m \<Rightarrow> nat"
  MarshalToSizedBufferVT :: "'m \<Rightarrow> bytes \<Rightarrow> (nat \<times> bytes) result"
  UnmarshalVT :: "bytes \<Rightarrow> 'm result"

record 'o codecV2 =
  fallback_Marshal :: "'o \<Rightarrow> pool \<Rightarrow> buffer list result \<times> pool"
  fallback_Unmarshal :: "buffer list \<Rightarrow> pool \<Rightarrow> 'o result \<times> pool"

datatype ('m, 'o) message = VT 'm | Plain 'o

definition codec_Name :: string where
  "codec_Name = ''proto''"

definition codec_Marshal ::
  "(nat \<Rightarrow> nat \<Rightarrow> bytes) \<Rightarrow> 'm vtproto \<Rightarrow> 'o codecV2 \<Rightarrow> ('m, 'o) message \<Rightarrow> pool \<Rightarrow> buffer list result \<times> pool" where
  "codec_Marshal stale vt fb v p =
     (case v of
        Plain x \<Rightarrow> fallback_Marshal fb x p
      | VT m \<Rightarrow>
          let sz = SizeVT vt m
          in if IsBelowBufferPoolingThreshold sz
             then (case MarshalToSizedBufferVT vt m (replicate sz 0) of
                     Inl e \<Rightarrow> (Inl e, p)
                   | Inr (_, buf) \<Rightarrow> (Inr [SliceBuffer buf], p))
             else (case pool_Get stale sz p of
                     (buf, p1) \<Rightarrow>
                       (case MarshalToSizedBufferVT vt m buf of
                          Inl e \<Rightarrow> (Inl e, pool_Put p1)
                        | Inr (_, buf1) \<Rightarrow> (Inr [NewBuffer (pool_cap sz) buf1], p1))))"

text \<open>The kind of the target decides, as the kind of the value does in \<open>Marshal\<close>.\<close>

definition codec_Unmarshal ::
  "(nat \<Rightarrow> nat \<Rightarrow> bytes) \<Rightarrow> 'm vtproto \<Rightarrow> 'o codecV2 \<Rightarrow> bool \<Rightarrow> buffer list \<Rightarrow> pool \<Rightarrow> ('m, 'o) message result \<times> pool" where
  "codec_Unmarshal stale vt fb is_vt data p =
     (if is_vt
      then case MaterializeToBuffer stale data p of
             (buf, free, p1) \<Rightarrow> (case UnmarshalVT vt buf of Inl e \<Rightarrow> Inl e | Inr m \<Rightarrow> Inr (VT m), free p1)
      else case fallback_Unmarshal fb data p of
             (r, p1) \<Rightarrow> (case r of Inl e \<Rightarrow> Inl e | Inr x \<Rightarrow> Inr (Plain x), p1))"

section \<open>The contract of vtproto\<close>

text \<open>
  Given a buffer of exactly the size of the message, the generated code fills it with the encoding, or fails;
  decoding an encoding gives the message back.
\<close>

lemma large_buffer [simp]: "\<not> IsBelowBufferPoolingThreshold n \<Longrightarrow> NewBuffer (pool_cap n) b = PoolBuffer b"
  by (auto simp: NewBuffer_def pool_cap_def IsBelowBufferPoolingThreshold_def bufferPoolingThreshold_def)

definition vtproto_contract :: "'m vtproto \<Rightarrow> ('m \<Rightarrow> bytes) \<Rightarrow> bool" where
  "vtproto_contract vt enc \<longleftrightarrow>
     (\<forall>m buf n buf1. length buf = SizeVT vt m \<longrightarrow> MarshalToSizedBufferVT vt m buf = Inr (n, buf1) \<longrightarrow> buf1 = enc m)
     \<and> (\<forall>m. UnmarshalVT vt (enc m) = Inr m)"

lemma marshal_bytes:
  assumes "vtproto_contract vt enc" and "\<And>n k. length (stale n k) = k"
    and "codec_Marshal stale vt fb (VT m) p = (Inr data, p1)"
  shows "\<exists>b. data = [b] \<and> ReadOnlyData b = enc m \<and> in_use (buffer_Free b p1) = in_use p"
proof -
  have fills: "length buf = SizeVT vt m \<Longrightarrow> MarshalToSizedBufferVT vt m buf = Inr (n, buf1) \<Longrightarrow> buf1 = enc m" for buf n buf1
    using assms(1) by (simp add: vtproto_contract_def)
  show ?thesis
    using assms(3) fills [of "replicate (SizeVT vt m) 0"] fills [of "stale (gets p) (SizeVT vt m)"] assms(2)
    by (auto simp: codec_Marshal_def pool_Get_def pool_Put_def buffer_Free_def Let_def
        split: if_splits sum.splits prod.splits)
qed

section \<open>Properties\<close>


text \<open>Messages that are their own encoding, and a codec behind that has none.\<close>

definition raw_vt :: "bytes vtproto" where
  "raw_vt = \<lparr>SizeVT = length, MarshalToSizedBufferVT = (\<lambda>m buf. Inr (length m, m)), UnmarshalVT = Inr\<rparr>"

definition no_fallback :: "unit codecV2" where
  "no_fallback = \<lparr>fallback_Marshal = (\<lambda>_ p. (Inl (ErrNew ''no codec''), p)), fallback_Unmarshal = (\<lambda>_ p. (Inl (ErrNew ''no codec''), p))\<rparr>"


end
