(* ===== verification/ZapLog.thy ===== *)
theory ZapLog
  imports GoPrelude
begin

text \<open>
  What the packages use of the zap logger: levels, structured fields and log entries. A logger is the
  list of the fields it carries (\<open>With\<close>), and a call of it yields an entry.
\<close>

datatype level = DebugLevel | InfoLevel | WarnLevel | ErrorLevel | DPanicLevel | PanicLevel | FatalLevel

fun level_num :: "level \<Rightarrow> int" where
  "level_num DebugLevel = -1"
| "level_num InfoLevel = 0"
| "level_num WarnLevel = 1"
| "level_num ErrorLevel = 2"
| "level_num DPanicLevel = 3"
| "level_num PanicLevel = 4"
| "level_num FatalLevel = 5"

lemma level_num_inject: "level_num a = level_num b \<longleftrightarrow> a = b"
  by (cases a; cases b) simp_all

text \<open>Levels in zap's order.\<close>

instantiation level :: linorder
begin

definition less_eq_level :: "level \<Rightarrow> level \<Rightarrow> bool" where
  "less_eq_level a b \<longleftrightarrow> level_num a \<le> level_num b"

definition less_level :: "level \<Rightarrow> level \<Rightarrow> bool" where
  "less_level a b \<longleftrightarrow> level_num a < level_num b"

instance
  by standard (auto simp: less_eq_level_def less_level_def level_num_inject)

end

datatype field =
    String string string
  | Bool string bool
  | Integer string int
  | Duration string int
  | Time string int
  | Any string string
  | ErrorField go_error
  | Object string "field list"
  | Skip

record entry =
  entry_level :: level
  entry_msg :: string
  entry_fields :: "field list"

type_synonym logger = "field list"

definition log_at :: "level \<Rightarrow> logger \<Rightarrow> string \<Rightarrow> field list \<Rightarrow> entry" where
  "log_at l lg msg fs = \<lparr>entry_level = l, entry_msg = msg, entry_fields = lg @ fs\<rparr>"

end
