(* ===== verification/Grpc.thy ===== *)
theory Grpc
  imports ZapLog
begin

text \<open>
  What the interceptors use of gRPC (src/vendor/google.golang.org/grpc): status codes, request contexts
  with their metadata and peer, handlers, and the composition of interceptors into a chain.
\<close>

section \<open>Status codes and errors\<close>

datatype code =
    OK | Canceled | Unknown | InvalidArgument | DeadlineExceeded | NotFound | AlreadyExists
  | PermissionDenied | ResourceExhausted | FailedPrecondition | Aborted | OutOfRange
  | Unimplemented | Internal | Unavailable | DataLoss | Unauthenticated | OtherCode nat

fun code_String :: "code \<Rightarrow> string" where
  "code_String OK = ''OK''"
| "code_String Canceled = ''Canceled''"
| "code_String Unknown = ''Unknown''"
| "code_String InvalidArgument = ''InvalidArgument''"
| "code_String DeadlineExceeded = ''DeadlineExceeded''"
| "code_String NotFound = ''NotFound''"
| "code_String AlreadyExists = ''AlreadyExists''"
| "code_String PermissionDenied = ''PermissionDenied''"
| "code_String ResourceExhausted = ''ResourceExhausted''"
| "code_String FailedPrecondition = ''FailedPrecondition''"
| "code_String Aborted = ''Aborted''"
| "code_String OutOfRange = ''OutOfRange''"
| "code_String Unimplemented = ''Unimplemented''"
| "code_String Internal = ''Internal''"
| "code_String Unavailable = ''Unavailable''"
| "code_String DataLoss = ''DataLoss''"
| "code_String Unauthenticated = ''Unauthenticated''"
| "code_String (OtherCode n) = ''Code('' @ itoa n @ '')''"

text \<open>An error of a handler carries a status or not; the end of a stream is an error of its own.\<close>

datatype rpc_error = StatusError code string | PlainError go_error | EOF

definition status_Code :: "rpc_error option \<Rightarrow> code" where
  "status_Code e =
     (case e of None \<Rightarrow> OK | Some (StatusError c _) \<Rightarrow> c | Some (PlainError _) \<Rightarrow> Unknown | Some EOF \<Rightarrow> Unknown)"

fun rpc_go_error :: "rpc_error \<Rightarrow> go_error" where
  "rpc_go_error (StatusError c msg) = ErrNew (''rpc error: code = '' @ code_String c @ '' desc = '' @ msg)"
| "rpc_go_error (PlainError e) = e"
| "rpc_go_error EOF = ErrNew ''EOF''"

section \<open>Contexts\<close>

text \<open>
  A Go map that is only ranged over is the list of its entries in the order of the iteration. Metadata
  keys are ASCII.
\<close>

type_synonym md = "(string \<times> string list) list"

datatype peer_addr = TCPAddr string int | OtherAddr string

datatype 'cert auth_info = NoTLSInfo | TLSInfo "'cert list"

record 'cert peer_info =
  peer_Addr :: peer_addr
  AuthInfo :: "'cert auth_info"

record 'cert ctx =
  trace_value :: "string option"
  span_trace :: "string option"
  logger_value :: "logger option"
  incoming :: "md option"
  outgoing :: "(string \<times> string) list"
  Deadline :: "int option"
  peer :: "'cert peer_info option"

definition lower :: "char \<Rightarrow> char" where
  "lower c = (let n = of_char c :: nat in if 65 \<le> n \<and> n \<le> 90 then char_of (n + 32) else c)"

definition upper :: "char \<Rightarrow> char" where
  "upper c = (let n = of_char c :: nat in if 97 \<le> n \<and> n \<le> 122 then char_of (n - 32) else c)"

definition ToLower :: "string \<Rightarrow> string" where
  "ToLower s = map lower s"

text \<open>\<open>FromIncomingContext\<close>: a copy with all keys in lower case; a later entry of the same key wins.\<close>

fun lower_keys :: "md \<Rightarrow> (string \<rightharpoonup> string list) \<Rightarrow> string \<rightharpoonup> string list" where
  "lower_keys [] out = out"
| "lower_keys ((k, v) # kvs) out = lower_keys kvs (out(ToLower k \<mapsto> v))"

definition FromIncomingContext :: "'cert ctx \<Rightarrow> (string \<rightharpoonup> string list) option" where
  "FromIncomingContext c = map_option (\<lambda>m. lower_keys m Map.empty) (incoming c)"

definition AppendToOutgoingContext :: "string \<Rightarrow> string \<Rightarrow> 'cert ctx \<Rightarrow> 'cert ctx" where
  "AppendToOutgoingContext k v c = c\<lparr>outgoing := outgoing c @ [(ToLower k, v)]\<rparr>"

lemma lower_lower: "lower (lower c) = lower c"
  by (auto simp: lower_def Let_def)

lemma ToLower_idem [simp]: "ToLower (ToLower s) = ToLower s"
  by (simp add: ToLower_def lower_lower)

lemma lower_keys_dom:
  "k \<in> dom (lower_keys m out) \<Longrightarrow> k \<in> dom out \<or> ToLower k = k"
proof (induction m arbitrary: out)
  case (Cons kv m)
  obtain k' v where "kv = (k', v)" by fastforce
  with Cons.prems have "k \<in> dom (lower_keys m (out(ToLower k' \<mapsto> v)))" by simp
  then have "k \<in> dom (out(ToLower k' \<mapsto> v)) \<or> ToLower k = k" by (rule Cons.IH)
  then show ?case unfolding dom_fun_upd by auto
qed simp

lemma FromIncomingContext_lower:
  "FromIncomingContext c = Some m \<Longrightarrow> ToLower k \<noteq> k \<Longrightarrow> m k = None"
  using lower_keys_dom [of k _ Map.empty] by (auto simp: FromIncomingContext_def)

section \<open>Handlers and chains of interceptors\<close>

text \<open>
  A handler works on a context, a request and the state of the world, and returns a response and an
  error, or panics. An interceptor is given the full name of the call and the next handler.
\<close>

type_synonym ('c, 'q, 'a, 'w) handler =
  "'c \<Rightarrow> 'q \<Rightarrow> 'w \<Rightarrow> ('a option \<times> rpc_error option) outcome \<times> 'w"

type_synonym ('c, 'q, 'a, 'w) unary_interceptor =
  "'c \<Rightarrow> 'q \<Rightarrow> string \<Rightarrow> ('c, 'q, 'a, 'w) handler \<Rightarrow> 'w \<Rightarrow> ('a option \<times> rpc_error option) outcome \<times> 'w"

fun chain_handler ::
  "('c, 'q, 'a, 'w) unary_interceptor list \<Rightarrow> string \<Rightarrow> ('c, 'q, 'a, 'w) handler \<Rightarrow> ('c, 'q, 'a, 'w) handler" where
  "chain_handler [] info final = final"
| "chain_handler (i # is) info final = (\<lambda>c q. i c q info (chain_handler is info final))"

lemma chain_handler_append:
  "chain_handler (is @ js) info final = chain_handler is info (chain_handler js info final)"
  by (induction "is") simp_all

end
