(* ===== verification/Interceptors.thy ===== *)
theory Interceptors
  imports GoSort
begin

text \<open>
  The weighted interceptors of package fxgrpc (src/fxgrpc/interceptors.go): the loop that removes
  nil entries by moving the first entry into the hole, the sort by weight, and the four functions
  that turn a group of weighted interceptors into the chain handed to gRPC.
\<close>

section \<open>Weighted interceptors\<close>

text \<open>
  The four Go structs differ in the type of the interceptor only; a pointer to one is an option,
  \<open>None\<close> being nil.
\<close>

record 'ix weighted =
  Weight :: uint64
  Interceptor :: 'ix

type_synonym 'ix weighted_ptr = "'ix weighted option"

definition IsNil :: "'ix weighted_ptr \<Rightarrow> bool" where
  "IsNil i \<longleftrightarrow> i = None"

text \<open>\<open>GetWeight\<close> reads through the pointer; its callers below never reach a nil one.\<close>

definition GetWeight :: "'ix weighted_ptr \<Rightarrow> uint64" where
  "GetWeight i = Weight (the i)"

section \<open>SortInterceptors\<close>

text \<open>
  The loop \<open>for i := 0; i < len(iList); i++\<close> that overwrites a nil entry with the first entry and
  drops the first entry; the slice gets shorter under the running index.
\<close>

function remove_nils :: "nat \<Rightarrow> 'ix weighted_ptr list \<Rightarrow> 'ix weighted_ptr list" where
  "remove_nils i iList =
     (if i < length iList
      then if IsNil (iList ! i)
           then remove_nils (Suc i) (tl (iList[i := iList ! 0]))
           else remove_nils (Suc i) iList
      else iList)"
  by pat_completeness auto
termination
  by (relation "measure (\<lambda>(i, iList). length iList - i)") auto

declare remove_nils.simps [simp del]

text \<open>
  Sorting two or more entries compares each of them at least once, and \<open>Less\<close> dereferences both
  entries, so a nil entry among them is a panic. The sorted entries are copied back into the
  caller's slice; the result is its prefix (first component) and the slice afterwards (second).
\<close>

definition SortInterceptors ::
  "(('ix weighted_ptr \<Rightarrow> uint64) \<Rightarrow> 'ix weighted_ptr list \<Rightarrow> 'ix weighted_ptr list) \<Rightarrow>
   'ix weighted_ptr list \<Rightarrow> ('ix weighted_ptr list \<times> 'ix weighted_ptr list) outcome" where
  "SortInterceptors pdq list =
     (let iList = remove_nils 0 list
      in if 2 \<le> length iList \<and> list_ex IsNil iList then Panic nil_dereference
         else let out = sort_Sort pdq GetWeight iList
              in Ret (out, out @ drop (length out) list))"

section \<open>Chains\<close>

text \<open>The loops \<open>for _, ix := range ... \<open>{\<close> chain = append(chain, ix.Interceptor) \<open>}\<close>\<close>.\<close>

fun append_interceptors :: "'ix list \<Rightarrow> 'ix weighted_ptr list \<Rightarrow> 'ix list outcome" where
  "append_interceptors chain [] = Ret chain"
| "append_interceptors chain (ix # ixs) =
     (case ix of
        None \<Rightarrow> Panic nil_dereference
      | Some w \<Rightarrow> append_interceptors (chain @ [Interceptor w]) ixs)"

definition sorted_chain ::
  "(('ix weighted_ptr \<Rightarrow> uint64) \<Rightarrow> 'ix weighted_ptr list \<Rightarrow> 'ix weighted_ptr list) \<Rightarrow>
   'ix weighted_ptr list \<Rightarrow> 'ix list outcome" where
  "sorted_chain pdq list =
     (case SortInterceptors pdq list of
        Panic p \<Rightarrow> Panic p
      | Ret (out, _) \<Rightarrow> append_interceptors [] out)"

definition WithUnaryClientInterceptors where
  "WithUnaryClientInterceptors = sorted_chain"

definition WithStreamClientInterceptors where
  "WithStreamClientInterceptors = sorted_chain"

definition UnaryServerInterceptors where
  "UnaryServerInterceptors = sorted_chain"

definition StreamServerInterceptors where
  "StreamServerInterceptors = sorted_chain"

lemmas chain_defs = WithUnaryClientInterceptors_def WithStreamClientInterceptors_def
  UnaryServerInterceptors_def StreamServerInterceptors_def

section \<open>The removal loop, structurally\<close>

text \<open>
  \<open>skip_after ps s\<close> is the state of the loop with the entries \<open>ps\<close> before the index: a nil entry
  rotates \<open>ps\<close> and passes over the entry behind it.
\<close>

fun skip_after :: "'ix weighted_ptr list \<Rightarrow> 'ix weighted_ptr list \<Rightarrow> 'ix weighted_ptr list" where
  "skip_after ps [] = ps"
| "skip_after ps (Some w # s) = skip_after (ps @ [Some w]) s"
| "skip_after ps [None] = rotate1 ps"
| "skip_after ps (None # y # s) = skip_after (rotate1 ps @ [y]) s"

fun no_adjacent_nil :: "'ix weighted_ptr list \<Rightarrow> bool" where
  "no_adjacent_nil [] \<longleftrightarrow> True"
| "no_adjacent_nil [x] \<longleftrightarrow> True"
| "no_adjacent_nil (x # y # s) \<longleftrightarrow> \<not> (IsNil x \<and> IsNil y) \<and> no_adjacent_nil (y # s)"

lemma remove_nils_done [simp]: "length xs \<le> i \<Longrightarrow> remove_nils i xs = xs"
  by (subst remove_nils.simps) simp

lemma remove_nils_Some: "remove_nils (length ps) (ps @ Some w # s)
    = remove_nils (Suc (length ps)) (ps @ Some w # s)"
  by (subst remove_nils.simps) (simp add: IsNil_def)

lemma remove_nils_None: "remove_nils (length ps) (ps @ None # s)
    = remove_nils (Suc (length ps)) (rotate1 ps @ s)"
  by (subst remove_nils.simps) (cases ps; simp add: IsNil_def)

lemma remove_nils_eq: "remove_nils (length ps) (ps @ s) = skip_after ps s"
proof (induction ps s rule: skip_after.induct)
  case (2 ps w s)
  then show ?case using remove_nils_Some [of ps w s] by simp
next
  case (3 ps)
  show ?case using remove_nils_None [of ps "[]"] by simp
next
  case (4 ps y s)
  then show ?case using remove_nils_None [of ps "y # s"] by simp
qed simp

lemma remove_nils_0: "remove_nils 0 xs = skip_after [] xs"
  using remove_nils_eq [of "[]" xs] by simp

lemma mset_skip_after_Some:
  "mset (filter (\<lambda>x. \<not> IsNil x) (skip_after ps s)) = mset (filter (\<lambda>x. \<not> IsNil x) (ps @ s))"
  by (induction ps s rule: skip_after.induct) (auto simp: IsNil_def)

lemma no_adjacent_nil_Cons:
  "no_adjacent_nil (None # y # s) \<Longrightarrow> \<not> IsNil y \<and> no_adjacent_nil s"
  by (cases s) (auto simp: IsNil_def)

lemma skip_after_keeps_nil: "None \<in> set ps \<Longrightarrow> None \<in> set (skip_after ps s)"
  by (induction ps s rule: skip_after.induct) auto

lemma skip_after_nil_iff:
  "None \<notin> set (skip_after ps s) \<longleftrightarrow> None \<notin> set ps \<and> no_adjacent_nil s"
proof (induction ps s rule: skip_after.induct)
  case (2 ps w s)
  then show ?case by (cases s) (auto simp: IsNil_def)
next
  case (4 ps y s)
  then show ?case by (cases s; cases y) (auto simp: IsNil_def)
qed auto

lemma length_skip_after: "ps \<noteq> [] \<Longrightarrow> skip_after ps s \<noteq> []"
  by (induction ps s rule: skip_after.induct) auto

section \<open>What the functions compute\<close>

lemma IsNil_set: "list_ex IsNil xs \<longleftrightarrow> None \<in> set xs"
  by (auto simp: list_ex_iff IsNil_def)

lemma append_interceptors_Some:
  "append_interceptors chain (map Some ws) = Ret (chain @ map Interceptor ws)"
  by (induction ws arbitrary: chain) auto

lemma append_interceptors_nil:
  "None \<in> set ixs \<Longrightarrow> append_interceptors chain ixs = Panic nil_dereference"
  by (induction ixs arbitrary: chain) (auto split: option.splits)

lemma all_Some_map: "None \<notin> set xs \<Longrightarrow> xs = map Some (map the xs)"
  by (induction xs) auto

text \<open>The entries of a group that are not nil.\<close>

definition entries :: "'ix weighted_ptr list \<Rightarrow> 'ix weighted list" where
  "entries xs = map the (filter (\<lambda>x. \<not> IsNil x) xs)"

lemma mset_entries_remove_nils: "mset (entries (remove_nils 0 xs)) = mset (entries xs)"
  using mset_skip_after_Some [of "[]" xs]
  by (simp add: entries_def remove_nils_0)

lemma entries_map_Some [simp]: "entries (map Some ws) = ws"
  by (induction ws) (simp_all add: entries_def IsNil_def)

locale chain_sorter = pdq_sorter pdq
  for pdq :: "('ix weighted_ptr \<Rightarrow> uint64) \<Rightarrow> 'ix weighted_ptr list \<Rightarrow> 'ix weighted_ptr list"
begin

lemma SortInterceptors_Ret:
  assumes "no_adjacent_nil list"
  shows "\<exists>ws. SortInterceptors pdq list = Ret (map Some ws, map Some ws @ drop (length ws) list)
           \<and> mset ws = mset (entries list) \<and> sorted (map Weight ws)"
proof -
  let ?out = "sort_Sort pdq GetWeight (remove_nils 0 list)"
  have no: "None \<notin> set (remove_nils 0 list)"
    using assms by (simp add: remove_nils_0 skip_after_nil_iff)
  then have out: "?out = map Some (map the ?out)"
    by (intro all_Some_map) (simp add: go_sort.set_srt)
  have "mset (entries ?out) = mset (entries list)"
    using mset_entries_remove_nils [of list] by (simp add: entries_def go_sort.mset_srt)
  then have "mset (map the ?out) = mset (entries list)"
    by (metis entries_map_Some out)
  moreover have "sorted (map Weight (map the ?out))"
    using go_sort.sorted_srt [of GetWeight "remove_nils 0 list"]
    by (simp add: GetWeight_def [abs_def] comp_def)
  moreover have "SortInterceptors pdq list
      = Ret (map Some (map the ?out), map Some (map the ?out) @ drop (length (map the ?out)) list)"
    using no out by (simp add: SortInterceptors_def IsNil_set Let_def)
  ultimately show ?thesis by blast
qed

lemma sorted_chain_Ret:
  assumes "no_adjacent_nil list"
  shows "\<exists>ws. sorted_chain pdq list = Ret (map Interceptor ws)
           \<and> mset ws = mset (entries list) \<and> sorted (map Weight ws)"
  using SortInterceptors_Ret [OF assms]
  by (auto simp: sorted_chain_def append_interceptors_Some)

end

interpretation chain_insertion: chain_sorter insertionSort
  by unfold_locales

text \<open>Two nil entries in a row leave a nil entry behind, which the chain then dereferences.\<close>

lemma sorted_chain_Panic:
  assumes "\<not> no_adjacent_nil list"
  shows "sorted_chain pdq list = Panic nil_dereference"
proof -
  let ?iList = "remove_nils 0 list"
  have nil: "None \<in> set ?iList"
    using assms skip_after_nil_iff [of "[]" list] by (auto simp: remove_nils_0)
  show ?thesis
  proof (cases "2 \<le> length ?iList")
    case True
    with nil show ?thesis by (simp add: sorted_chain_def SortInterceptors_def IsNil_set)
  next
    case False
    with nil have "sort_Sort pdq GetWeight ?iList = ?iList" by (simp add: sort_Sort_def)
    with False nil show ?thesis
      by (simp add: sorted_chain_def SortInterceptors_def IsNil_set append_interceptors_nil
          Let_def)
  qed
qed

text \<open>Up to twelve interceptors and no nil entry: equal weights keep their order.\<close>

lemma remove_nils_Some_id: "remove_nils 0 (map Some ws) = map Some ws"
proof -
  have "skip_after ps (map Some ws) = ps @ map Some ws" for ps
    by (induction ws arbitrary: ps) auto
  then show ?thesis by (simp add: remove_nils_0)
qed

lemma insort_key_map: "insort_key f (g x) (map g xs) = map g (insort_key (\<lambda>a. f (g a)) x xs)"
  by (induction xs) auto

lemma sort_key_map: "sort_key f (map g xs) = map g (sort_key (\<lambda>a. f (g a)) xs)"
  by (induction xs) (simp_all add: insort_key_map)

lemma sorted_chain_stable:
  assumes "length ws \<le> maxInsertion"
  shows "sorted_chain pdq (map Some ws) = Ret (map Interceptor (sort_key Weight ws))"
proof -
  have no: "\<not> list_ex IsNil (map Some ws)" by (auto simp: list_ex_iff IsNil_def)
  have "sort_Sort pdq GetWeight (map Some ws) = map Some (sort_key Weight ws)"
    using assms by (simp add: sort_Sort_small sort_key_map GetWeight_def)
  then show ?thesis
    using no by (simp add: sorted_chain_def SortInterceptors_def remove_nils_Some_id
        append_interceptors_Some Let_def)
qed

section \<open>Properties\<close>

definition example_group :: "string weighted_ptr list" where
  "example_group =
     [Some \<lparr>Weight = 70, Interceptor = ''auth''\<rparr>, None, Some \<lparr>Weight = 50, Interceptor = ''log''\<rparr>,
      Some \<lparr>Weight = 30, Interceptor = ''trace''\<rparr>]"

text \<open>
  C10: As long as no two neighbours are nil, each of the four functions returns a chain that holds
  exactly the interceptors of the entries that are not nil, none lost and none twice, in ascending
  order of weight, whatever quicksort keeps the contract of \<open>sort.Sort\<close>.
\<close>

theorem interceptor_chain_sorted:
  assumes "sorter pdq" and "no_adjacent_nil list"
    and "chain \<in> {WithUnaryClientInterceptors, WithStreamClientInterceptors,
                  UnaryServerInterceptors, StreamServerInterceptors}"
  shows "\<exists>ws. chain pdq list = Ret (map Interceptor ws)
    \<and> mset ws = mset (entries list) \<and> sorted (map Weight ws)"
proof -
  have "chain_sorter pdq" using assms(1) by (simp add: chain_sorter_def pdq_sorter_def)
  from chain_sorter.sorted_chain_Ret [OF this assms(2)] assms(3) show ?thesis
    by (auto simp: chain_defs)
qed

theorem interceptor_chain_sorted_witness:
  "\<exists>ws. UnaryServerInterceptors insertionSort example_group = Ret (map Interceptor ws)
    \<and> mset ws = mset (entries example_group) \<and> sorted (map Weight ws)"
  by (rule interceptor_chain_sorted [OF insertion.sorter_axioms])
    (simp_all add: example_group_def IsNil_def)

text \<open>
  C38: Nil entries are not always removed: the loop leaves one behind exactly when two neighbours are
  nil, and then building the chain panics with a nil dereference.
\<close>

theorem interceptor_chain_panics:
  assumes "sorter pdq"
  shows "(\<exists>p. UnaryServerInterceptors pdq list = Panic p) \<longleftrightarrow> \<not> no_adjacent_nil list"
proof -
  have "chain_sorter pdq" using assms(1) by (simp add: chain_sorter_def pdq_sorter_def)
  from chain_sorter.sorted_chain_Ret [OF this, of list] show ?thesis
    using sorted_chain_Panic [of list pdq] by (cases "no_adjacent_nil list") (auto simp: chain_defs)
qed

theorem interceptor_chain_panics_witness:
  "\<exists>p. UnaryServerInterceptors insertionSort [None, None, Some \<lparr>Weight = 1, Interceptor = ''log''\<rparr>] = Panic p"
  using interceptor_chain_panics [OF insertion.sorter_axioms,
      of "[None, None, Some \<lparr>Weight = 1, Interceptor = ''log''\<rparr>]"]
  by (simp add: IsNil_def)

text \<open>
  With at most twelve entries, none of them nil, interceptors of equal weight keep the order in
  which they were provided.
\<close>

theorem interceptor_chain_stable:
  assumes "length ws \<le> 12"
  shows "StreamServerInterceptors pdq (map Some ws) = Ret (map Interceptor (sort_key Weight ws))"
  using sorted_chain_stable [of ws pdq] assms by (simp add: chain_defs maxInsertion_def)

theorem interceptor_chain_stable_witness:
  "StreamServerInterceptors insertionSort (map Some [\<lparr>Weight = 50, Interceptor = ''log''\<rparr>,
     \<lparr>Weight = 30, Interceptor = ''trace''\<rparr>, \<lparr>Weight = 50, Interceptor = ''log2''\<rparr>])
   = Ret [''trace'', ''log'', ''log2'']"
  by (subst interceptor_chain_stable) simp_all

end
