(* ===== verification/Logging.thy ===== *)
theory Logging
  imports Grpc Interceptors
begin

text \<open>
  The logging interceptors (src/fxlogging/interceptor): configuration and levels (config.go), trace ids
  and loggers in contexts (context.go), the reporter and the unary and stream interceptors of servers
  and clients (logging_interceptor.go), and the interceptors that inject a logger or the name of the
  calling service. The clock, fresh identifiers, the environment of the process and the payloads are
  parameters.
\<close>

section \<open>The world of a call\<close>

record 'x world =
  logs :: "entry list"
  ulids :: nat
  ticks :: nat
  outside :: 'x

record 'q log_env =
  ulid :: "nat \<Rightarrow> string"
  clock :: "nat \<Rightarrow> int"
  otel_service :: string
  executable :: "string result"
  isProto :: "'q \<Rightarrow> bool"
  showPayload :: "'q \<Rightarrow> string"
  development :: bool

definition time_Now :: "'q log_env \<Rightarrow> 'x world \<Rightarrow> int \<times> 'x world" where
  "time_Now env w = (clock env (ticks w), w\<lparr>ticks := Suc (ticks w)\<rparr>)"

definition write_log :: "entry \<Rightarrow> 'x world \<Rightarrow> 'x world" where
  "write_log e w = w\<lparr>logs := logs w @ [e]\<rparr>"

text \<open>
  A call of zap at a given level, here with the process exit of the fatal level as a panic: the entry is
  written and control may not come back. Whether the core keeps the entry depends on the level and the
  sampling it is configured with, which are not part of the model.
\<close>

definition zap_Log :: "'q log_env \<Rightarrow> level \<Rightarrow> logger \<Rightarrow> string \<Rightarrow> field list \<Rightarrow> 'x world \<Rightarrow> unit outcome \<times> 'x world" where
  "zap_Log env l lg msg fs w =
     (if l = PanicLevel \<or> l = FatalLevel \<or> l = DPanicLevel \<and> development env then Panic msg else Ret (),
      write_log (log_at l lg msg fs) w)"

lemma zap_Log_error_level [simp]:
  "l \<le> ErrorLevel \<Longrightarrow> zap_Log env l lg msg fs w = (Ret (), write_log (log_at l lg msg fs) w)"
  by (cases l) (simp_all add: zap_Log_def less_eq_level_def)

section \<open>context.go\<close>

definition contextWithTraceId :: "string \<Rightarrow> 'cert ctx \<Rightarrow> 'cert ctx" where
  "contextWithTraceId traceid c = c\<lparr>trace_value := Some traceid\<rparr>"

definition traceIdFromContext :: "'q log_env \<Rightarrow> 'cert ctx \<Rightarrow> 'x world \<Rightarrow> (string \<times> bool) \<times> 'x world" where
  "traceIdFromContext env c w =
     (let other = (case span_trace c of
                     Some t \<Rightarrow> ((t, True), w)
                   | None \<Rightarrow> ((''local-'' @ ulid env (ulids w), False), w\<lparr>ulids := Suc (ulids w)\<rparr>))
      in case trace_value c of
           None \<Rightarrow> other
         | Some s \<Rightarrow> if s \<noteq> [] then ((s, True), w) else other)"

definition ContextWithLogger :: "logger \<Rightarrow> 'cert ctx \<Rightarrow> 'cert ctx" where
  "ContextWithLogger lg c = c\<lparr>logger_value := Some lg\<rparr>"

text \<open>\<open>None\<close> is the logger that drops everything.\<close>

definition LoggerFromContext :: "'cert ctx \<Rightarrow> logger option" where
  "LoggerFromContext c = logger_value c"

section \<open>config.go\<close>

datatype InterceptorInfo =
    UnaryClient string
  | StreamClient string
  | UnaryServer string
  | StreamServer string
  | UndefinedInterceptor

definition splitMethod :: "string \<Rightarrow> string \<times> string" where
  "splitMethod fullMethod =
     (let m = TrimPrefix fullMethod ''/''
      in case Index m ''/'' of
           Some i \<Rightarrow> (take i m, drop (i + 1) m)
         | None \<Rightarrow> (''unknown'', ''unknown''))"

fun MethodFromInterceptorInfo :: "InterceptorInfo \<Rightarrow> string \<times> string" where
  "MethodFromInterceptorInfo (StreamClient m) = splitMethod m"
| "MethodFromInterceptorInfo (UnaryClient m) = splitMethod m"
| "MethodFromInterceptorInfo (StreamServer m) = splitMethod m"
| "MethodFromInterceptorInfo (UnaryServer m) = splitMethod m"
| "MethodFromInterceptorInfo UndefinedInterceptor = (''unknown'', ''unknown'')"

record 'q interceptorConfig =
  levelFunc :: "InterceptorInfo \<Rightarrow> code \<Rightarrow> level"
  logFilter :: "InterceptorInfo \<Rightarrow> bool"
  payloadFilter :: "InterceptorInfo \<Rightarrow> bool"
  startLogFilter :: "InterceptorInfo \<Rightarrow> bool"
  extraFieldsFunc :: "logger \<Rightarrow> InterceptorInfo \<Rightarrow> 'q option \<Rightarrow> logger"

type_synonym 'q option_func = "'q interceptorConfig \<Rightarrow> 'q interceptorConfig"

definition WithLevelFunc :: "(InterceptorInfo \<Rightarrow> code \<Rightarrow> level) \<Rightarrow> 'q option_func" where
  "WithLevelFunc f c = c\<lparr>levelFunc := f\<rparr>"

definition WithExtraFieldsFunc :: "(logger \<Rightarrow> InterceptorInfo \<Rightarrow> 'q option \<Rightarrow> logger) \<Rightarrow> 'q option_func" where
  "WithExtraFieldsFunc f c = c\<lparr>extraFieldsFunc := f\<rparr>"

definition WithLogFilter :: "(InterceptorInfo \<Rightarrow> bool) \<Rightarrow> 'q option_func" where
  "WithLogFilter f c = c\<lparr>logFilter := f\<rparr>"

definition WithPayloadFilter :: "(InterceptorInfo \<Rightarrow> bool) \<Rightarrow> 'q option_func" where
  "WithPayloadFilter f c = c\<lparr>payloadFilter := f\<rparr>"

definition WithStartLogFilter :: "(InterceptorInfo \<Rightarrow> bool) \<Rightarrow> 'q option_func" where
  "WithStartLogFilter f c = c\<lparr>startLogFilter := f\<rparr>"

definition defaultExtraFieldsFunc :: "logger \<Rightarrow> InterceptorInfo \<Rightarrow> 'q option \<Rightarrow> logger" where
  "defaultExtraFieldsFunc lg info payload = lg"

definition AllowAllFilter :: "InterceptorInfo \<Rightarrow> bool" where
  "AllowAllFilter info \<longleftrightarrow> True"

definition DenyAllFilter :: "InterceptorInfo \<Rightarrow> bool" where
  "DenyAllFilter info \<longleftrightarrow> False"

fun server_level :: "code \<Rightarrow> level" where
  "server_level OK = InfoLevel"
| "server_level Canceled = InfoLevel"
| "server_level Unknown = ErrorLevel"
| "server_level InvalidArgument = InfoLevel"
| "server_level DeadlineExceeded = WarnLevel"
| "server_level NotFound = InfoLevel"
| "server_level AlreadyExists = WarnLevel"
| "server_level PermissionDenied = WarnLevel"
| "server_level Unauthenticated = InfoLevel"
| "server_level ResourceExhausted = WarnLevel"
| "server_level FailedPrecondition = WarnLevel"
| "server_level Aborted = WarnLevel"
| "server_level OutOfRange = WarnLevel"
| "server_level Unimplemented = ErrorLevel"
| "server_level Internal = ErrorLevel"
| "server_level Unavailable = ErrorLevel"
| "server_level DataLoss = ErrorLevel"
| "server_level (OtherCode n) = ErrorLevel"

definition DefaultServerCodeToLevel :: "InterceptorInfo \<Rightarrow> code \<Rightarrow> level" where
  "DefaultServerCodeToLevel info cd =
     (if fst (MethodFromInterceptorInfo info) = ''grpc.health.v1.Health'' \<and> cd = OK then DebugLevel
      else server_level cd)"

fun DefaultClientCodeToLevel :: "InterceptorInfo \<Rightarrow> code \<Rightarrow> level" where
  "DefaultClientCodeToLevel info OK = DebugLevel"
| "DefaultClientCodeToLevel info Canceled = DebugLevel"
| "DefaultClientCodeToLevel info Unknown = ErrorLevel"
| "DefaultClientCodeToLevel info InvalidArgument = InfoLevel"
| "DefaultClientCodeToLevel info DeadlineExceeded = WarnLevel"
| "DefaultClientCodeToLevel info NotFound = InfoLevel"
| "DefaultClientCodeToLevel info AlreadyExists = DebugLevel"
| "DefaultClientCodeToLevel info PermissionDenied = WarnLevel"
| "DefaultClientCodeToLevel info Unauthenticated = InfoLevel"
| "DefaultClientCodeToLevel info ResourceExhausted = WarnLevel"
| "DefaultClientCodeToLevel info FailedPrecondition = WarnLevel"
| "DefaultClientCodeToLevel info Aborted = WarnLevel"
| "DefaultClientCodeToLevel info OutOfRange = WarnLevel"
| "DefaultClientCodeToLevel info Unimplemented = ErrorLevel"
| "DefaultClientCodeToLevel info Internal = ErrorLevel"
| "DefaultClientCodeToLevel info Unavailable = ErrorLevel"
| "DefaultClientCodeToLevel info DataLoss = ErrorLevel"
| "DefaultClientCodeToLevel info (OtherCode n) = ErrorLevel"

definition newInterceptorConfig :: "'q option_func list \<Rightarrow> 'q interceptorConfig" where
  "newInterceptorConfig opts =
     fold (\<lambda>opt c. opt c) opts
       \<lparr>levelFunc = DefaultServerCodeToLevel, logFilter = AllowAllFilter, payloadFilter = DenyAllFilter,
        startLogFilter = DenyAllFilter, extraFieldsFunc = defaultExtraFieldsFunc\<rparr>"

section \<open>The reporter\<close>

definition serviceName :: "'q log_env \<Rightarrow> string" where
  "serviceName env =
     (let svcName = TrimSpace (otel_service env)
      in if svcName \<noteq> [] then svcName
         else case executable env of
                Inr ex \<Rightarrow> if ex \<noteq> [] then path_Base ex else ''unknown_service''
              | Inl _ \<Rightarrow> ''unknown_service'')"

definition peerServiceMDKey :: string where
  "peerServiceMDKey = ''peer.service''"

definition peerService :: "'cert ctx \<Rightarrow> string option outcome" where
  "peerService c =
     (case FromIncomingContext c of
        None \<Rightarrow> Ret None
      | Some m \<Rightarrow> (case m peerServiceMDKey of
                    None \<Rightarrow> Ret None
                  | Some ps \<Rightarrow> if ps = [] then Panic index_out_of_range else Ret (Some (last ps))))"

record 'q reporter =
  rep_svcName :: string
  rep_conf :: "'q interceptorConfig"
  rep_logger :: logger

datatype logEvent = logEventStart | logEventEnd | logEventMessage

definition deadline_fields :: "'cert ctx \<Rightarrow> field list" where
  "deadline_fields c = (case Deadline c of None \<Rightarrow> [] | Some t \<Rightarrow> [Time ''rpc.request.deadline'' t])"

definition peer_fields :: "'cert ctx \<Rightarrow> field list" where
  "peer_fields c =
     (case peer c of
        None \<Rightarrow> []
      | Some p \<Rightarrow> (case peer_Addr p of
                    TCPAddr ip port \<Rightarrow> [String ''sock.net.peer.address'' ip, Integer ''sock.net.peer.port'' port]
                  | OtherAddr s \<Rightarrow> [String ''sock.net.peer.address'' s]))"

text \<open>A payload that is not a protobuf message is reported with \<open>DPanic\<close>, which panics in development mode.\<close>

definition add_payload ::
  "'q log_env \<Rightarrow> 'q reporter \<Rightarrow> InterceptorInfo \<Rightarrow> 'q option \<Rightarrow> logger \<Rightarrow> 'x world \<Rightarrow> logger outcome \<times> 'x world" where
  "add_payload env r info payload lg w =
     (case payload of
        None \<Rightarrow> (Ret lg, w)
      | Some p \<Rightarrow>
          if \<not> payloadFilter (rep_conf r) info then (Ret lg, w)
          else if isProto env p then (Ret (lg @ [Any ''rpc.request.content'' (showPayload env p)]), w)
          else (case zap_Log env DPanicLevel lg ''payload is not a google.golang.org/protobuf/proto.Message''
                       [Any ''msg'' (showPayload env p)] w of
                  (Panic e, w1) \<Rightarrow> (Panic e, w1)
                | (Ret _, w1) \<Rightarrow> (Ret lg, w1)))"

definition Log ::
  "'q log_env \<Rightarrow> 'q reporter \<Rightarrow> 'cert ctx \<Rightarrow> InterceptorInfo \<Rightarrow> int \<Rightarrow> logEvent \<Rightarrow> 'q option \<Rightarrow> rpc_error option \<Rightarrow>
   'x world \<Rightarrow> unit outcome \<times> 'x world" where
  "Log env r c info startTime event payload handleErr w =
     (let cd = status_Code handleErr; lvl = levelFunc (rep_conf r) info cd
      in case traceIdFromContext env c w of ((traceid, _), w1) \<Rightarrow>
         (case MethodFromInterceptorInfo info of (svc, meth) \<Rightarrow>
          let lg1 = rep_logger r @
                [String ''rpc.system'' ''grpc'', String ''service.name'' (rep_svcName r), String ''rpc.method'' meth,
                 String ''rpc.service'' svc, Time ''rpc.request.start_time'' startTime, String ''otlp.trace_id'' traceid]
          in case (if event = logEventEnd
                   then (case time_Now env w1 of (t, w2) \<Rightarrow>
                           (lg1 @ [Duration ''rpc.request.duration'' (t - startTime),
                                   String ''rpc.grpc.status_code'' (code_String cd)], w2))
                   else (lg1, w1)) of
               (lg2, w2) \<Rightarrow>
                 (case peerService c of
                    Panic p \<Rightarrow> (Panic p, w2)
                  | Ret ps \<Rightarrow>
                      let lg3 = lg2 @ deadline_fields c @ peer_fields c
                                @ (case ps of None \<Rightarrow> [] | Some s \<Rightarrow> [String ''peer.service'' s]);
                          lg4 = extraFieldsFunc (rep_conf r) lg3 info payload
                      in case add_payload env r info payload lg4 w2 of
                           (Panic p, w3) \<Rightarrow> (Panic p, w3)
                         | (Ret lg5, w3) \<Rightarrow>
                             let lg6 = lg5 @ (case handleErr of None \<Rightarrow> [] | Some e \<Rightarrow> [ErrorField (rpc_go_error e)])
                             in zap_Log env lvl lg6 (if event = logEventStart then ''started call'' else ''finished call'') [] w3)))"

section \<open>Unary interceptors\<close>

definition new_reporter :: "'q log_env \<Rightarrow> logger \<Rightarrow> 'q option_func list \<Rightarrow> 'q reporter" where
  "new_reporter env lg opts =
     \<lparr>rep_svcName = serviceName env, rep_conf = newInterceptorConfig opts, rep_logger = lg\<rparr>"

text \<open>The code before the call of the handler, and the code behind it.\<close>

definition log_start ::
  "'q log_env \<Rightarrow> 'q reporter \<Rightarrow> 'cert ctx \<Rightarrow> InterceptorInfo \<Rightarrow> int \<Rightarrow> 'q option \<Rightarrow> 'x world \<Rightarrow> unit outcome \<times> 'x world" where
  "log_start env r c info t payload w =
     (if logFilter (rep_conf r) info \<and> startLogFilter (rep_conf r) info
      then Log env r c info t logEventStart payload None w else (Ret (), w))"

definition log_end ::
  "'q log_env \<Rightarrow> 'q reporter \<Rightarrow> 'cert ctx \<Rightarrow> InterceptorInfo \<Rightarrow> int \<Rightarrow> 'q option \<Rightarrow> rpc_error option \<Rightarrow> 'x world \<Rightarrow>
   unit outcome \<times> 'x world" where
  "log_end env r c info t payload err w =
     (if \<not> logFilter (rep_conf r) info then (Ret (), w)
      else Log env r c info t logEventEnd payload err w)"

definition NewLoggingUnaryServerInterceptor ::
  "'q log_env \<Rightarrow> logger \<Rightarrow> 'q option_func list \<Rightarrow> ('cert ctx, 'q, 'a, 'x world) unary_interceptor" where
  "NewLoggingUnaryServerInterceptor env lg opts c req fullMethod handler w =
     (let r = new_reporter env lg opts; info = UnaryServer fullMethod
      in case time_Now env w of (t, w0) \<Rightarrow>
         (case log_start env r c info t (Some req) w0 of
            (Panic p, w1) \<Rightarrow> (Panic p, w1)
          | (Ret _, w1) \<Rightarrow>
              (case handler c req w1 of
                 (Panic p, w2) \<Rightarrow> (Panic p, w2)
               | (Ret (resp, err), w2) \<Rightarrow>
                   (case log_end env r c info t (Some req) err w2 of
                      (Panic p, w3) \<Rightarrow> (Panic p, w3)
                    | (Ret _, w3) \<Rightarrow> (Ret (resp, err), w3)))))"

definition NewLoggingUnaryClientInterceptor ::
  "'q log_env \<Rightarrow> logger \<Rightarrow> 'q option_func list \<Rightarrow> 'cert ctx \<Rightarrow> string \<Rightarrow> 'q \<Rightarrow>
   ('cert ctx \<Rightarrow> string \<Rightarrow> 'q \<Rightarrow> 'x world \<Rightarrow> rpc_error option outcome \<times> 'x world) \<Rightarrow>
   'x world \<Rightarrow> rpc_error option outcome \<times> 'x world" where
  "NewLoggingUnaryClientInterceptor env lg opts c meth req invoker w =
     (let r = new_reporter env lg (WithLevelFunc DefaultClientCodeToLevel # opts); info = UnaryClient meth
      in case time_Now env w of (t, w0) \<Rightarrow>
         (case log_start env r c info t (Some req) w0 of
            (Panic p, w1) \<Rightarrow> (Panic p, w1)
          | (Ret _, w1) \<Rightarrow>
              (case invoker c meth req w1 of
                 (Panic p, w2) \<Rightarrow> (Panic p, w2)
               | (Ret err, w2) \<Rightarrow>
                   (case log_end env r c info t (Some req) err w2 of
                      (Panic p, w3) \<Rightarrow> (Panic p, w3)
                    | (Ret _, w3) \<Rightarrow> (Ret err, w3)))))"

section \<open>The injecting interceptors\<close>

definition inject_logger :: "'q log_env \<Rightarrow> logger \<Rightarrow> 'cert ctx \<Rightarrow> 'x world \<Rightarrow> 'cert ctx \<times> 'x world" where
  "inject_logger env lg c w =
     (case traceIdFromContext env c w of ((traceid, ok), w1) \<Rightarrow>
        let c1 = (if \<not> ok then contextWithTraceId traceid c else c)
        in (ContextWithLogger (lg @ [String ''otlp.trace_id'' traceid]) c1, w1))"

definition NewInjectLoggerUnaryServerInterceptor ::
  "'q log_env \<Rightarrow> logger \<Rightarrow> ('cert ctx, 'q, 'a, 'x world) unary_interceptor" where
  "NewInjectLoggerUnaryServerInterceptor env lg c req fullMethod handler w =
     (case inject_logger env lg c w of (c1, w1) \<Rightarrow> handler c1 req w1)"

text \<open>The handler of a stream sees the stream's context, here an argument of its own.\<close>

definition NewInjectLoggerStreamServerInterceptor ::
  "'q log_env \<Rightarrow> logger \<Rightarrow> 'cert ctx \<Rightarrow> 's \<Rightarrow> ('cert ctx \<Rightarrow> 's \<Rightarrow> 'x world \<Rightarrow> 'r \<times> 'x world) \<Rightarrow> 'x world \<Rightarrow> 'r \<times> 'x world" where
  "NewInjectLoggerStreamServerInterceptor env lg c ss handler w =
     (case inject_logger env lg c w of (c1, w1) \<Rightarrow> handler c1 ss w1)"

definition NewInjectPeerUnaryClientInterceptor ::
  "'q log_env \<Rightarrow> 'cert ctx \<Rightarrow> string \<Rightarrow> 'q \<Rightarrow> ('cert ctx \<Rightarrow> string \<Rightarrow> 'q \<Rightarrow> 'w \<Rightarrow> 'r) \<Rightarrow> 'w \<Rightarrow> 'r" where
  "NewInjectPeerUnaryClientInterceptor env c meth req invoker w =
     invoker (AppendToOutgoingContext peerServiceMDKey (serviceName env) c) meth req w"

definition NewInjectPeerStreamClientInterceptor ::
  "'q log_env \<Rightarrow> 'cert ctx \<Rightarrow> string \<Rightarrow> ('cert ctx \<Rightarrow> string \<Rightarrow> 'w \<Rightarrow> 'r) \<Rightarrow> 'w \<Rightarrow> 'r" where
  "NewInjectPeerStreamClientInterceptor env c meth streamer w =
     streamer (AppendToOutgoingContext peerServiceMDKey (serviceName env) c) meth w"

section \<open>What one call of the reporter does\<close>

text \<open>gRPC never delivers a metadata key without a value.\<close>

definition wf_ctx :: "'cert ctx \<Rightarrow> bool" where
  "wf_ctx c \<longleftrightarrow> (\<forall>m. incoming c = Some m \<longrightarrow> (\<forall>kv \<in> set m. snd kv \<noteq> []))"

lemma lower_keys_values:
  assumes "\<forall>kv \<in> set m. snd kv \<noteq> []" and "\<forall>k. out k \<noteq> Some []"
  shows "lower_keys m out k \<noteq> Some []"
  using assms
proof (induction m arbitrary: out)
  case (Cons kv m)
  obtain k' v where kv: "kv = (k', v)" by fastforce
  have "\<forall>k. (out(ToLower k' \<mapsto> v)) k \<noteq> Some []" using Cons.prems kv by simp
  then have "lower_keys m (out(ToLower k' \<mapsto> v)) k \<noteq> Some []" using Cons.prems(1) by (intro Cons.IH) simp_all
  then show ?case unfolding kv lower_keys.simps .
qed simp

lemma peerService_Ret: "wf_ctx c \<Longrightarrow> \<exists>ps. peerService c = Ret ps"
  using lower_keys_values [of _ Map.empty]
  by (fastforce simp: peerService_def FromIncomingContext_def wf_ctx_def split: option.splits)

definition plain_payload :: "'q log_env \<Rightarrow> 'q interceptorConfig \<Rightarrow> InterceptorInfo \<Rightarrow> 'q option \<Rightarrow> bool" where
  "plain_payload env cf info payload \<longleftrightarrow>
     (case payload of None \<Rightarrow> True | Some p \<Rightarrow> isProto env p \<or> \<not> payloadFilter cf info)"

definition payload_fs :: "'q log_env \<Rightarrow> 'q interceptorConfig \<Rightarrow> InterceptorInfo \<Rightarrow> 'q option \<Rightarrow> field list" where
  "payload_fs env cf info payload =
     (case payload of None \<Rightarrow> []
      | Some p \<Rightarrow> if payloadFilter cf info then [Any ''rpc.request.content'' (showPayload env p)] else [])"

lemma add_payload_Ret:
  "plain_payload env (rep_conf r) info payload \<Longrightarrow>
     add_payload env r info payload lg w = (Ret (lg @ payload_fs env (rep_conf r) info payload), w)"
  by (auto simp: add_payload_def plain_payload_def payload_fs_def split: option.splits)

lemma traceIdFromContext_world:
  "traceIdFromContext env c w = (x, w') \<Longrightarrow> outside w' = outside w \<and> logs w' = logs w"
  by (auto simp: traceIdFromContext_def Let_def split: option.splits if_splits)

lemma time_Now_world [simp]:
  "outside (snd (time_Now env w)) = outside w" "logs (snd (time_Now env w)) = logs w"
  by (simp_all add: time_Now_def)

text \<open>The entry that \<open>Log\<close> writes, up to the fields.\<close>

definition is_entry :: "level \<Rightarrow> string \<Rightarrow> entry \<Rightarrow> bool" where
  "is_entry l msg e \<longleftrightarrow> entry_level e = l \<and> entry_msg e = msg"

definition event_msg :: "logEvent \<Rightarrow> string" where
  "event_msg ev = (if ev = logEventStart then ''started call'' else ''finished call'')"

lemma Log_Ret:
  assumes "wf_ctx c" and "plain_payload env (rep_conf r) info payload"
    and "levelFunc (rep_conf r) info (status_Code err) \<le> ErrorLevel"
  shows "\<exists>e w'. Log env r c info t ev payload err w = (Ret (), w') \<and> outside w' = outside w
    \<and> logs w' = logs w @ [e]
    \<and> is_entry (levelFunc (rep_conf r) info (status_Code err)) (event_msg ev) e
    \<and> set (payload_fs env (rep_conf r) info payload) \<subseteq> set (entry_fields e)
    \<and> (extraFieldsFunc (rep_conf r) = defaultExtraFieldsFunc \<longrightarrow>
        String ''otlp.trace_id'' (fst (fst (traceIdFromContext env c w))) \<in> set (entry_fields e)
        \<and> (ev = logEventEnd \<longrightarrow> String ''rpc.grpc.status_code'' (code_String (status_Code err)) \<in> set (entry_fields e))
        \<and> (\<forall>svc. peerService c = Ret (Some svc) \<longrightarrow> String ''peer.service'' svc \<in> set (entry_fields e)))"
proof -
  obtain tid ok w1 where tr: "traceIdFromContext env c w = ((tid, ok), w1)" by (metis surj_pair)
  obtain svc meth where m: "MethodFromInterceptorInfo info = (svc, meth)" by fastforce
  obtain ps where ps: "peerService c = Ret ps" using peerService_Ret [OF assms(1)] by blast
  define w2 where "w2 = (if ev = logEventEnd then snd (time_Now env w1) else w1)"
  have w2: "outside w2 = outside w" "logs w2 = logs w"
    using traceIdFromContext_world [OF tr] by (simp_all add: w2_def)
  show ?thesis
  proof (cases "ev = logEventEnd")
    case True
    then show ?thesis
      using tr m ps w2 assms(3)
      by (simp add: Log_def Let_def time_Now_def write_log_def log_at_def is_entry_def event_msg_def w2_def
          add_payload_Ret [OF assms(2)] defaultExtraFieldsFunc_def) blast
  next
    case False
    then show ?thesis
      using tr m ps w2 assms(3)
      by (simp add: Log_def Let_def write_log_def log_at_def is_entry_def event_msg_def w2_def
          add_payload_Ret [OF assms(2)] defaultExtraFieldsFunc_def) blast
  qed
qed

text \<open>The bracket around a handler: an optional start entry, and an end entry unless filtered.\<close>

lemma log_start_Ret:
  assumes "wf_ctx c" and "plain_payload env (rep_conf r) info payload"
    and "\<And>cd. levelFunc (rep_conf r) info cd \<le> ErrorLevel"
  shows "\<exists>w' pre. log_start env r c info t payload w = (Ret (), w') \<and> outside w' = outside w \<and> logs w' = logs w @ pre
    \<and> length pre = (if logFilter (rep_conf r) info \<and> startLogFilter (rep_conf r) info then 1 else 0)"
proof (cases "logFilter (rep_conf r) info \<and> startLogFilter (rep_conf r) info")
  case True
  from Log_Ret [OF assms(1,2) assms(3), of t logEventStart None w] obtain e w'
    where "Log env r c info t logEventStart payload None w = (Ret (), w')" "outside w' = outside w" "logs w' = logs w @ [e]"
    by blast
  with True show ?thesis by (intro exI [of _ w'] exI [of _ "[e]"]) (simp add: log_start_def)
next
  case False
  then have "log_start env r c info t payload w = (Ret (), w)" by (auto simp: log_start_def)
  with False show ?thesis by (intro exI [of _ w] exI [of _ "[]"]) auto
qed

lemma log_end_Ret:
  assumes "wf_ctx c" and "plain_payload env (rep_conf r) info payload"
    and "\<And>cd. levelFunc (rep_conf r) info cd \<le> ErrorLevel"
  shows "\<exists>w' post. log_end env r c info t payload err w = (Ret (), w') \<and> outside w' = outside w \<and> logs w' = logs w @ post
    \<and> (if logFilter (rep_conf r) info
       then \<exists>e. post = [e] \<and> is_entry (levelFunc (rep_conf r) info (status_Code err)) ''finished call'' e
         \<and> set (payload_fs env (rep_conf r) info payload) \<subseteq> set (entry_fields e)
       else post = [])"
proof (cases "logFilter (rep_conf r) info")
  case True
  from Log_Ret [OF assms(1,2) assms(3), of t logEventEnd err w] obtain e w'
    where "Log env r c info t logEventEnd payload err w = (Ret (), w')" "outside w' = outside w" "logs w' = logs w @ [e]"
      "is_entry (levelFunc (rep_conf r) info (status_Code err)) ''finished call'' e"
      "set (payload_fs env (rep_conf r) info payload) \<subseteq> set (entry_fields e)"
    by (auto simp: event_msg_def)
  with True show ?thesis by (intro exI [of _ w'] exI [of _ "[e]"]) (simp add: log_end_def)
next
  case False
  then show ?thesis by (intro exI [of _ w] exI [of _ "[]"]) (simp add: log_end_def)
qed

lemma traceIdFromContext_injected:
  assumes "inject_logger env lg c w = (c1, w1)" and "span_trace c \<noteq> Some []"
  shows "\<exists>tid. LoggerFromContext c1 = Some (lg @ [String ''otlp.trace_id'' tid])
    \<and> (\<forall>w' :: 'x world. traceIdFromContext env c1 w' = ((tid, True), w'))
    \<and> incoming c1 = incoming c \<and> peer c1 = peer c \<and> outside w1 = outside w \<and> logs w1 = logs w"
  using assms
  by (auto simp: inject_logger_def traceIdFromContext_def contextWithTraceId_def ContextWithLogger_def LoggerFromContext_def
      Let_def split: option.splits if_splits)

text \<open>The default levels never stop the process.\<close>

lemma server_level_le: "server_level cd \<le> ErrorLevel"
  by (cases cd) (simp_all add: less_eq_level_def)

lemma DefaultServerCodeToLevel_le [simp]: "DefaultServerCodeToLevel info cd \<le> ErrorLevel"
  using server_level_le [of cd] by (simp add: DefaultServerCodeToLevel_def less_eq_level_def)

lemma DefaultClientCodeToLevel_le [simp]: "DefaultClientCodeToLevel info cd \<le> ErrorLevel"
  by (cases cd) (simp_all add: less_eq_level_def)

text \<open>The injecting and the logging interceptor in this order, with the default configuration.\<close>

lemma default_config:
  "logFilter (rep_conf (new_reporter env lg [])) info" "\<not> startLogFilter (rep_conf (new_reporter env lg [])) info"
  "\<not> payloadFilter (rep_conf (new_reporter env lg [])) info"
  "extraFieldsFunc (rep_conf (new_reporter env lg [])) = defaultExtraFieldsFunc"
  "levelFunc (rep_conf (new_reporter env lg [])) = DefaultServerCodeToLevel"
  by (simp_all add: new_reporter_def newInterceptorConfig_def AllowAllFilter_def DenyAllFilter_def)

text \<open>The end entry with the default options.\<close>

definition end_entry :: "InterceptorInfo \<Rightarrow> 'cert ctx \<Rightarrow> string \<Rightarrow> rpc_error option \<Rightarrow> entry \<Rightarrow> bool" where
  "end_entry info c tid err e \<longleftrightarrow>
     is_entry (DefaultServerCodeToLevel info (status_Code err)) ''finished call'' e
     \<and> String ''otlp.trace_id'' tid \<in> set (entry_fields e)
     \<and> String ''rpc.grpc.status_code'' (code_String (status_Code err)) \<in> set (entry_fields e)
     \<and> (\<forall>svc. peerService c = Ret (Some svc) \<longrightarrow> String ''peer.service'' svc \<in> set (entry_fields e))"

lemma default_log_end:
  assumes "wf_ctx c"
  shows "\<exists>e w'. log_end env (new_reporter env lg []) c info t payload err w = (Ret (), w') \<and> outside w' = outside w
    \<and> logs w' = logs w @ [e] \<and> end_entry info c (fst (fst (traceIdFromContext env c w))) err e"
proof -
  have "plain_payload env (rep_conf (new_reporter env lg [])) info payload"
    using default_config(3) by (auto simp: plain_payload_def split: option.splits)
  from Log_Ret [OF assms this, of err t logEventEnd w] show ?thesis
    by (auto simp: default_config log_end_def end_entry_def event_msg_def)
qed

lemma default_logging:
  fixes w :: "'x world" and env :: "'q log_env"
  assumes "wf_ctx c" and "NewLoggingUnaryServerInterceptor env lg [] c req fm h w = ix"
  obtains w1 where "outside w1 = outside w" "logs w1 = logs w"
    "\<And>p w2. h c req w1 = (Panic p, w2) \<Longrightarrow> ix = (Panic p, w2)"
    "\<And>resp err w2. h c req w1 = (Ret (resp, err), w2) \<Longrightarrow>
       \<exists>e w3. ix = (Ret (resp, err), w3) \<and> outside w3 = outside w2 \<and> logs w3 = logs w2 @ [e]
         \<and> end_entry (UnaryServer fm) c (fst (fst (traceIdFromContext env c w2))) err e"
proof -
  let ?r = "new_reporter env lg []" and ?info = "UnaryServer fm"
  obtain t w1 where t: "time_Now env w = (t, w1)" "outside w1 = outside w" "logs w1 = logs w" by (simp add: time_Now_def)
  have st: "log_start env ?r c ?info t (Some req) w1 = (Ret (), w1)" by (simp add: log_start_def default_config)
  note run = assms(2) [symmetric, unfolded NewLoggingUnaryServerInterceptor_def Let_def t(1) prod.case st outcome.case]
  have "\<exists>e w3. ix = (Ret (resp, err), w3) \<and> outside w3 = outside w2 \<and> logs w3 = logs w2 @ [e]
         \<and> end_entry ?info c (fst (fst (traceIdFromContext env c w2))) err e"
    if "h c req w1 = (Ret (resp, err), w2)" for resp err w2
    using run that default_log_end [OF assms(1), of env lg ?info t "Some req" err w2] by auto
  with run t show ?thesis by (intro that [of w1]) auto
qed

lemma injected_logging:
  fixes w :: "'x world" and env :: "'q log_env"
  assumes "wf_ctx c" and "span_trace c \<noteq> Some []"
    and ix_def: "NewInjectLoggerUnaryServerInterceptor env lg0 c req fm
           (\<lambda>c1 q. NewLoggingUnaryServerInterceptor env lg [] c1 q fm h) w = ix"
  obtains tid c1 w1 where "LoggerFromContext c1 = Some (lg0 @ [String ''otlp.trace_id'' tid])"
    "incoming c1 = incoming c" "peer c1 = peer c" "outside w1 = outside w" "logs w1 = logs w"
    "\<And>p w2. h c1 req w1 = (Panic p, w2) \<Longrightarrow> ix = (Panic p, w2)"
    "\<And>resp err w2. h c1 req w1 = (Ret (resp, err), w2) \<Longrightarrow>
       \<exists>e w3. ix = (Ret (resp, err), w3) \<and> outside w3 = outside w2 \<and> logs w3 = logs w2 @ [e]
         \<and> end_entry (UnaryServer fm) c1 tid err e"
proof -
  obtain c1 w0 where inj: "inject_logger env lg0 c w = (c1, w0)" by fastforce
  from traceIdFromContext_injected [OF inj assms(2)] obtain tid where
    tid: "LoggerFromContext c1 = Some (lg0 @ [String ''otlp.trace_id'' tid])"
      "\<And>w' :: 'x world. traceIdFromContext env c1 w' = ((tid, True), w')" "incoming c1 = incoming c" "peer c1 = peer c"
      "outside w0 = outside w" "logs w0 = logs w" by blast
  have wf: "wf_ctx c1" using assms(1) tid(3) by (simp add: wf_ctx_def)
  have ix: "NewLoggingUnaryServerInterceptor env lg [] c1 req fm h w0 = ix"
    using ix_def inj by (simp add: NewInjectLoggerUnaryServerInterceptor_def)
  obtain w1 where w1: "outside w1 = outside w0" "logs w1 = logs w0" "\<And>p w2. h c1 req w1 = (Panic p, w2) \<Longrightarrow> ix = (Panic p, w2)"
    "\<And>resp err w2. h c1 req w1 = (Ret (resp, err), w2) \<Longrightarrow>
       \<exists>e w3. ix = (Ret (resp, err), w3) \<and> outside w3 = outside w2 \<and> logs w3 = logs w2 @ [e]
         \<and> end_entry (UnaryServer fm) c1 (fst (fst (traceIdFromContext env c1 w2))) err e"
    by (rule default_logging [OF wf ix]) blast
  show ?thesis by (rule that [OF tid(1,3,4) _ _ w1(3) w1(4) [unfolded tid(2) fst_conv]]) (use w1 tid in simp_all)
qed

section \<open>Properties\<close>

definition example_env :: "string log_env" where
  "example_env = \<lparr>ulid = itoa, clock = int, otel_service = [], executable = Inr ''/usr/bin/demo'',
     isProto = (\<lambda>_. True), showPayload = id, development = True\<rparr>"

definition plain_ctx :: "unit ctx" where
  "plain_ctx = \<lparr>trace_value = None, span_trace = None, logger_value = None, incoming = Some [(''peer.service'', [''cli''])],
     outgoing = [], Deadline = None, peer = None\<rparr>"

definition start_world :: "nat world" where
  "start_world = \<lparr>logs = [], ulids = 0, ticks = 0, outside = 0\<rparr>"

definition failing_handler :: "('c, string, string, nat world) handler" where
  "failing_handler c q w = (Ret (None, Some (StatusError NotFound ''no such item'')), w\<lparr>outside := Suc (outside w)\<rparr>)"


lemma default_level: "DefaultServerCodeToLevel (UnaryServer ''/svc/m'') NotFound = InfoLevel"
  by (simp add: DefaultServerCodeToLevel_def)


text \<open>
  With the logger-injecting interceptor in front, the logger that the handler finds in its context and the
  log entry of the call carry the same trace id, whether it came with the request, from a span, or was made
  up on the spot.
\<close>

theorem trace_id_correlated:
  fixes w :: "'x world"
  assumes "wf_ctx c" and "span_trace c \<noteq> Some []"
    and "NewInjectLoggerUnaryServerInterceptor env lg0 c req fm
           (\<lambda>c1 q. NewLoggingUnaryServerInterceptor env lg [] c1 q fm h) w = (Ret (resp, err), w')"
  shows "\<exists>tid c1 w1 w2 e. h c1 req w1 = (Ret (resp, err), w2)
    \<and> LoggerFromContext c1 = Some (lg0 @ [String ''otlp.trace_id'' tid])
    \<and> logs w' = logs w2 @ [e] \<and> String ''otlp.trace_id'' tid \<in> set (entry_fields e)"
proof -
  obtain tid c1 w1 where ix: "LoggerFromContext c1 = Some (lg0 @ [String ''otlp.trace_id'' tid])"
    "\<And>p w2. h c1 req w1 = (Panic p, w2) \<Longrightarrow> (Ret (resp, err), w') = (Panic p, w2)"
    "\<And>resp' err' w2. h c1 req w1 = (Ret (resp', err'), w2) \<Longrightarrow>
       \<exists>e w3. (Ret (resp, err), w') = (Ret (resp', err'), w3) \<and> logs w3 = logs w2 @ [e]
         \<and> String ''otlp.trace_id'' tid \<in> set (entry_fields e)"
    by (rule injected_logging [OF assms]) (unfold end_entry_def, blast)
  obtain x w2 where h: "h c1 req w1 = (x, w2)" by fastforce
  with ix(2) obtain resp' err' where "x = Ret (resp', err')" by (cases x) auto
  with ix(1,3) h show ?thesis by blast
qed

theorem trace_id_correlated_witness:
  "\<exists>resp err w' tid (w2 :: nat world) e. NewInjectLoggerUnaryServerInterceptor example_env [] plain_ctx ''req'' ''/svc/m''
      (\<lambda>c1 q. NewLoggingUnaryServerInterceptor example_env [] [] c1 q ''/svc/m'' failing_handler) start_world = (Ret (resp, err), w')
    \<and> logs w' = logs w2 @ [e] \<and> String ''otlp.trace_id'' tid \<in> set (entry_fields e)"
proof -
  let ?run = "NewInjectLoggerUnaryServerInterceptor example_env [] plain_ctx ''req'' ''/svc/m''
      (\<lambda>c1 q. NewLoggingUnaryServerInterceptor example_env [] [] c1 q ''/svc/m'' failing_handler) start_world"
  have "fst ?run = Ret (None, Some (StatusError NotFound ''no such item''))" by code_simp
  then have run: "?run = (Ret (None, Some (StatusError NotFound ''no such item'')), snd ?run)" by (metis prod.collapse)
  have "wf_ctx plain_ctx" "span_trace plain_ctx \<noteq> Some []" by (simp_all add: plain_ctx_def wf_ctx_def)
  from trace_id_correlated [OF this run] obtain w2 :: "nat world" and e tid where
    "logs (snd ?run) = logs w2 @ [e]" "String ''otlp.trace_id'' tid \<in> set (entry_fields e)"
    by (elim exE conjE) (rule that)
  with run show ?thesis by (intro exI conjI)
qed

end
