(* ===== verification/LoggingStreams.thy ===== *)
theory LoggingStreams
  imports Logging
begin

text \<open>
  The stream interceptors of src/fxlogging/interceptor/logging_interceptor.go: the monitored server and
  client streams and the interceptors that install them. The code that works on a stream is a program of
  receive and send calls, so that one and the same handler can be run on the plain and on the monitored
  stream. A stream is used by one goroutine at a time.
\<close>

section \<open>Programs on streams\<close>

text \<open>
  \<open>RecvMsg\<close> gives a message or an error; \<open>SendMsg\<close> an error or none. Everything else that the code does,
  other calls of the stream included, is an action on the world. \<open>Crash\<close> is a panic.
\<close>

datatype ('x, 'r, 's) prog =
    Return "rpc_error option"
  | Crash string
  | Recv "rpc_error + 'r \<Rightarrow> ('x, 'r, 's) prog"
  | Send 's "rpc_error option \<Rightarrow> ('x, 'r, 's) prog"
  | Act "'x \<Rightarrow> 'x" "'x \<Rightarrow> ('x, 'r, 's) prog"

record ('st, 'x, 'r, 's) stream =
  RecvMsg :: "'st \<Rightarrow> (rpc_error + 'r) outcome \<times> 'st"
  SendMsg :: "'s \<Rightarrow> 'st \<Rightarrow> rpc_error option outcome \<times> 'st"
  get_world :: "'st \<Rightarrow> 'x"
  put_world :: "'x \<Rightarrow> 'st \<Rightarrow> 'st"

primrec run :: "('st, 'x, 'r, 's) stream \<Rightarrow> ('x, 'r, 's) prog \<Rightarrow> 'st \<Rightarrow> rpc_error option outcome \<times> 'st" where
  "run ss (Return e) = (\<lambda>st. (Ret e, st))"
| "run ss (Crash p) = (\<lambda>st. (Panic p, st))"
| "run ss (Recv k) = (\<lambda>st. case RecvMsg ss st of (Panic p, st1) \<Rightarrow> (Panic p, st1) | (Ret r, st1) \<Rightarrow> run ss (k r) st1)"
| "run ss (Send m k) = (\<lambda>st. case SendMsg ss m st of (Panic p, st1) \<Rightarrow> (Panic p, st1) | (Ret e, st1) \<Rightarrow> run ss (k e) st1)"
| "run ss (Act f k) = (\<lambda>st. let x = get_world ss st in run ss (k x) (put_world ss (f x) st))"

text \<open>The results of the receive and the messages of the send calls of a run, in order.\<close>

primrec received :: "('st, 'x, 'r, 's) stream \<Rightarrow> ('x, 'r, 's) prog \<Rightarrow> 'st \<Rightarrow> (rpc_error + 'r) list" where
  "received ss (Return e) = (\<lambda>st. [])"
| "received ss (Crash p) = (\<lambda>st. [])"
| "received ss (Recv k) = (\<lambda>st. case RecvMsg ss st of (Panic p, st1) \<Rightarrow> [] | (Ret r, st1) \<Rightarrow> r # received ss (k r) st1)"
| "received ss (Send m k) = (\<lambda>st. case SendMsg ss m st of (Panic p, st1) \<Rightarrow> [] | (Ret e, st1) \<Rightarrow> received ss (k e) st1)"
| "received ss (Act f k) = (\<lambda>st. let x = get_world ss st in received ss (k x) (put_world ss (f x) st))"

section \<open>Server streams\<close>

text \<open>The stream of a handler works on the world itself. The monitored stream keeps a payload beside it.\<close>

definition monitored_RecvMsg ::
  "'q log_env \<Rightarrow> ('w, 'w, 'q, 's) stream \<Rightarrow> 'q option \<times> 'w \<Rightarrow> (rpc_error + 'q) outcome \<times> 'q option \<times> 'w" where
  "monitored_RecvMsg env ss st =
     (case st of (payload, w) \<Rightarrow>
        (case RecvMsg ss w of
           (Panic p, w1) \<Rightarrow> (Panic p, payload, w1)
         | (Ret (Inl err), w1) \<Rightarrow> (Ret (Inl err), payload, w1)
         | (Ret (Inr m), w1) \<Rightarrow> (Ret (Inr m), if payload = None \<and> isProto env m then Some m else payload, w1)))"

definition monitoredServerStream ::
  "'q log_env \<Rightarrow> ('w, 'w, 'q, 's) stream \<Rightarrow> ('q option \<times> 'w, 'w, 'q, 's) stream" where
  "monitoredServerStream env ss =
     \<lparr>RecvMsg = monitored_RecvMsg env ss,
      SendMsg = (\<lambda>m (payload, w). case SendMsg ss m w of (r, w1) \<Rightarrow> (r, payload, w1)),
      get_world = (\<lambda>(payload, w). get_world ss w),
      put_world = (\<lambda>x (payload, w). (payload, put_world ss x w))\<rparr>"

lemma monitoredServerStream_simps [simp]:
  "RecvMsg (monitoredServerStream env ss) = monitored_RecvMsg env ss"
  "SendMsg (monitoredServerStream env ss) m (p, w) = (case SendMsg ss m w of (r, w1) \<Rightarrow> (r, p, w1))"
  "get_world (monitoredServerStream env ss) (p, w) = get_world ss w"
  "put_world (monitoredServerStream env ss) x (p, w) = (p, put_world ss x w)"
  by (simp_all add: monitoredServerStream_def)

definition NewLoggingStreamServerInterceptor ::
  "'q log_env \<Rightarrow> logger \<Rightarrow> 'q option_func list \<Rightarrow> 'cert ctx \<Rightarrow> ('x world, 'x world, 'q, 's) stream \<Rightarrow> string \<Rightarrow>
   ('cert ctx \<Rightarrow> ('x world, 'q, 's) prog) \<Rightarrow> 'x world \<Rightarrow> rpc_error option outcome \<times> 'x world" where
  "NewLoggingStreamServerInterceptor env lg opts c ss fullMethod handler w =
     (let r = new_reporter env lg opts; info = StreamServer fullMethod
      in case time_Now env w of (t, w0) \<Rightarrow>
         (case log_start env r c info t None w0 of
            (Panic p, w1) \<Rightarrow> (Panic p, w1)
          | (Ret _, w1) \<Rightarrow>
              (case run (monitoredServerStream env ss) (handler c) (None, w1) of
                 (Panic p, payload, w2) \<Rightarrow> (Panic p, w2)
               | (Ret err, payload, w2) \<Rightarrow>
                   (case log_end env r c info t payload err w2 of
                      (Panic p, w3) \<Rightarrow> (Panic p, w3)
                    | (Ret _, w3) \<Rightarrow> (Ret err, w3)))))"

section \<open>Client streams\<close>

record ('cert, 'q) monitoredClientStream =
  mcs_ctx :: "'cert ctx"
  mcs_reporter :: "'q reporter"
  ServerStreams :: bool
  mcs_info :: InterceptorInfo
  mcs_startTime :: int

definition client_SendMsg ::
  "'q log_env \<Rightarrow> ('x, 'x, 'r, 'q) stream \<Rightarrow> 'q \<Rightarrow> 'q option \<times> 'x world \<Rightarrow> rpc_error option outcome \<times> 'q option \<times> 'x world" where
  "client_SendMsg env cs m st =
     (case st of (payload, w) \<Rightarrow>
        let payload1 = (if payload = None \<and> isProto env m then Some m else payload)
        in case SendMsg cs m (outside w) of (r, x1) \<Rightarrow> (r, payload1, w\<lparr>outside := x1\<rparr>))"

definition client_RecvMsg ::
  "'q log_env \<Rightarrow> ('cert, 'q) monitoredClientStream \<Rightarrow> ('x, 'x, 'r, 'q) stream \<Rightarrow> 'q option \<times> 'x world \<Rightarrow>
   (rpc_error + 'r) outcome \<times> 'q option \<times> 'x world" where
  "client_RecvMsg env s cs st =
     (case st of (payload, w) \<Rightarrow>
        let log = Log env (mcs_reporter s) (mcs_ctx s) (mcs_info s) (mcs_startTime s) logEventEnd payload;
            ret = (\<lambda>r res. case res of (Panic p, w2) \<Rightarrow> (Panic p, payload, w2) | (Ret _, w2) \<Rightarrow> (Ret r, payload, w2))
        in case RecvMsg cs (outside w) of
             (Panic p, x1) \<Rightarrow> (Panic p, payload, w\<lparr>outside := x1\<rparr>)
           | (Ret r, x1) \<Rightarrow>
               let w1 = w\<lparr>outside := x1\<rparr>
               in (case r of
                     Inr m \<Rightarrow> if \<not> ServerStreams s then ret r (log None w1) else (Ret r, payload, w1)
                   | Inl err \<Rightarrow> if err = EOF then ret r (log None w1) else ret r (log (Some err) w1)))"

definition monitored_client ::
  "'q log_env \<Rightarrow> ('cert, 'q) monitoredClientStream \<Rightarrow> ('x, 'x, 'r, 'q) stream \<Rightarrow> ('q option \<times> 'x world, 'x, 'r, 'q) stream" where
  "monitored_client env s cs =
     \<lparr>RecvMsg = client_RecvMsg env s cs,
      SendMsg = client_SendMsg env cs,
      get_world = (\<lambda>(payload, w). get_world cs (outside w)),
      put_world = (\<lambda>x (payload, w). (payload, w\<lparr>outside := put_world cs x (outside w)\<rparr>))\<rparr>"

text \<open>The caller gets the stream as it came from \<open>streamer\<close>, or a monitored one around it.\<close>

datatype ('cert, 'x, 'r, 'q) clientStream =
    Plain "('x, 'x, 'r, 'q) stream"
  | Monitored "('cert, 'q) monitoredClientStream" "('x, 'x, 'r, 'q) stream"

definition NewLoggingStreamClientInterceptor ::
  "'q log_env \<Rightarrow> logger \<Rightarrow> 'q option_func list \<Rightarrow> 'cert ctx \<Rightarrow> bool \<Rightarrow> string \<Rightarrow>
   ('cert ctx \<Rightarrow> string \<Rightarrow> 'x world \<Rightarrow> (('x, 'x, 'r, 'q) stream option \<times> rpc_error option) outcome \<times> 'x world) \<Rightarrow>
   'x world \<Rightarrow> (('cert, 'x, 'r, 'q) clientStream option \<times> rpc_error option) outcome \<times> 'x world" where
  "NewLoggingStreamClientInterceptor env lg opts c serverStreams meth streamer w =
     (let r = new_reporter env lg (WithLevelFunc DefaultClientCodeToLevel # opts); info = StreamClient meth
      in case time_Now env w of (t, w0) \<Rightarrow>
         (case streamer c meth w0 of
            (Panic p, w1) \<Rightarrow> (Panic p, w1)
          | (Ret (cs, err), w1) \<Rightarrow>
              if \<not> logFilter (rep_conf r) info then (Ret (map_option Plain cs, err), w1)
              else case err of
                     Some e \<Rightarrow> (case Log env r c info t logEventEnd None err w1 of
                                 (Panic p, w2) \<Rightarrow> (Panic p, w2)
                               | (Ret _, w2) \<Rightarrow> (Ret (None, err), w2))
                   | None \<Rightarrow>
                       let mStream = \<lparr>mcs_ctx = c, mcs_reporter = r, ServerStreams = serverStreams, mcs_info = info,
                                      mcs_startTime = t\<rparr>;
                           res = Ret (map_option (Monitored mStream) cs, None)
                       in if startLogFilter (rep_conf r) info
                          then (case Log env r c info t logEventStart None None w1 of
                                  (Panic p, w2) \<Rightarrow> (Panic p, w2)
                                | (Ret _, w2) \<Rightarrow> (res, w2))
                          else (res, w1)))"

section \<open>Wrapped streams\<close>

text \<open>
  What a wrapper around a stream promises to the code that uses it: every call has the result of the
  wrapped stream and changes the wrapped stream's state in the same way.
\<close>

locale wrapped_stream =
  fixes base :: "('b, 'y, 'r, 's) stream" and wrap :: "('st, 'y, 'r, 's) stream"
    and abs :: "'st \<Rightarrow> 'b" and inv :: "'st \<Rightarrow> bool"
  assumes recv: "inv st \<Longrightarrow> RecvMsg wrap st = (r, st') \<Longrightarrow> RecvMsg base (abs st) = (r, abs st') \<and> inv st'"
    and send: "inv st \<Longrightarrow> SendMsg wrap m st = (e, st') \<Longrightarrow> SendMsg base m (abs st) = (e, abs st') \<and> inv st'"
    and get: "get_world wrap st = get_world base (abs st)"
    and put: "inv st \<Longrightarrow> abs (put_world wrap x st) = put_world base x (abs st) \<and> inv (put_world wrap x st)"
begin

lemma run_wrapped:
  "inv st \<Longrightarrow> run wrap p st = (r, st') \<Longrightarrow> run base p (abs st) = (r, abs st') \<and> inv st'"
proof (induction p arbitrary: st)
  case (Recv k)
  obtain o1 st1 where st1: "RecvMsg wrap st = (o1, st1)" by fastforce
  with Recv recv [OF Recv.prems(1) st1] show ?case by (cases o1) auto
next
  case (Send m k)
  obtain o1 st1 where st1: "SendMsg wrap m st = (o1, st1)" by fastforce
  with Send send [OF Send.prems(1) st1] show ?case by (cases o1) auto
next
  case (Act f k)
  have upd: "abs (put_world wrap (f (get_world base (abs st))) st) = put_world base (f (get_world base (abs st))) (abs st)"
    "inv (put_world wrap (f (get_world base (abs st))) st)"
    using put [OF Act.prems(1)] by blast+
  then show ?case using Act.IH [OF rangeI upd(2)] Act.prems(2) get [of st] by (simp add: Let_def)
qed simp_all

lemma received_wrapped: "inv st \<Longrightarrow> received wrap p st = received base p (abs st)"
proof (induction p arbitrary: st)
  case (Recv k)
  obtain o1 st1 where st1: "RecvMsg wrap st = (o1, st1)" by fastforce
  with Recv recv [OF Recv.prems st1] show ?case by (cases o1) auto
next
  case (Send m k)
  obtain o1 st1 where st1: "SendMsg wrap m st = (o1, st1)" by fastforce
  with Send send [OF Send.prems st1] show ?case by (cases o1) auto
next
  case (Act f k)
  then show ?case using put [OF Act.prems] get [of st] by (simp add: Let_def)
qed simp_all

end

interpretation mss: wrapped_stream ss "monitoredServerStream env ss" snd "\<lambda>_. True" for env ss
  by unfold_locales
    (auto simp: monitoredServerStream_def monitored_RecvMsg_def split: prod.splits outcome.splits sum.splits if_splits)

section \<open>The payload of a server stream\<close>

definition messages :: "(rpc_error + 'r) list \<Rightarrow> 'r list" where
  "messages rs = List.map_filter (\<lambda>r. case r of Inl _ \<Rightarrow> None | Inr m \<Rightarrow> Some m) rs"

lemma messages_simps [simp]:
  "messages [] = []" "messages (Inl e # rs) = messages rs" "messages (Inr m # rs) = m # messages rs"
  by (simp_all add: messages_def)

lemma monitored_payload:
  "run (monitoredServerStream env ss) p (p0, w) = (Ret r, p1, w') \<Longrightarrow>
     p1 = (case p0 of Some m \<Rightarrow> Some m | None \<Rightarrow> find (isProto env) (messages (received ss p w)))"
proof (induction p arbitrary: p0 w)
  case (Recv k)
  obtain o1 w1 where "RecvMsg ss w = (o1, w1)" by fastforce
  with Recv show ?case
    by (fastforce simp: monitored_RecvMsg_def split: outcome.splits sum.splits option.splits if_splits)
next
  case (Send m k)
  obtain o1 w1 where "SendMsg ss m w = (o1, w1)" by fastforce
  with Send.prems obtain e where e: "SendMsg ss m w = (Ret e, w1)"
    and "run (monitoredServerStream env ss) (k e) (p0, w1) = (Ret r, p1, w')"
    by (auto split: outcome.splits)
  from Send.IH [OF rangeI this(2)] e show ?case by (simp split: option.split)
next
  case (Act f k)
  from Act.prems have "run (monitoredServerStream env ss) (k (get_world ss w)) (p0, put_world ss (f (get_world ss w)) w) = (Ret r, p1, w')"
    by (simp add: Let_def)
  from Act.IH [OF rangeI this] show ?case by (simp add: Let_def split: option.split)
qed (simp_all split: option.splits)

lemma find_proto_plain: "plain_payload env cf info (find (isProto env) ms)"
  by (auto simp: plain_payload_def find_Some_iff split: option.splits)

text \<open>With the default options: the handler runs as on the plain stream, and its end is logged.\<close>

lemma default_stream_logging:
  fixes w :: "'x world" and env :: "'q log_env"
  assumes "wf_ctx c" and "NewLoggingStreamServerInterceptor env lg [] c ss fm h w = ix"
  obtains w1 where "outside w1 = outside w" "logs w1 = logs w"
    "\<And>err w2. run ss (h c) w1 = (Ret err, w2) \<Longrightarrow>
       \<exists>e w3. ix = (Ret err, w3) \<and> outside w3 = outside w2 \<and> logs w3 = logs w2 @ [e]
         \<and> end_entry (StreamServer fm) c (fst (fst (traceIdFromContext env c w2))) err e"
proof -
  let ?r = "new_reporter env lg []" and ?info = "StreamServer fm" and ?ms = "monitoredServerStream env ss"
  obtain t w1 where t: "time_Now env w = (t, w1)" "outside w1 = outside w" "logs w1 = logs w" by (simp add: time_Now_def)
  have st: "log_start env ?r c ?info t None w1 = (Ret (), w1)" by (simp add: log_start_def default_config)
  note ix = assms(2) [symmetric, unfolded NewLoggingStreamServerInterceptor_def Let_def t(1) prod.case st outcome.case]
  obtain res pl w2 where res: "run ?ms (h c) (None, w1) = (res, pl, w2)" by (metis surj_pair)
  from mss.run_wrapped [OF TrueI res] have base: "run ss (h c) w1 = (res, w2)" by simp
  have "\<exists>e w3. ix = (Ret err, w3) \<and> outside w3 = outside w2' \<and> logs w3 = logs w2' @ [e]
         \<and> end_entry ?info c (fst (fst (traceIdFromContext env c w2'))) err e"
    if "run ss (h c) w1 = (Ret err, w2')" for err w2'
    using ix res base that default_log_end [OF assms(1), of env lg ?info t pl err w2] by auto
  with t show ?thesis by (intro that [of w1]) auto
qed

section \<open>The entries of a client stream\<close>

lemma monitored_client_simps [simp]:
  "RecvMsg (monitored_client env s cs) = client_RecvMsg env s cs"
  "SendMsg (monitored_client env s cs) = client_SendMsg env cs"
  "get_world (monitored_client env s cs) (p, w) = get_world cs (outside w)"
  "put_world (monitored_client env s cs) x (p, w) = (p, w\<lparr>outside := put_world cs x (outside w)\<rparr>)"
  by (simp_all add: monitored_client_def)

text \<open>The receives that end the call, and the status they end it with.\<close>

definition ends :: "bool \<Rightarrow> rpc_error + 'r \<Rightarrow> bool" where
  "ends serverStreams r = (case r of Inl _ \<Rightarrow> True | Inr _ \<Rightarrow> \<not> serverStreams)"

definition end_error :: "rpc_error + 'r \<Rightarrow> rpc_error option" where
  "end_error r = (case r of Inl e \<Rightarrow> if e = EOF then None else Some e | Inr _ \<Rightarrow> None)"

text \<open>The conditions under which reporting a call returns.\<close>

definition reports :: "('cert, 'q) monitoredClientStream \<Rightarrow> bool" where
  "reports s \<longleftrightarrow> wf_ctx (mcs_ctx s) \<and> (\<forall>cd. levelFunc (rep_conf (mcs_reporter s)) (mcs_info s) cd \<le> ErrorLevel)"

definition proto_payload :: "'q log_env \<Rightarrow> 'q option \<Rightarrow> bool" where
  "proto_payload env payload \<longleftrightarrow> (case payload of None \<Rightarrow> True | Some p \<Rightarrow> isProto env p)"

lemma client_RecvMsg_reports:
  assumes "reports s" and "proto_payload env p" and "RecvMsg cs (outside w) = (Ret r, x1)"
  shows "\<exists>w' es. client_RecvMsg env s cs (p, w) = (Ret r, p, w') \<and> outside w' = x1 \<and> logs w' = logs w @ es
    \<and> map entry_level es = (if ends (ServerStreams s) r
        then [levelFunc (rep_conf (mcs_reporter s)) (mcs_info s) (status_Code (end_error r))] else [])"
proof (cases "ends (ServerStreams s) r")
  case True
  have "plain_payload env (rep_conf (mcs_reporter s)) (mcs_info s) p"
    using assms(2) by (auto simp: plain_payload_def proto_payload_def split: option.splits)
  then obtain e w' where "Log env (mcs_reporter s) (mcs_ctx s) (mcs_info s) (mcs_startTime s) logEventEnd p (end_error r)
      (w\<lparr>outside := x1\<rparr>) = (Ret (), w')" "outside w' = x1" "logs w' = logs w @ [e]"
      "entry_level e = levelFunc (rep_conf (mcs_reporter s)) (mcs_info s) (status_Code (end_error r))"
    using Log_Ret [of "mcs_ctx s" env "mcs_reporter s" "mcs_info s" p "end_error r" "mcs_startTime s" logEventEnd
        "w\<lparr>outside := x1\<rparr>"] assms(1) by (auto simp: reports_def is_entry_def)
  with True assms(3) show ?thesis
    by (intro exI [of _ w'] exI [of _ "[e]"])
      (auto simp: client_RecvMsg_def Let_def ends_def end_error_def split: sum.splits if_splits)
next
  case False
  with assms(3) show ?thesis
    by (intro exI [of _ "w\<lparr>outside := x1\<rparr>"] exI [of _ "[]"])
      (auto simp: client_RecvMsg_def Let_def ends_def split: sum.splits)
qed

lemma client_RecvMsg_panics:
  "RecvMsg cs (outside w) = (Panic q, x1) \<Longrightarrow> client_RecvMsg env s cs (p, w) = (Panic q, p, w\<lparr>outside := x1\<rparr>)"
  by (simp add: client_RecvMsg_def Let_def)

interpretation mcs: wrapped_stream cs "monitored_client env s cs" "outside \<circ> snd"
  "\<lambda>st. reports s \<and> proto_payload env (fst st)" for env s cs
proof unfold_locales
  fix st r st' assume inv: "reports s \<and> proto_payload env (fst st)"
    and recv: "RecvMsg (monitored_client env s cs) st = (r, st')"
  obtain p w where st: "st = (p, w)" by fastforce
  obtain o1 x1 where base: "RecvMsg cs (outside w) = (o1, x1)" by fastforce
  show "RecvMsg cs ((outside \<circ> snd) st) = (r, (outside \<circ> snd) st') \<and> reports s \<and> proto_payload env (fst st')"
  proof (cases o1)
    case (Panic q)
    with base client_RecvMsg_panics [of cs w q x1 env s p] inv recv st show ?thesis by auto
  next
    case (Ret a)
    with base client_RecvMsg_reports [of s env p cs w a x1] inv recv st show ?thesis by auto
  qed
qed (auto simp: client_SendMsg_def proto_payload_def monitored_client_def Let_def split: prod.splits option.splits if_splits)

lemma client_entries:
  assumes "reports s"
  shows "proto_payload env p0 \<Longrightarrow> run (monitored_client env s cs) p (p0, w) = (Ret r, p1, w') \<Longrightarrow>
    \<exists>es. logs w' = logs w @ es
      \<and> map entry_level es = map (\<lambda>r. levelFunc (rep_conf (mcs_reporter s)) (mcs_info s) (status_Code (end_error r)))
            (filter (ends (ServerStreams s)) (received cs p (outside w)))"
proof (induction p arbitrary: p0 w)
  case (Recv k)
  obtain o1 x1 where base: "RecvMsg cs (outside w) = (o1, x1)" by fastforce
  with Recv.prems client_RecvMsg_panics [of cs w _ x1 env s p0] obtain a where a: "o1 = Ret a" by (cases o1) auto
  from client_RecvMsg_reports [OF assms Recv.prems(1), of cs w a x1] base a obtain w1 es1 where
    one: "client_RecvMsg env s cs (p0, w) = (Ret a, p0, w1)" "outside w1 = x1" "logs w1 = logs w @ es1"
      "map entry_level es1 = (if ends (ServerStreams s) a
        then [levelFunc (rep_conf (mcs_reporter s)) (mcs_info s) (status_Code (end_error a))] else [])" by auto
  with Recv.prems have "run (monitored_client env s cs) (k a) (p0, w1) = (Ret r, p1, w')" by simp
  from Recv.IH [OF rangeI Recv.prems(1) this] one a base show ?case by auto
next
  case (Send m k)
  obtain e x1 where base: "SendMsg cs m (outside w) = (Ret e, x1)"
    using Send.prems(2) by (auto simp: client_SendMsg_def Let_def split: prod.splits outcome.splits)
  define p2 where "p2 = (if p0 = None \<and> isProto env m then Some m else p0)"
  have "proto_payload env p2" "run (monitored_client env s cs) (k e) (p2, w\<lparr>outside := x1\<rparr>) = (Ret r, p1, w')"
    using Send.prems base by (auto simp: client_SendMsg_def Let_def proto_payload_def p2_def)
  from Send.IH [OF rangeI this] base show ?case by simp
next
  case (Act f k)
  from Act.prems have "run (monitored_client env s cs) (k (get_world cs (outside w)))
    (p0, w\<lparr>outside := put_world cs (f (get_world cs (outside w))) (outside w)\<rparr>) = (Ret r, p1, w')" by (simp add: Let_def)
  from Act.IH [OF rangeI Act.prems(1) this] show ?case by (simp add: Let_def)
qed simp_all

section \<open>Properties\<close>


text \<open>A stream with one message, which then ends, and a handler that reads it to the end.\<close>

definition one_message :: "('w \<Rightarrow> nat) \<Rightarrow> (nat \<Rightarrow> 'w \<Rightarrow> 'w) \<Rightarrow> ('w, 'w, string, string) stream" where
  "one_message pos set_pos =
     \<lparr>RecvMsg = (\<lambda>w. (Ret (if pos w = 0 then Inr ''hello'' else Inl EOF), set_pos (Suc (pos w)) w)),
      SendMsg = (\<lambda>m w. (Ret None, w)), get_world = id, put_world = (\<lambda>x _. x)\<rparr>"

definition read_two :: "('w, string, string) prog" where
  "read_two = Recv (\<lambda>_. Recv (\<lambda>r. Return (case r of Inl EOF \<Rightarrow> None | Inl e \<Rightarrow> Some e | Inr _ \<Rightarrow> None)))"

definition with_payloads :: "string option_func list" where
  "with_payloads = [WithPayloadFilter AllowAllFilter]"



definition opened :: "unit ctx \<Rightarrow> string \<Rightarrow> nat world \<Rightarrow>
  ((nat, nat, string, string) stream option \<times> rpc_error option) outcome \<times> nat world" where
  "opened c meth w = (Ret (Some (one_message id (\<lambda>n _. n)), None), w)"


end
