(* ===== verification/StreamGoroutines.thy ===== *)
theory StreamGoroutines
  imports LoggingStreams Goroutines
begin

text \<open>
  A client stream that two goroutines use at a time, one to send and one to receive, as gRPC allows it
  (src/vendor/google.golang.org/grpc/stream.go): the methods of the monitored stream of
  src/fxlogging/interceptor/logging_interceptor.go in steps of their accesses to shared state, interleaved in any order.
\<close>

section \<open>Two goroutines on a stream\<close>

text \<open>
  On the stream itself, every call is one step. \<open>got\<close> lists the results of the receives; a panic ends its goroutine.
\<close>

record ('x, 'r, 'q) duplex =
  dx_state :: 'x
  sending :: "('x, 'r, 'q) prog"
  receiving :: "('x, 'r, 'q) prog"
  got :: "(rpc_error + 'r) list"

inductive duplex_step :: "('x, 'x, 'r, 'q) stream \<Rightarrow> ('x, 'r, 'q) duplex \<Rightarrow> ('x, 'r, 'q) duplex \<Rightarrow> bool"
  for cs :: "('x, 'x, 'r, 'q) stream" where
  send: "sending d = Send m k \<Longrightarrow> SendMsg cs m (dx_state d) = (Ret e, x1) \<Longrightarrow>
    duplex_step cs d (d\<lparr>dx_state := x1, sending := k e\<rparr>)"
| send_panics: "sending d = Send m k \<Longrightarrow> SendMsg cs m (dx_state d) = (Panic p, x1) \<Longrightarrow>
    duplex_step cs d (d\<lparr>dx_state := x1, sending := Crash p\<rparr>)"
| send_acts: "sending d = Act f k \<Longrightarrow>
    duplex_step cs d (d\<lparr>dx_state := put_world cs (f (get_world cs (dx_state d))) (dx_state d), sending := k (get_world cs (dx_state d))\<rparr>)"
| recv: "receiving d = Recv k \<Longrightarrow> RecvMsg cs (dx_state d) = (Ret r, x1) \<Longrightarrow>
    duplex_step cs d (d\<lparr>dx_state := x1, receiving := k r, got := got d @ [r]\<rparr>)"
| recv_panics: "receiving d = Recv k \<Longrightarrow> RecvMsg cs (dx_state d) = (Panic p, x1) \<Longrightarrow>
    duplex_step cs d (d\<lparr>dx_state := x1, receiving := Crash p\<rparr>)"
| recv_acts: "receiving d = Act f k \<Longrightarrow>
    duplex_step cs d (d\<lparr>dx_state := put_world cs (f (get_world cs (dx_state d))) (dx_state d), receiving := k (get_world cs (dx_state d))\<rparr>)"

text \<open>
  On the monitored stream, \<open>SendMsg\<close> looks at the payload, stores a clone of the message if there is none yet and the message
  is a protobuf message, and calls the stream; \<open>RecvMsg\<close> calls the stream and, if that ended the call, reads the
  payload and logs.
\<close>

datatype ('x, 'r, 'q) sender =
    SReady "('x, 'r, 'q) prog"
  | SStore 'q "rpc_error option \<Rightarrow> ('x, 'r, 'q) prog"
  | SCall 'q "rpc_error option \<Rightarrow> ('x, 'r, 'q) prog"

datatype ('x, 'r, 'q) receiver =
    RReady "('x, 'r, 'q) prog"
  | RLog "rpc_error + 'r" "rpc_error + 'r \<Rightarrow> ('x, 'r, 'q) prog"

record ('x, 'r, 'q) monitored =
  payload :: "'q option"
  mw :: "'x world"
  sender :: "('x, 'r, 'q) sender"
  receiver :: "('x, 'r, 'q) receiver"
  mgot :: "(rpc_error + 'r) list"

definition after_check :: "'q log_env \<Rightarrow> 'q option \<Rightarrow> 'q \<Rightarrow> (rpc_error option \<Rightarrow> ('x, 'r, 'q) prog) \<Rightarrow> ('x, 'r, 'q) sender" where
  "after_check env pl m k = (if pl = None \<and> isProto env m then SStore m k else SCall m k)"

definition log_received ::
  "'q log_env \<Rightarrow> ('cert, 'q) monitoredClientStream \<Rightarrow> 'q option \<Rightarrow> rpc_error + 'r \<Rightarrow> 'x world \<Rightarrow> unit outcome \<times> 'x world" where
  "log_received env s pl r w =
     Log env (mcs_reporter s) (mcs_ctx s) (mcs_info s) (mcs_startTime s) logEventEnd pl (end_error r) w"

definition after_recv :: "bool \<Rightarrow> rpc_error + 'r \<Rightarrow> (rpc_error + 'r \<Rightarrow> ('x, 'r, 'q) prog) \<Rightarrow> ('x, 'r, 'q) receiver" where
  "after_recv serverStreams r k = (if ends serverStreams r then RLog r k else RReady (k r))"

inductive monitored_step ::
  "'q log_env \<Rightarrow> ('cert, 'q) monitoredClientStream \<Rightarrow> ('x, 'x, 'r, 'q) stream \<Rightarrow>
   ('x, 'r, 'q) monitored \<Rightarrow> ('x, 'r, 'q) monitored \<Rightarrow> bool"
  for env :: "'q log_env" and s :: "('cert, 'q) monitoredClientStream" and cs :: "('x, 'x, 'r, 'q) stream" where
  check: "sender d = SReady (Send m k) \<Longrightarrow> monitored_step env s cs d (d\<lparr>sender := after_check env (payload d) m k\<rparr>)"
| store: "sender d = SStore m k \<Longrightarrow> monitored_step env s cs d (d\<lparr>payload := Some m, sender := SCall m k\<rparr>)"
| call: "sender d = SCall m k \<Longrightarrow> SendMsg cs m (outside (mw d)) = (Ret e, x1) \<Longrightarrow>
    monitored_step env s cs d (d\<lparr>mw := (mw d)\<lparr>outside := x1\<rparr>, sender := SReady (k e)\<rparr>)"
| call_panics: "sender d = SCall m k \<Longrightarrow> SendMsg cs m (outside (mw d)) = (Panic p, x1) \<Longrightarrow>
    monitored_step env s cs d (d\<lparr>mw := (mw d)\<lparr>outside := x1\<rparr>, sender := SReady (Crash p)\<rparr>)"
| sender_acts: "sender d = SReady (Act f k) \<Longrightarrow>
    monitored_step env s cs d
      (d\<lparr>mw := (mw d)\<lparr>outside := put_world cs (f (get_world cs (outside (mw d)))) (outside (mw d))\<rparr>,
         sender := SReady (k (get_world cs (outside (mw d))))\<rparr>)"
| receive: "receiver d = RReady (Recv k) \<Longrightarrow> RecvMsg cs (outside (mw d)) = (Ret r, x1) \<Longrightarrow>
    monitored_step env s cs d
      (d\<lparr>mw := (mw d)\<lparr>outside := x1\<rparr>, receiver := after_recv (ServerStreams s) r k, mgot := mgot d @ [r]\<rparr>)"
| receive_panics: "receiver d = RReady (Recv k) \<Longrightarrow> RecvMsg cs (outside (mw d)) = (Panic p, x1) \<Longrightarrow>
    monitored_step env s cs d (d\<lparr>mw := (mw d)\<lparr>outside := x1\<rparr>, receiver := RReady (Crash p)\<rparr>)"
| log: "receiver d = RLog r k \<Longrightarrow> log_received env s (payload d) r (mw d) = (Ret (), w1) \<Longrightarrow>
    monitored_step env s cs d (d\<lparr>mw := w1, receiver := RReady (k r)\<rparr>)"
| log_panics: "receiver d = RLog r k \<Longrightarrow> log_received env s (payload d) r (mw d) = (Panic p, w1) \<Longrightarrow>
    monitored_step env s cs d (d\<lparr>mw := w1, receiver := RReady (Crash p)\<rparr>)"
| receiver_acts: "receiver d = RReady (Act f k) \<Longrightarrow>
    monitored_step env s cs d
      (d\<lparr>mw := (mw d)\<lparr>outside := put_world cs (f (get_world cs (outside (mw d)))) (outside (mw d))\<rparr>,
         receiver := RReady (k (get_world cs (outside (mw d))))\<rparr>)"

text \<open>A goroutine alone takes these steps exactly as the sequential methods do.\<close>

lemma SendMsg_steps:
  assumes "sender d = SReady (Send m k)" and "client_SendMsg env cs m (payload d, mw d) = (Ret e, p1, w1)"
  shows "(monitored_step env s cs)\<^sup>*\<^sup>* d (d\<lparr>payload := p1, mw := w1, sender := SReady (k e)\<rparr>)"
proof -
  obtain x1 where x1: "SendMsg cs m (outside (mw d)) = (Ret e, x1)" "w1 = (mw d)\<lparr>outside := x1\<rparr>"
    and p1: "p1 = (if payload d = None \<and> isProto env m then Some m else payload d)"
    using assms(2) by (auto simp: client_SendMsg_def Let_def split: prod.splits)
  let ?d1 = "d\<lparr>sender := after_check env (payload d) m k\<rparr>" and ?d2 = "d\<lparr>payload := p1, sender := SCall m k\<rparr>"
  have "monitored_step env s cs d ?d1" by (rule check [OF assms(1)])
  moreover have "(monitored_step env s cs)\<^sup>*\<^sup>* ?d1 ?d2"
  proof (cases "payload d = None \<and> isProto env m")
    case True
    then show ?thesis using store [of ?d1 m k env s cs] p1 by (auto simp: after_check_def intro: r_into_rtranclp)
  next
    case False
    then have "?d1 = ?d2" using p1 by (auto simp: after_check_def)
    then show ?thesis by simp
  qed
  moreover have "monitored_step env s cs ?d2 (?d2\<lparr>mw := w1, sender := SReady (k e)\<rparr>)"
    using call [of ?d2 m k cs e x1 env s] x1 by simp
  ultimately have "(monitored_step env s cs)\<^sup>*\<^sup>* d (?d2\<lparr>mw := w1, sender := SReady (k e)\<rparr>)"
    by (meson converse_rtranclp_into_rtranclp rtranclp.rtrancl_into_rtrancl)
  then show ?thesis by simp
qed

lemma RecvMsg_steps:
  assumes "receiver d = RReady (Recv k)" and "client_RecvMsg env s cs (payload d, mw d) = (Ret r, p1, w1)"
  shows "(monitored_step env s cs)\<^sup>*\<^sup>* d (d\<lparr>payload := p1, mw := w1, receiver := RReady (k r), mgot := mgot d @ [r]\<rparr>)"
proof -
  obtain x1 where x1: "RecvMsg cs (outside (mw d)) = (Ret r, x1)" and p1: "p1 = payload d"
    and w1: "if ends (ServerStreams s) r then log_received env s (payload d) r ((mw d)\<lparr>outside := x1\<rparr>) = (Ret (), w1)
       else w1 = (mw d)\<lparr>outside := x1\<rparr>"
    using assms(2) by (auto simp: client_RecvMsg_def log_received_def ends_def end_error_def Let_def
        split: prod.splits outcome.splits sum.splits if_splits)
  let ?d1 = "d\<lparr>mw := (mw d)\<lparr>outside := x1\<rparr>, receiver := after_recv (ServerStreams s) r k, mgot := mgot d @ [r]\<rparr>"
  have first: "monitored_step env s cs d ?d1" by (rule receive [OF assms(1) x1])
  show ?thesis
  proof (cases "ends (ServerStreams s) r")
    case True
    then have "monitored_step env s cs ?d1 (?d1\<lparr>mw := w1, receiver := RReady (k r)\<rparr>)"
      using log [of ?d1 r k env s w1 cs] w1 by (simp add: after_recv_def)
    with first have "(monitored_step env s cs)\<^sup>*\<^sup>* d (?d1\<lparr>mw := w1, receiver := RReady (k r)\<rparr>)"
      by (meson converse_rtranclp_into_rtranclp r_into_rtranclp)
    then show ?thesis using p1 by (cases d) simp
  next
    case False
    with first show ?thesis using p1 w1 by (auto simp: after_recv_def intro: r_into_rtranclp)
  qed
qed

section \<open>What the two goroutines see\<close>

fun sender_prog :: "('x, 'r, 'q) sender \<Rightarrow> ('x, 'r, 'q) prog" where
  "sender_prog (SReady p) = p"
| "sender_prog (SStore m k) = Send m k"
| "sender_prog (SCall m k) = Send m k"

fun receiver_prog :: "('x, 'r, 'q) receiver \<Rightarrow> ('x, 'r, 'q) prog" where
  "receiver_prog (RReady p) = p"
| "receiver_prog (RLog r k) = k r"

definition unmonitored :: "('x, 'r, 'q) monitored \<Rightarrow> ('x, 'r, 'q) duplex" where
  "unmonitored d = \<lparr>dx_state = outside (mw d), sending = sender_prog (sender d), receiving = receiver_prog (receiver d), got = mgot d\<rparr>"

lemma unmonitored_sel [simp]:
  "dx_state (unmonitored d) = outside (mw d)" "sending (unmonitored d) = sender_prog (sender d)"
  "receiving (unmonitored d) = receiver_prog (receiver d)" "got (unmonitored d) = mgot d"
  by (simp_all add: unmonitored_def)

text \<open>The receives whose entry has been written: all but the one that is about to be logged.\<close>

definition reported :: "('x, 'r, 'q) monitored \<Rightarrow> (rpc_error + 'r) list" where
  "reported d = (case receiver d of RReady _ \<Rightarrow> mgot d | RLog _ _ \<Rightarrow> butlast (mgot d))"

definition end_levels :: "('cert, 'q) monitoredClientStream \<Rightarrow> (rpc_error + 'r) list \<Rightarrow> level list" where
  "end_levels s rs = map (\<lambda>r. levelFunc (rep_conf (mcs_reporter s)) (mcs_info s) (status_Code (end_error r))) (filter (ends (ServerStreams s)) rs)"

lemma end_levels_snoc [simp]:
  "end_levels s (rs @ [r]) = end_levels s rs @
     (if ends (ServerStreams s) r then [levelFunc (rep_conf (mcs_reporter s)) (mcs_info s) (status_Code (end_error r))] else [])"
  by (simp add: end_levels_def)

definition monitored_inv ::
  "'q log_env \<Rightarrow> ('cert, 'q) monitoredClientStream \<Rightarrow> entry list \<Rightarrow> ('x, 'r, 'q) monitored \<Rightarrow> bool" where
  "monitored_inv env s logs0 d \<longleftrightarrow> reports s \<and> proto_payload env (payload d)
     \<and> (\<forall>m k. sender d = SStore m k \<longrightarrow> isProto env m)
     \<and> (\<forall>r k. receiver d = RLog r k \<longrightarrow> ends (ServerStreams s) r \<and> (\<exists>rs. mgot d = rs @ [r]))
     \<and> (\<exists>es. logs (mw d) = logs0 @ es \<and> map entry_level es = end_levels s (reported d))"

lemma log_received_Ret:
  assumes "reports s" and "proto_payload env pl"
  shows "\<exists>e w'. log_received env s pl r w = (Ret (), w') \<and> outside w' = outside w \<and> logs w' = logs w @ [e]
    \<and> entry_level e = levelFunc (rep_conf (mcs_reporter s)) (mcs_info s) (status_Code (end_error r))"
proof -
  have "plain_payload env (rep_conf (mcs_reporter s)) (mcs_info s) pl"
    using assms(2) by (auto simp: plain_payload_def proto_payload_def split: option.splits)
  from Log_Ret [OF _ this, of "mcs_ctx s" "end_error r" "mcs_startTime s" logEventEnd w] assms(1) show ?thesis
    by (auto simp: log_received_def reports_def is_entry_def)
qed

lemma monitored_inv_step:
  assumes "monitored_step env s cs d d'" and "monitored_inv env s logs0 d"
  shows "monitored_inv env s logs0 d'"
  using assms
proof (induction rule: monitored_step.induct)
  case (receive d k r x1)
  then show ?case by (auto simp: monitored_inv_def reported_def after_recv_def)
next
  case (log d r k w1)
  then have "reports s" "proto_payload env (payload d)" by (simp_all add: monitored_inv_def)
  from log_received_Ret [OF this, of r "mw d"] log show ?case by (auto simp: monitored_inv_def reported_def)
next
  case (log_panics d r k p w1)
  then have "reports s" "proto_payload env (payload d)" by (simp_all add: monitored_inv_def)
  from log_received_Ret [OF this, of r "mw d"] log_panics show ?case by simp
qed (auto simp: monitored_inv_def reported_def after_check_def proto_payload_def split: receiver.splits)

text \<open>Every step of the monitored stream is a step of the stream, or none.\<close>

lemma monitored_forward:
  assumes "monitored_step env s cs d d'" and "monitored_inv env s logs0 d"
  shows "(duplex_step cs)\<^sup>*\<^sup>* (unmonitored d) (unmonitored d')"
  using assms
proof (induction rule: monitored_step.induct)
  case (call d m k e x1)
  with send [of "unmonitored d" m k cs e x1] show ?case by (auto simp: unmonitored_def)
next
  case (call_panics d m k p x1)
  with send_panics [of "unmonitored d" m k cs p x1] show ?case by (auto simp: unmonitored_def)
next
  case (sender_acts d f k)
  with send_acts [of "unmonitored d" f k cs] show ?case by (auto simp: unmonitored_def)
next
  case (receive d k r x1)
  with recv [of "unmonitored d" k cs r x1] show ?case by (auto simp: unmonitored_def after_recv_def)
next
  case (receive_panics d k p x1)
  with recv_panics [of "unmonitored d" k cs p x1] show ?case by (auto simp: unmonitored_def)
next
  case (log d r k w1)
  then have "reports s" "proto_payload env (payload d)" by (simp_all add: monitored_inv_def)
  from log_received_Ret [OF this, of r "mw d"] log show ?case by (simp add: unmonitored_def)
next
  case (log_panics d r k p w1)
  then have "reports s" "proto_payload env (payload d)" by (simp_all add: monitored_inv_def)
  from log_received_Ret [OF this, of r "mw d"] log_panics show ?case by simp
next
  case (receiver_acts d f k)
  with recv_acts [of "unmonitored d" f k cs] show ?case by (auto simp: unmonitored_def)
qed (simp_all add: unmonitored_def after_check_def)

text \<open>
  Before a goroutine calls the stream it may have a payload to store or an entry to write, neither of which
  waits for anything.
\<close>

lemma sender_calls:
  assumes "sender_prog (sender d) = Send m k"
  shows "\<exists>d'. (monitored_step env s cs)\<^sup>*\<^sup>* d d' \<and> sender d' = SCall m k \<and> unmonitored d' = unmonitored d \<and> mw d' = mw d"
proof -
  have stored: "\<exists>d'. (monitored_step env s cs)\<^sup>*\<^sup>* d d' \<and> sender d' = SCall m k \<and> unmonitored d' = unmonitored d \<and> mw d' = mw d"
    if "sender d = SStore m k" for d
    using store [OF that, of env s cs] that
    by (intro exI [of _ "d\<lparr>payload := Some m, sender := SCall m k\<rparr>"]) (auto simp: unmonitored_def)
  show ?thesis
  proof (cases "sender d")
    case (SReady p)
    let ?d1 = "d\<lparr>sender := after_check env (payload d) m k\<rparr>"
    have first: "monitored_step env s cs d ?d1" using check [of d m k env s cs] assms SReady by simp
    have un: "unmonitored ?d1 = unmonitored d" using SReady assms by (auto simp: unmonitored_def after_check_def)
    show ?thesis
    proof (cases "sender ?d1 = SStore m k")
      case True
      from stored [OF this] obtain d' where d': "(monitored_step env s cs)\<^sup>*\<^sup>* ?d1 d'" "sender d' = SCall m k"
        "unmonitored d' = unmonitored ?d1" "mw d' = mw ?d1" by blast
      from converse_rtranclp_into_rtranclp [OF first d'(1)] d'(2-4) un show ?thesis by auto
    next
      case False
      then have "sender ?d1 = SCall m k" by (auto simp: after_check_def split: if_splits)
      with first un show ?thesis by (intro exI [of _ ?d1]) auto
    qed
  qed (use assms stored in auto)
qed

lemma receiver_ready:
  assumes "monitored_inv env s logs0 d" and "receiver_prog (receiver d) = p"
  shows "\<exists>d'. (monitored_step env s cs)\<^sup>*\<^sup>* d d' \<and> receiver d' = RReady p \<and> unmonitored d' = unmonitored d"
proof (cases "receiver d")
  case (RLog r k)
  have "reports s" "proto_payload env (payload d)" using assms(1) by (simp_all add: monitored_inv_def)
  from log_received_Ret [OF this, of r "mw d"] obtain w' where
    "log_received env s (payload d) r (mw d) = (Ret (), w')" "outside w' = outside (mw d)" by blast
  with RLog assms(2) log [of d r k env s w' cs] show ?thesis
    by (intro exI [of _ "d\<lparr>mw := w', receiver := RReady p\<rparr>"]) (auto simp: unmonitored_def)
qed (use assms(2) in auto)

lemma sender_ready:
  assumes "sender_prog (sender d) = p" and "\<And>m k. p \<noteq> Send m k"
  shows "sender d = SReady p"
  using assms by (cases "sender d") auto

text \<open>And every step of the stream can be made on the monitored stream.\<close>

lemma monitored_backward:
  assumes "monitored_inv env s logs0 d" and "duplex_step cs (unmonitored d) t"
  shows "\<exists>d'. (monitored_step env s cs)\<^sup>*\<^sup>* d d' \<and> unmonitored d' = t"
proof -
  have one: ?thesis if "(monitored_step env s cs)\<^sup>*\<^sup>* d d1" "monitored_step env s cs d1 d2" "unmonitored d2 = t" for d1 d2
    using rtranclp.rtrancl_into_rtrancl [OF that(1,2)] that(3) by blast
  from assms(2) show ?thesis
  proof (cases rule: duplex_step.cases)
    case (send m k e x1)
    then obtain d1 where d1: "(monitored_step env s cs)\<^sup>*\<^sup>* d d1" "sender d1 = SCall m k" "unmonitored d1 = unmonitored d" "mw d1 = mw d"
      using sender_calls [of d m k env s cs] by auto
    with send call [of d1 m k cs e x1 env s] show ?thesis by (intro one [OF d1(1)]) (auto simp: unmonitored_def)
  next
    case (send_panics m k p x1)
    then obtain d1 where d1: "(monitored_step env s cs)\<^sup>*\<^sup>* d d1" "sender d1 = SCall m k" "unmonitored d1 = unmonitored d" "mw d1 = mw d"
      using sender_calls [of d m k env s cs] by auto
    with send_panics call_panics [of d1 m k cs p x1 env s] show ?thesis by (intro one [OF d1(1)]) (auto simp: unmonitored_def)
  next
    case (send_acts f k)
    with sender_ready [of d "Act f k"] sender_acts [of d f k env s cs] show ?thesis
      by (intro one [of d]) (auto simp: unmonitored_def)
  next
    case (recv k r x1)
    with receiver_ready [OF assms(1), of "Recv k" cs] obtain d1 where
      d1: "(monitored_step env s cs)\<^sup>*\<^sup>* d d1" "receiver d1 = RReady (Recv k)" "unmonitored d1 = unmonitored d" by auto
    then have "outside (mw d1) = outside (mw d)" by (simp add: unmonitored_def)
    with d1 recv receive [of d1 k cs r x1 env s] show ?thesis
      by (intro one [OF d1(1)]) (auto simp: unmonitored_def after_recv_def)
  next
    case (recv_panics k p x1)
    with receiver_ready [OF assms(1), of "Recv k" cs] obtain d1 where
      d1: "(monitored_step env s cs)\<^sup>*\<^sup>* d d1" "receiver d1 = RReady (Recv k)" "unmonitored d1 = unmonitored d" by auto
    then have "outside (mw d1) = outside (mw d)" by (simp add: unmonitored_def)
    with d1 recv_panics receive_panics [of d1 k cs p x1 env s] show ?thesis
      by (intro one [OF d1(1)]) (auto simp: unmonitored_def)
  next
    case (recv_acts f k)
    with receiver_ready [OF assms(1), of "Act f k" cs] obtain d1 where
      d1: "(monitored_step env s cs)\<^sup>*\<^sup>* d d1" "receiver d1 = RReady (Act f k)" "unmonitored d1 = unmonitored d" by auto
    then have "outside (mw d1) = outside (mw d)" by (simp add: unmonitored_def)
    with d1 recv_acts receiver_acts [of d1 f k env s cs] show ?thesis
      by (intro one [OF d1(1)]) (auto simp: unmonitored_def)
  qed
qed

interpretation stream_users: bisimilar "monitored_step env s cs" "monitored_inv env s logs0" "duplex_step cs" unmonitored
  for env s cs logs0
  by unfold_locales (use monitored_inv_step monitored_forward monitored_backward in blast)+

section \<open>Properties\<close>

definition two_users :: "('x, 'r, 'q) prog \<Rightarrow> ('x, 'r, 'q) prog \<Rightarrow> 'x world \<Rightarrow> ('x, 'r, 'q) monitored" where
  "two_users p q w = \<lparr>payload = None, mw = w, sender = SReady p, receiver = RReady q, mgot = []\<rparr>"


definition send_one :: "(nat, string, string) prog" where
  "send_one = Send ''hello'' Return"


text \<open>
  The payload itself is not protected: when the server ends the call before the first message is sent, the
  receiver reads it to log while the sender is about to write it, with nothing that orders the two accesses.
\<close>

lemma payload_race:
  assumes "RecvMsg cs (outside w) = (Ret (Inl e), x1)" and "isProto env m"
  shows "\<exists>d. (monitored_step env s cs)\<^sup>*\<^sup>* (two_users (Send m k) (Recv k') w) d
    \<and> sender d = SStore m k \<and> receiver d = RLog (Inl e) k' \<and> payload d = None"
proof -
  let ?d0 = "two_users (Send m k) (Recv k') w"
  let ?d1 = "?d0\<lparr>sender := SStore m k\<rparr>"
  let ?d2 = "?d1\<lparr>mw := w\<lparr>outside := x1\<rparr>, receiver := RLog (Inl e) k', mgot := [Inl e]\<rparr>"
  have "monitored_step env s cs ?d0 ?d1"
    using check [of ?d0 m k env s cs] assms(2) by (simp add: two_users_def after_check_def)
  moreover have "monitored_step env s cs ?d1 ?d2"
    using receive [of ?d1 k' cs "Inl e" x1 env s] assms(1) by (simp add: two_users_def after_recv_def ends_def)
  ultimately have "(monitored_step env s cs)\<^sup>*\<^sup>* ?d0 ?d2" by (meson converse_rtranclp_into_rtranclp r_into_rtranclp)
  then show ?thesis by (intro exI [of _ ?d2]) (simp add: two_users_def)
qed

end
