(* ===== verification/Config.thy ===== *)
theory Config
  imports GoPrelude
begin

text \<open>
  Package config (src/config): the command line scan for the configuration file, the version
  report, the port validator, and \<open>Load\<close>, which runs the loaders of multiconfig in order and
  validates the result. The individual loaders and the validator are third-party code and enter
  \<open>Load\<close> as the fields of \<open>load_env\<close>.
\<close>

section \<open>getConfigPath\<close>

definition errMultipleFileFlag :: go_error where
  "errMultipleFileFlag = ErrNew ''the file flag can be specified at most once''"

definition errNoConfigPathValue :: go_error where
  "errNoConfigPathValue = ErrNew ''no value provided for file flag''"

text \<open>\<open>argSplit\<close>: the argument without its dashes, cut at the first equals sign.\<close>

definition argSplit :: "string \<Rightarrow> string list option" where
  "argSplit arg =
     (if HasPrefix arg ''--'' then Some (SplitN (TrimPrefix arg ''--'') ''='' 2)
      else if HasPrefix arg ''-'' then Some (SplitN (TrimPrefix arg ''-'') ''='' 2)
      else None)"

text \<open>The loop over the arguments; the result is the three return values of \<open>getConfigPath\<close>.\<close>

fun getConfigPath_loop ::
  "string \<Rightarrow> string list \<Rightarrow> string list \<Rightarrow> string \<times> string list \<times> go_error option" where
  "getConfigPath_loop configPath newArgs [] = (configPath, newArgs, None)"
| "getConfigPath_loop configPath newArgs (arg # rest) =
     (case argSplit arg of
        None \<Rightarrow> getConfigPath_loop configPath (newArgs @ [arg]) rest
      | Some parts \<Rightarrow>
          if parts = [] then getConfigPath_loop configPath (newArgs @ [arg]) rest
          else if parts ! 0 \<noteq> ''f'' \<and> parts ! 0 \<noteq> ''file''
          then getConfigPath_loop configPath (newArgs @ [arg]) rest
          else if configPath \<noteq> [] then (configPath, newArgs, Some errMultipleFileFlag)
          else if length parts = 1 then
            (case rest of
               [] \<Rightarrow> (configPath, newArgs, Some errNoConfigPathValue)
             | flagValue # rest' \<Rightarrow>
                 if HasPrefix flagValue ''--'' \<or> HasPrefix flagValue ''-''
                 then (configPath, newArgs, Some errNoConfigPathValue)
                 else getConfigPath_loop flagValue newArgs rest')
          else getConfigPath_loop (parts ! 1) newArgs rest)"

definition getConfigPath :: "string list \<Rightarrow> string \<times> string list \<times> go_error option" where
  "getConfigPath args = getConfigPath_loop [] [] args"

subsection \<open>The scan, characterised\<close>

definition is_file_flag :: "string \<Rightarrow> bool" where
  "is_file_flag arg \<longleftrightarrow>
     (case argSplit arg of None \<Rightarrow> False
      | Some parts \<Rightarrow> parts \<noteq> [] \<and> (parts ! 0 = ''f'' \<or> parts ! 0 = ''file''))"

text \<open>The ways to spell the flag with the value \<open>p\<close>: one argument with an equals sign, or two.\<close>

definition flag_name :: "string \<Rightarrow> bool" where
  "flag_name a \<longleftrightarrow> a \<in> {''-f'', ''--f'', ''-file'', ''--file''}"

definition spells_flag :: "string list \<Rightarrow> string \<Rightarrow> bool" where
  "spells_flag ts p \<longleftrightarrow>
     (\<exists>a. flag_name a \<and> (ts = [a @ ''='' @ p] \<or> ts = [a, p] \<and> \<not> HasPrefix p ''-''))"

lemma argSplit_name: "flag_name a \<Longrightarrow> \<exists>n. argSplit a = Some [n] \<and> (n = ''f'' \<or> n = ''file'')"
  by (auto simp: flag_name_def argSplit_def HasPrefix_def TrimPrefix_def SplitN_2)

lemma argSplit_value:
  "flag_name a \<Longrightarrow> \<exists>n. argSplit (a @ ''='' @ p) = Some [n, p] \<and> (n = ''f'' \<or> n = ''file'')"
  by (auto simp: flag_name_def argSplit_def HasPrefix_def TrimPrefix_def SplitN_2)

lemma is_file_flag_name [simp]: "flag_name a \<Longrightarrow> is_file_flag a"
  using argSplit_name [of a] by (auto simp: is_file_flag_def)

lemma is_file_flag_value [simp]: "flag_name a \<Longrightarrow> is_file_flag (a @ ''='' @ p)"
  using argSplit_value [of a p] by (auto simp: is_file_flag_def)

text \<open>The value behind the equals sign, and one step of the loop in terms of it.\<close>

definition flag_value :: "string \<Rightarrow> string option" where
  "flag_value arg =
     (case argSplit arg of None \<Rightarrow> None
      | Some parts \<Rightarrow> if length parts = 1 then None else Some (parts ! 1))"

lemma HasPrefix_dash: "HasPrefix v ''--'' \<Longrightarrow> HasPrefix v ''-''"
  by (auto simp: HasPrefix_def prefix_def)

lemma loop_Cons:
  "getConfigPath_loop cp na (arg # rest) =
     (if \<not> is_file_flag arg then getConfigPath_loop cp (na @ [arg]) rest
      else if cp \<noteq> [] then (cp, na, Some errMultipleFileFlag)
      else case flag_value arg of
             Some v \<Rightarrow> getConfigPath_loop v na rest
           | None \<Rightarrow> (case rest of
                 [] \<Rightarrow> (cp, na, Some errNoConfigPathValue)
               | v # r \<Rightarrow> if HasPrefix v ''-'' then (cp, na, Some errNoConfigPathValue)
                          else getConfigPath_loop v na r))"
proof (cases "argSplit arg")
  case None
  then show ?thesis by (simp add: is_file_flag_def)
next
  case (Some parts)
  then show ?thesis
    by (cases rest) (auto simp: is_file_flag_def flag_value_def dest: HasPrefix_dash)
qed

declare getConfigPath_loop.simps(2) [simp del] loop_Cons [simp]

lemma flag_value_name [simp]: "flag_name a \<Longrightarrow> flag_value a = None"
  using argSplit_name [of a] by (auto simp: flag_value_def)

lemma flag_value_value [simp]: "flag_name a \<Longrightarrow> flag_value (a @ ''='' @ p) = Some p"
  using argSplit_value [of a p] by (auto simp: flag_value_def)

lemma loop_skip_all: "\<forall>a \<in> set pre. \<not> is_file_flag a \<Longrightarrow>
    getConfigPath_loop cp na (pre @ rest) = getConfigPath_loop cp (na @ pre) rest"
  by (induction pre arbitrary: na) simp_all

lemma loop_spelled: "spells_flag ts p \<Longrightarrow>
    getConfigPath_loop [] na (ts @ rest) = getConfigPath_loop p na rest"
  by (auto simp: spells_flag_def is_file_flag_value [simplified] flag_value_value [simplified])

text \<open>Arguments that give the path \<open>p\<close> are the spellings of the flag, and no others.\<close>

definition gives_path :: "string list \<Rightarrow> string \<Rightarrow> bool" where
  "gives_path ts p \<longleftrightarrow> (\<exists>arg. is_file_flag arg \<and>
     (ts = [arg] \<and> flag_value arg = Some p
      \<or> ts = [arg, p] \<and> flag_value arg = None \<and> \<not> HasPrefix p ''-''))"

lemma is_file_flag_cases:
  assumes "is_file_flag arg"
  obtains (name) "flag_name arg" | (with_value) a p where "flag_name a" "arg = a @ ''='' @ p"
proof -
  obtain d where "d = ''-'' \<or> d = ''--''" and "HasPrefix arg d"
    and "SplitN (TrimPrefix arg d) ''='' 2 ! 0 = ''f''
         \<or> SplitN (TrimPrefix arg d) ''='' 2 ! 0 = ''file''"
    using assms by (auto simp: is_file_flag_def argSplit_def split: if_splits)
  then obtain t where d: "d = ''-'' \<or> d = ''--''" "arg = d @ t"
    and t: "SplitN t ''='' 2 ! 0 = ''f'' \<or> SplitN t ''='' 2 ! 0 = ''file''"
    using HasPrefix_TrimPrefix by blast
  show thesis
  proof (cases "Index t ''=''")
    case None
    with t have "t = ''f'' \<or> t = ''file''" by (simp add: SplitN_2)
    with d have "flag_name arg" by (auto simp: flag_name_def)
    then show thesis by (rule name)
  next
    case (Some m)
    then have "t = take m t @ ''='' @ drop (m + 1) t" by (auto dest: Index_Some_split)
    moreover from t Some have "take m t = ''f'' \<or> take m t = ''file''" by (simp add: SplitN_2)
    ultimately have "flag_name (d @ take m t)" and "arg = (d @ take m t) @ ''='' @ drop (m + 1) t"
      using d by (auto simp: flag_name_def)
    then show thesis by (rule with_value)
  qed
qed

lemma gives_path_iff: "gives_path ts p \<longleftrightarrow> spells_flag ts p"
proof
  assume "gives_path ts p"
  then obtain arg where arg: "is_file_flag arg"
    "ts = [arg] \<and> flag_value arg = Some p
      \<or> ts = [arg, p] \<and> flag_value arg = None \<and> \<not> HasPrefix p ''-''"
    by (auto simp: gives_path_def)
  from arg(1) show "spells_flag ts p"
  proof (cases rule: is_file_flag_cases)
    case name
    with arg(2) show ?thesis by (auto simp: spells_flag_def)
  next
    case (with_value a q)
    moreover from this have "flag_value arg = Some q" by (simp del: append_Cons append_Nil)
    ultimately show ?thesis using arg(2) by (auto simp: spells_flag_def)
  qed
next
  assume "spells_flag ts p"
  then show "gives_path ts p"
    unfolding spells_flag_def gives_path_def
    using is_file_flag_name is_file_flag_value flag_value_name flag_value_value by metis
qed

text \<open>Induction along the loop: an argument is kept, ends the scan, or gives the path.\<close>

lemma loop_induct [case_names nil keep stop path]:
  assumes "\<And>cp na. P cp na []"
    and "\<And>cp na arg rest. \<not> is_file_flag arg \<Longrightarrow> P cp (na @ [arg]) rest \<Longrightarrow> P cp na (arg # rest)"
    and "\<And>cp na arg rest e. is_file_flag arg \<Longrightarrow>
           getConfigPath_loop cp na (arg # rest) = (cp, na, Some e) \<Longrightarrow> P cp na (arg # rest)"
    and "\<And>v na arg ts rest. gives_path (arg # ts) v \<Longrightarrow>
           getConfigPath_loop [] na (arg # ts @ rest) = getConfigPath_loop v na rest \<Longrightarrow>
           P v na rest \<Longrightarrow> P [] na (arg # ts @ rest)"
  shows "P cp na args"
proof (induction args arbitrary: cp na rule: length_induct)
  case (1 args)
  show ?case
  proof (cases args)
    case Nil
    then show ?thesis using assms(1) by simp
  next
    case (Cons arg rest)
    show ?thesis
    proof (cases "is_file_flag arg \<and> cp = []")
      case False
      then show ?thesis
        using Cons 1 assms(2) assms(3) [of arg cp na rest errMultipleFileFlag]
        by (cases "is_file_flag arg") simp_all
    next
      case True
      show ?thesis
      proof (cases "flag_value arg")
        case (Some v)
        then show ?thesis using Cons 1 True assms(4) [of arg "[]" v na rest]
          by (simp add: gives_path_def)
      next
        case None
        show ?thesis
        proof (cases rest)
          case Nil
          with None True Cons show ?thesis
            using assms(3) [of arg cp na rest errNoConfigPathValue] by simp
        next
          case (Cons v r)
          with None True 1 \<open>args = arg # rest\<close> show ?thesis
            using assms(3) [of arg cp na rest errNoConfigPathValue] assms(4) [of arg "[v]" v na r]
            by (cases "HasPrefix v ''-''") (simp_all add: gives_path_def)
        qed
      qed
    qed
  qed
qed

lemma loop_no_flag_left:
  assumes "getConfigPath_loop cp na args = (p, newArgs, None)"
    and "\<forall>a \<in> set na. \<not> is_file_flag a"
  shows "\<forall>a \<in> set newArgs. \<not> is_file_flag a"
  using assms
proof (induction cp na args rule: loop_induct)
  case (keep cp na arg rest)
  then show ?case by simp
next
  case (stop cp na arg rest e)
  then show ?case by (simp only: prod.inject option.distinct simp_thms)
next
  case (path v na arg ts rest)
  then show ?case by metis
qed simp

lemma loop_subseq:
  assumes "getConfigPath_loop cp na args = (p, newArgs, e)"
  shows "\<exists>kept. newArgs = na @ kept \<and> subseq kept args"
  using assms
proof (induction cp na args rule: loop_induct)
  case (keep cp na arg rest)
  then obtain kept where "newArgs = (na @ [arg]) @ kept" and "subseq kept rest" by auto
  then show ?case by (intro exI [of _ "arg # kept"]) simp
next
  case (stop cp na arg rest e')
  then have "newArgs = na" by (simp only: prod.inject)
  then show ?case by simp
next
  case (path v na arg ts rest)
  then obtain kept where "newArgs = na @ kept" and "subseq kept rest" by metis
  moreover from this(2) have "subseq kept ((arg # ts) @ rest)" by (rule list_emb_append2)
  ultimately show ?case by auto
qed simp

text \<open>A path in a successful result comes from a spelled flag.\<close>

lemma loop_path_origin:
  assumes "getConfigPath_loop cp na args = (p, newArgs, None)"
  shows "p = cp \<or> (\<exists>pre ts post. args = pre @ ts @ post \<and> spells_flag ts p)"
  using assms
proof (induction cp na args rule: loop_induct)
  case (keep cp na arg rest)
  then have "p = cp \<or> (\<exists>pre ts post. rest = pre @ ts @ post \<and> spells_flag ts p)" by simp
  then show ?case by (metis append_Cons)
next
  case (stop cp na arg rest e)
  then show ?case by (simp only: prod.inject option.distinct simp_thms)
next
  case (path v na arg ts rest)
  then have "p = v \<or> (\<exists>pre ts post. rest = pre @ ts @ post \<and> spells_flag ts p)" by metis
  then show ?case using path(1) by (metis append_Cons append_Nil append_assoc gives_path_iff)
qed simp

section \<open>Version report\<close>

fun versionRequested :: "string list \<Rightarrow> bool" where
  "versionRequested [] = False"
| "versionRequested (arg # args) =
     (if arg = ''--version'' \<or> arg = ''-v'' then True else versionRequested args)"

text \<open>The fields of \<open>debug.BuildInfo\<close> that are read; \<open>Settings\<close> is a list of keys and values.\<close>

record build_info =
  Path :: string
  MainVersion :: string
  GoVersion :: string
  Settings :: "(string \<times> string) list"

record version_vars =
  revision :: string
  revisionTimestamp :: string
  dirty :: string
  buildFlags :: "string list"

definition cgo_keys :: "string list" where
  "cgo_keys = [''CGO_ENABLED'', ''CGO_FLAGS'', ''CGO_CFLAGS'', ''CGO_CPPFLAGS'',
     ''CGO_CXXFLAGS'', ''CGO_LDFLAGS'']"

definition quote_char :: string where
  "quote_char = [char_of (34::nat)]"

text \<open>The body of the loop over the settings: a switch on the key.\<close>

definition version_setting :: "string \<times> string \<Rightarrow> version_vars \<Rightarrow> version_vars" where
  "version_setting item v =
     (if fst item = ''vcs.revision'' then v\<lparr>revision := snd item\<rparr>
      else if fst item = ''vcs.time'' then v\<lparr>revisionTimestamp := snd item\<rparr>
      else if fst item = ''vcs.modified'' then
        (if snd item = ''true'' then v\<lparr>dirty := '' (dirty)''\<rparr> else v)
      else if fst item \<in> set cgo_keys then
        v\<lparr>buildFlags := buildFlags v @ [fst item @ '': '' @ quote_char @ snd item @ quote_char]\<rparr>
      else v)"

definition newline :: string where
  "newline = [CHR 0x0A]"

definition formatVersion :: "build_info \<Rightarrow> string" where
  "formatVersion info =
     (let v = fold version_setting (Settings info)
            \<lparr>revision = ''unknown'', revisionTimestamp = ''unknown'', dirty = [], buildFlags = []\<rparr>
      in Path info @ '' '' @ MainVersion info @ '' on '' @ GoVersion info @ newline
         @ ''  Revision '' @ revision v @ dirty v @ newline
         @ ''  Committed at '' @ revisionTimestamp v @ newline @ newline
         @ ''Build Flags:'' @ newline @ ''  '' @ Join (buildFlags v) (newline @ ''  ''))"

section \<open>Validators\<close>

definition validatePortNumber :: "int \<Rightarrow> go_error option" where
  "validatePortNumber input =
     (if input < 0
      then Some (ErrNew (''port numbers cannot be negative. Received: '' @ fmt_int input))
      else if input > 65535
      then Some (ErrNew (''port numbers cannot be larger than 65535. Received: '' @ fmt_int input))
      else None)"

definition port_validator :: "int \<Rightarrow> bool" where
  "port_validator field \<longleftrightarrow> validatePortNumber field = None"

text \<open>
  \<open>registerValidators\<close> registers the list of custom validators; \<open>register\<close> is the method
  \<open>RegisterValidation\<close> of the validator object, which returns the changed object or an error.
\<close>

fun register_all ::
  "('v \<Rightarrow> string \<Rightarrow> (int \<Rightarrow> bool) \<Rightarrow> 'v result) \<Rightarrow> (string \<times> (int \<Rightarrow> bool)) list \<Rightarrow> 'v \<Rightarrow> 'v result"
where
  "register_all register [] validate = Inr validate"
| "register_all register ((tag, f) # vs) validate =
     (case register validate tag f of
        Inl e \<Rightarrow> Inl e
      | Inr validate' \<Rightarrow> register_all register vs validate')"

definition registerValidators ::
  "('v \<Rightarrow> string \<Rightarrow> (int \<Rightarrow> bool) \<Rightarrow> 'v result) \<Rightarrow> 'v \<Rightarrow> 'v result" where
  "registerValidators register validate = register_all register [(''port'', port_validator)] validate"

section \<open>Load\<close>

text \<open>
  The flag and environment loaders of multiconfig with the fields that Load sets, and the private
  \<open>loaderConfig\<close> that the options change. The tag and interface loaders have no settings.
\<close>

record flag_loader =
  Args :: "string list"
  CamelCase :: bool
  StructSeparator :: string

record 'v loaderConfig =
  envCamelCase :: bool
  flagLoader :: "flag_loader option"
  validate :: "'v option"

definition WithValidator :: "'v \<Rightarrow> 'v loaderConfig \<Rightarrow> 'v loaderConfig" where
  "WithValidator v conf = conf\<lparr>validate := Some v\<rparr>"

definition WithLegacyFlags :: "'v loaderConfig \<Rightarrow> 'v loaderConfig" where
  "WithLegacyFlags conf =
     (let fl = (case flagLoader conf of
                  None \<Rightarrow> \<lparr>Args = [], CamelCase = False, StructSeparator = []\<rparr>
                | Some l \<Rightarrow> l)
      in conf\<lparr>flagLoader := Some (fl\<lparr>CamelCase := False, StructSeparator := ''-''\<rparr>)\<rparr>)"

text \<open>A loader changes the target and may fail; \<open>flag.ErrHelp\<close> is told apart from other errors.\<close>

datatype load_error = ErrHelp | LoadError go_error

type_synonym 's loader = "'s \<Rightarrow> 's \<times> load_error option"

text \<open>\<open>multiLoader.Load\<close>: the loaders one by one, up to the first error.\<close>

fun MultiLoader :: "'s loader list \<Rightarrow> 's loader" where
  "MultiLoader [] s = (s, None)"
| "MultiLoader (l # ls) s =
     (case l s of (s', Some e) \<Rightarrow> (s', Some e) | (s', None) \<Rightarrow> MultiLoader ls s')"

record field_error =
  StructNamespace :: string
  FieldValue :: string
  ActualTag :: string
  Param :: string

text \<open>\<open>validate.Struct\<close>: no error, \<open>ValidationErrors\<close>, or an error of another type.\<close>

datatype validation = Valid | ValidationErrors "field_error list" | InvalidValidationError

text \<open>The third-party code and the process environment that \<open>Load\<close> runs against.\<close>

record ('s, 'v) load_env =
  ReadBuildInfo :: "build_info option"
  tagLoad :: "'s loader"
  interfaceLoad :: "'s loader"
  yamlLoad :: "string \<Rightarrow> 's loader"
  envLoad :: "bool \<Rightarrow> 's loader"
  flagLoad :: "flag_loader option \<Rightarrow> 's loader"
  validatorNew :: 'v
  RegisterValidation :: "'v \<Rightarrow> string \<Rightarrow> (int \<Rightarrow> bool) \<Rightarrow> 'v result"
  validateStruct :: "'v \<Rightarrow> 's \<Rightarrow> validation"

text \<open>
  \<open>Load\<close> returns an error or nil with the target as the loaders left it, ends the process, or
  panics.
\<close>

datatype 's load_outcome =
    Returned 's "go_error option"
  | Exited string
  | Panicked string

definition validation_message :: "field_error \<Rightarrow> string" where
  "validation_message e =
     ''Configuration error: '' @ [CHR 0x27] @ StructNamespace e @ [CHR 0x27] @ '' = ''
     @ [CHR 0x27] @ FieldValue e @ [CHR 0x27] @ '' does not validate ''
     @ (if Param e = [] then [CHR 0x27] @ ActualTag e @ [CHR 0x27]
        else [CHR 0x27] @ ActualTag e @ ''='' @ Param e @ [CHR 0x27])"

definition default_conf :: "string list \<Rightarrow> 'v loaderConfig" where
  "default_conf newArgs =
     \<lparr>envCamelCase = True,
      flagLoader = Some \<lparr>Args = tl newArgs, CamelCase = True, StructSeparator = ''.''\<rparr>,
      validate = None\<rparr>"

definition load_chain :: "('s, 'v) load_env \<Rightarrow> 'v loaderConfig \<Rightarrow> string \<Rightarrow> 's loader list" where
  "load_chain E conf configPath =
     (if configPath \<noteq> []
      then [tagLoad E, interfaceLoad E, yamlLoad E configPath,
            envLoad E (envCamelCase conf), flagLoad E (flagLoader conf)]
      else [tagLoad E, interfaceLoad E,
            envLoad E (envCamelCase conf), flagLoad E (flagLoader conf)])"

definition validate_target :: "('s, 'v) load_env \<Rightarrow> 'v \<Rightarrow> 's \<Rightarrow> 's load_outcome" where
  "validate_target E v s =
     (case registerValidators (RegisterValidation E) v of
        Inl e \<Rightarrow> Returned s (Some e)
      | Inr v' \<Rightarrow>
          (case validateStruct E v' s of
             Valid \<Rightarrow> Returned s None
           | InvalidValidationError \<Rightarrow> Panicked ''interface conversion''
           | ValidationErrors [] \<Rightarrow> Returned s None
           | ValidationErrors (e # _) \<Rightarrow> Returned s (Some (ErrNew (validation_message e)))))"

definition chosen_validator :: "('s, 'v) load_env \<Rightarrow> 'v loaderConfig \<Rightarrow> 'v" where
  "chosen_validator E conf = (case validate conf of None \<Rightarrow> validatorNew E | Some v \<Rightarrow> v)"

definition Load ::
  "('s, 'v) load_env \<Rightarrow> 's \<Rightarrow> string list \<Rightarrow> ('v loaderConfig \<Rightarrow> 'v loaderConfig) list \<Rightarrow>
   's load_outcome" where
  "Load E s args opts =
     (if args = [] then Panicked slice_bounds_out_of_range
      else if versionRequested (tl args) \<and> ReadBuildInfo E \<noteq> None
      then Exited (formatVersion (the (ReadBuildInfo E)))
      else case getConfigPath args of
        (configPath, newArgs, Some e) \<Rightarrow> Returned s (Some e)
      | (configPath, newArgs, None) \<Rightarrow>
          if newArgs = [] then Panicked slice_bounds_out_of_range
          else let conf = fold (\<lambda>opt c. opt c) opts (default_conf newArgs)
               in case MultiLoader (load_chain E conf configPath) s of
                    (s', Some ErrHelp) \<Rightarrow> Exited []
                  | (s', Some (LoadError e)) \<Rightarrow> Returned s' (Some e)
                  | (s', None) \<Rightarrow> validate_target E (chosen_validator E conf) s')"

section \<open>Facts about the loops\<close>

text \<open>The last setting with a key decides; a tree once reported modified stays dirty.\<close>

definition last_setting :: "string \<Rightarrow> string \<Rightarrow> (string \<times> string) list \<Rightarrow> string" where
  "last_setting k d items = (case map_of (rev items) k of None \<Rightarrow> d | Some x \<Rightarrow> x)"

lemma last_setting_Cons:
  "last_setting k d ((a, x) # items) = last_setting k (if a = k then x else d) items"
  by (auto simp: last_setting_def map_add_def split: option.splits)

lemma cgo_keys_other:
  "''vcs.revision'' \<notin> set cgo_keys" "''vcs.time'' \<notin> set cgo_keys" "''vcs.modified'' \<notin> set cgo_keys"
  by (simp_all add: cgo_keys_def)

definition cgo_flag :: "string \<times> string \<Rightarrow> string" where
  "cgo_flag item = fst item @ '': '' @ quote_char @ snd item @ quote_char"

lemma fold_version_setting:
  "fold version_setting items v =
     v\<lparr>revision := last_setting ''vcs.revision'' (revision v) items,
       revisionTimestamp := last_setting ''vcs.time'' (revisionTimestamp v) items,
       dirty := (if (''vcs.modified'', ''true'') \<in> set items then '' (dirty)'' else dirty v),
       buildFlags := buildFlags v @ map cgo_flag (filter (\<lambda>item. fst item \<in> set cgo_keys) items)\<rparr>"
proof (induction items arbitrary: v)
  case Nil
  then show ?case by (simp add: last_setting_def)
next
  case (Cons item items)
  obtain a x where item: "item = (a, x)" by (cases item)
  show ?case
    unfolding item using Cons.IH [of "version_setting (a, x) v"]
    by (simp add: version_setting_def last_setting_Cons cgo_keys_other cgo_flag_def)
qed

lemma Load_cases:
  assumes "Load E s args opts = Returned s' None"
  obtains p newArgs conf where "getConfigPath args = (p, newArgs, None)" "newArgs \<noteq> []"
    "conf = fold (\<lambda>opt c. opt c) opts (default_conf newArgs)"
    "MultiLoader (load_chain E conf p) s = (s', None)" "validate_target E (chosen_validator E conf) s' = Returned s' None"
proof -
  obtain p newArgs e where g: "getConfigPath args = (p, newArgs, e)" by (cases "getConfigPath args")
  with assms have e: "e = None" and n: "newArgs \<noteq> []"
    by (auto simp: Load_def split: if_splits option.splits)
  define conf where "conf = fold (\<lambda>opt c. opt c) opts (default_conf newArgs)"
  obtain s1 r where m: "MultiLoader (load_chain E conf p) s = (s1, r)"
    by (cases "MultiLoader (load_chain E conf p) s")
  have "r = None"
  proof (cases r)
    case (Some le)
    with assms g e n m show ?thesis
      by (cases le) (auto simp: Load_def conf_def split: if_splits)
  qed
  with assms g e n m have v: "validate_target E (chosen_validator E conf) s1 = Returned s' None"
    by (auto simp: Load_def conf_def Let_def split: if_splits)
  then have "s1 = s'"
    by (auto simp: validate_target_def split: sum.splits validation.splits list.splits)
  with g e n m v \<open>r = None\<close> show thesis using that conf_def by blast
qed

definition overlay :: "('k \<rightharpoonup> 'x) \<Rightarrow> ('k \<rightharpoonup> 'x) loader" where
  "overlay m s = (s ++ m, None)"

text \<open>An environment in which each source knows some keys, for the examples.\<close>

definition demo_env :: "(string \<rightharpoonup> string, unit) load_env" where
  "demo_env =
     \<lparr>ReadBuildInfo = None, tagLoad = overlay [''a'' \<mapsto> ''from tag''],
      interfaceLoad = overlay Map.empty, yamlLoad = (\<lambda>f. overlay [''b'' \<mapsto> ''from '' @ f]),
      envLoad = (\<lambda>c. overlay [''a'' \<mapsto> ''from env'']),
      flagLoad = (\<lambda>l. overlay [''a'' \<mapsto> ''from flag'']),
      validatorNew = (), RegisterValidation = (\<lambda>v t f. Inr v),
      validateStruct = (\<lambda>v s. if s ''a'' = None then InvalidValidationError else Valid)\<rparr>"

section \<open>Properties\<close>

text \<open>A file flag in any of its spellings, between arguments that are no file flags, is found:
  the scan returns its value and the other arguments in their order.\<close>

theorem getConfigPath_spelled:
  assumes "\<forall>a \<in> set pre. \<not> is_file_flag a" and "spells_flag ts p"
    and "\<forall>a \<in> set post. \<not> is_file_flag a"
  shows "getConfigPath (pre @ ts @ post) = (p, pre @ post, None)"
  using assms loop_skip_all [of pre "[]" "[]" "ts @ post"] loop_spelled [of ts p pre post]
    loop_skip_all [of post p pre "[]"]
  by (simp add: getConfigPath_def)

theorem getConfigPath_spelled_witness:
  "getConfigPath ([''prog'', ''-v''] @ [''--file'', ''/etc/app.yaml''] @ [''--f.x=1''])
     = (''/etc/app.yaml'', [''prog'', ''-v'', ''--f.x=1''], None)"
proof -
  have "spells_flag [''--file'', ''/etc/app.yaml''] ''/etc/app.yaml''"
    by (auto simp: spells_flag_def flag_name_def HasPrefix_def)
  moreover have "\<forall>a \<in> set [''prog'', ''-v'']. \<not> is_file_flag a"
    and "\<forall>a \<in> set [''--f.x=1'']. \<not> is_file_flag a"
    by (simp_all add: is_file_flag_def argSplit_def HasPrefix_def TrimPrefix_def SplitN_2)
  ultimately show ?thesis
    using getConfigPath_spelled [of "[''prog'', ''-v'']" "[''--file'', ''/etc/app.yaml'']"
        "''/etc/app.yaml''" "[''--f.x=1'']"] by simp
qed



text \<open>C36: A second file flag after one with a value is refused, and so is a file flag without a
  value: at the end of the arguments or in front of something that starts with a dash.\<close>

theorem getConfigPath_errors:
  assumes "\<forall>a \<in> set pre. \<not> is_file_flag a" and "spells_flag ts p" and "p \<noteq> []"
    and "\<forall>a \<in> set mid. \<not> is_file_flag a" and "is_file_flag again" and "flag_name a"
    and "HasPrefix dashed ''-''"
  shows "getConfigPath (pre @ ts @ mid @ again # post) = (p, pre @ mid, Some errMultipleFileFlag)
    \<and> getConfigPath (pre @ [a]) = ([], pre, Some errNoConfigPathValue)
    \<and> getConfigPath (pre @ a # dashed # post) = ([], pre, Some errNoConfigPathValue)"
proof (intro conjI)
  show "getConfigPath (pre @ ts @ mid @ again # post) = (p, pre @ mid, Some errMultipleFileFlag)"
    using assms(1-5) loop_skip_all [of pre "[]" "[]" "ts @ mid @ again # post"]
      loop_spelled [of ts p pre] loop_skip_all [of mid p pre "again # post"]
    by (simp add: getConfigPath_def)
  show "getConfigPath (pre @ [a]) = ([], pre, Some errNoConfigPathValue)"
    using assms(1,6) loop_skip_all [of pre "[]" "[]" "[a]"] by (simp add: getConfigPath_def)
  show "getConfigPath (pre @ a # dashed # post) = ([], pre, Some errNoConfigPathValue)"
    using assms(1,6,7) loop_skip_all [of pre "[]" "[]" "a # dashed # post"]
    by (simp add: getConfigPath_def)
qed

theorem getConfigPath_errors_witness:
  "getConfigPath [''-f=a'', ''--file=b''] = (''a'', [], Some errMultipleFileFlag)
   \<and> getConfigPath [''prog'', ''-f''] = ([], [''prog''], Some errNoConfigPathValue)"
proof -
  have sp: "spells_flag [''-f=a''] ''a''" by (auto simp: spells_flag_def flag_name_def)
  have fl: "is_file_flag ''--file=b''" and pr: "\<not> is_file_flag ''prog''"
    by (simp_all add: is_file_flag_def argSplit_def HasPrefix_def TrimPrefix_def SplitN_2)
  have nm: "flag_name ''-f''" and da: "HasPrefix ''-x'' ''-''"
    by (simp_all add: flag_name_def HasPrefix_def)
  show ?thesis
    using getConfigPath_errors [of "[]" "[''-f=a'']" "''a''" "[]" "''--file=b''" "''-f''" "''-x''" "[]"]
      getConfigPath_errors [of "[''prog'']" "[''-f=a'']" "''a''" "[]" "''--file=b''" "''-f''" "''-x''"]
      sp fl pr nm da by simp
qed

text \<open>An empty value does not count as a value: after it, a second file flag is accepted, although
  the error message says that the flag can be given at most once.\<close>

theorem getConfigPath_empty_value_repeats:
  assumes "flag_name a" and "spells_flag ts p"
  shows "getConfigPath ((a @ ''='') # ts) = (p, [], None)"
  using assms loop_spelled [of "[a @ ''='']" "[]" "[]" ts] loop_spelled [of ts p "[]" "[]"]
  by (auto simp: getConfigPath_def spells_flag_def)

theorem getConfigPath_empty_value_repeats_witness:
  "getConfigPath [''-f='', ''-f'', ''x''] = (''x'', [], None)"
proof -
  have "flag_name ''-f''" and "spells_flag [''-f'', ''x''] ''x''"
    by (auto simp: spells_flag_def flag_name_def HasPrefix_def)
  from getConfigPath_empty_value_repeats [OF this] show ?thesis by simp
qed

text \<open>C34: With loaders that overwrite the keys they know, a successful Load leaves each key with the
  value of the strongest source that has it: flags over environment over configuration file over
  ApplyDefaults over default tags over the initial value.\<close>

theorem Load_precedence:
  assumes "Load E s args opts = Returned s' None"
    and "tagLoad E = overlay mt" and "interfaceLoad E = overlay mi"
    and "\<And>f. yamlLoad E f = overlay (my f)" and "\<And>c. envLoad E c = overlay me"
    and "\<And>l. flagLoad E l = overlay mf"
  shows "s' = s ++ mt ++ mi ++ (case fst (getConfigPath args) of [] \<Rightarrow> Map.empty | f \<Rightarrow> my f)
                ++ me ++ mf"
proof -
  from assms(1) obtain p newArgs conf where "getConfigPath args = (p, newArgs, None)"
    and "MultiLoader (load_chain E conf p) s = (s', None)" by (rule Load_cases)
  then show ?thesis
    using assms(2-6) by (cases p) (auto simp: load_chain_def overlay_def)
qed

theorem Load_precedence_witness:
  "\<exists>s'. Load demo_env Map.empty [''prog'', ''-f=c.yaml'', ''-x''] [] = Returned s' None
     \<and> s' ''a'' = Some ''from flag'' \<and> s' ''b'' = Some ''from c.yaml''"
proof -
  let ?args = "[''prog'', ''-f=c.yaml'', ''-x'']"
  have g: "getConfigPath ?args = (''c.yaml'', [''prog'', ''-x''], None)"
    by (simp add: getConfigPath_def is_file_flag_def flag_value_def argSplit_def HasPrefix_def
        TrimPrefix_def SplitN_2)
  then obtain s' where run: "Load demo_env Map.empty ?args [] = Returned s' None"
    by (simp add: Load_def default_conf_def load_chain_def overlay_def validate_target_def
        registerValidators_def chosen_validator_def demo_env_def)
  have "s' = Map.empty ++ [''a'' \<mapsto> ''from tag''] ++ Map.empty
      ++ (case fst (getConfigPath ?args) of [] \<Rightarrow> Map.empty | f \<Rightarrow> [''b'' \<mapsto> ''from '' @ f])
      ++ [''a'' \<mapsto> ''from env''] ++ [''a'' \<mapsto> ''from flag'']"
    by (rule Load_precedence [OF run]) (simp_all add: demo_env_def fun_upd_def)
  with run g show ?thesis by simp
qed

text \<open>Load returns without an error only if the validator accepts the loaded configuration,
  after the custom validators were registered with it.\<close>

theorem Load_validated:
  assumes "Load E s args opts = Returned s' None"
    and "conf = fold (\<lambda>opt c. opt c) opts (default_conf (fst (snd (getConfigPath args))))"
  shows "\<exists>v'. registerValidators (RegisterValidation E) (chosen_validator E conf) = Inr v'
           \<and> validateStruct E v' s' \<in> {Valid, ValidationErrors []}"
proof -
  from assms(1) obtain p newArgs conf' where "getConfigPath args = (p, newArgs, None)"
    and "conf' = fold (\<lambda>opt c. opt c) opts (default_conf newArgs)"
    and "validate_target E (chosen_validator E conf') s' = Returned s' None"
    by (rule Load_cases)
  with assms(2) have "validate_target E (chosen_validator E conf) s' = Returned s' None" by simp
  then show ?thesis
    by (auto simp: validate_target_def split: sum.splits validation.splits list.splits)
qed

theorem Load_validated_witness:
  "\<exists>s'. Load demo_env Map.empty [''prog''] [] = Returned s' None
     \<and> validateStruct demo_env () s' \<in> {Valid, ValidationErrors []}"
proof -
  have g: "getConfigPath [''prog''] = ([], [''prog''], None)"
    by (simp add: getConfigPath_def is_file_flag_def argSplit_def HasPrefix_def)
  then obtain s' where run: "Load demo_env Map.empty [''prog''] [] = Returned s' None"
    by (simp add: Load_def default_conf_def load_chain_def overlay_def validate_target_def
        registerValidators_def chosen_validator_def demo_env_def)
  from Load_validated [OF this refl] show ?thesis using run by auto
qed

text \<open>The version report shows the last revision and commit time of the build settings, is
  marked dirty exactly if some setting says so, and lists the cgo settings in order.\<close>

theorem formatVersion_eq:
  "formatVersion info =
     Path info @ '' '' @ MainVersion info @ '' on '' @ GoVersion info @ newline
     @ ''  Revision '' @ last_setting ''vcs.revision'' ''unknown'' (Settings info)
     @ (if (''vcs.modified'', ''true'') \<in> set (Settings info) then '' (dirty)'' else []) @ newline
     @ ''  Committed at '' @ last_setting ''vcs.time'' ''unknown'' (Settings info) @ newline @ newline
     @ ''Build Flags:'' @ newline @ ''  ''
     @ Join (map cgo_flag (filter (\<lambda>item. fst item \<in> set cgo_keys) (Settings info))) (newline @ ''  '')"
  by (simp add: formatVersion_def fold_version_setting Let_def)

text \<open>The port validator accepts exactly the numbers of 16 bits.\<close>

theorem port_validator_bounds: "port_validator n \<longleftrightarrow> (\<exists>w :: 16 word. uint w = n)"
proof -
  have "(\<exists>w :: 16 word. uint w = n) \<longleftrightarrow> 0 \<le> n \<and> n < 65536"
  proof
    assume "\<exists>w :: 16 word. uint w = n"
    then show "0 \<le> n \<and> n < 65536" using uint_lt2p [where 'a = 16] by force
  next
    assume "0 \<le> n \<and> n < 65536"
    then show "\<exists>w :: 16 word. uint w = n"
      by (intro exI [of _ "word_of_int n"]) (simp add: uint_word_of_int)
  qed
  then show ?thesis by (auto simp: port_validator_def validatePortNumber_def)
qed

end
