(* ===== verification/Lifecycle.thy ===== *)
theory Lifecycle
  imports GoPrelude
begin

text \<open>
  The lifecycle of an fx application (src/vendor/go.uber.org/fx/internal/lifecycle/lifecycle.go and app.go),
  which runs the hooks that the modules append: forwards on start, stopping at the first error and rolling
  back, and backwards on stop. A hook works on the state of the world, and the context of the call may
  expire in between.
\<close>

section \<open>Hooks and the two loops\<close>

type_synonym 'w action = "'w \<Rightarrow> go_error option \<times> 'w"

record 'w hook =
  hook_start :: "'w action option"
  hook_stop :: "'w action option"

datatype appState = AppStopped | IncompleteStart | AppStarted

record 'w lifecycle =
  app_state :: appState
  hooks :: "'w hook list"
  numStarted :: nat

definition new_lifecycle :: "'w lifecycle" where
  "new_lifecycle = \<lparr>app_state = AppStopped, hooks = [], numStarted = 0\<rparr>"

definition lc_Append :: "'w hook \<Rightarrow> 'w lifecycle \<Rightarrow> 'w lifecycle" where
  "lc_Append h lc = lc\<lparr>hooks := hooks lc @ [h]\<rparr>"

text \<open>The result is the error, the number of hooks that have started, and the world.\<close>

fun start_loop :: "('w \<Rightarrow> go_error option) \<Rightarrow> 'w hook list \<Rightarrow> nat \<Rightarrow> 'w \<Rightarrow> go_error option \<times> nat \<times> 'w" where
  "start_loop ctx_Err [] n w = (None, n, w)"
| "start_loop ctx_Err (h # hs) n w =
     (case ctx_Err w of
        Some e \<Rightarrow> (Some e, n, w)
      | None \<Rightarrow>
          (case hook_start h of
             None \<Rightarrow> start_loop ctx_Err hs (Suc n) w
           | Some f \<Rightarrow> (case f w of
                         (Some e, w1) \<Rightarrow> (Some e, n, w1)
                       | (None, w1) \<Rightarrow> start_loop ctx_Err hs (Suc n) w1)))"

text \<open>The hooks in the order in which they are stopped; the errors are put together by \<open>multierr.Combine\<close>.\<close>

fun stop_loop :: "('w \<Rightarrow> go_error option) \<Rightarrow> 'w hook list \<Rightarrow> go_error list \<Rightarrow> 'w \<Rightarrow> go_error list \<times> 'w" where
  "stop_loop ctx_Err [] errs w = (errs, w)"
| "stop_loop ctx_Err (h # hs) errs w =
     (case ctx_Err w of
        Some e \<Rightarrow> ([e], w)
      | None \<Rightarrow>
          (case hook_stop h of
             None \<Rightarrow> stop_loop ctx_Err hs errs w
           | Some f \<Rightarrow> (case f w of
                         (Some e, w1) \<Rightarrow> stop_loop ctx_Err hs (errs @ [e]) w1
                       | (None, w1) \<Rightarrow> stop_loop ctx_Err hs errs w1)))"

definition start_refused :: go_error where
  "start_refused = ErrNew ''attempted to start lifecycle when in state''"

definition lc_Start :: "('w \<Rightarrow> go_error option) \<Rightarrow> 'w lifecycle \<Rightarrow> 'w \<Rightarrow> go_error option \<times> 'w lifecycle \<times> 'w" where
  "lc_Start ctx_Err lc w =
     (if app_state lc \<noteq> AppStopped then (Some start_refused, lc, w)
      else case start_loop ctx_Err (hooks lc) 0 w of
             (err, n, w1) \<Rightarrow>
               (err, lc\<lparr>numStarted := n, app_state := (if err = None then AppStarted else IncompleteStart)\<rparr>, w1))"

definition lc_Stop :: "('w \<Rightarrow> go_error option) \<Rightarrow> 'w lifecycle \<Rightarrow> 'w \<Rightarrow> go_error list \<times> 'w lifecycle \<times> 'w" where
  "lc_Stop ctx_Err lc w =
     (if app_state lc = AppStopped then ([], lc, w)
      else case stop_loop ctx_Err (rev (take (numStarted lc) (hooks lc))) [] w of
             (errs, w1) \<Rightarrow> (errs, lc\<lparr>app_state := AppStopped\<rparr>, w1))"

text \<open>\<open>app.start\<close> rolls back when a hook fails.\<close>

definition app_Start :: "('w \<Rightarrow> go_error option) \<Rightarrow> 'w lifecycle \<Rightarrow> 'w \<Rightarrow> go_error list \<times> 'w lifecycle \<times> 'w" where
  "app_Start ctx_Err lc w =
     (case lc_Start ctx_Err lc w of
        (None, lc1, w1) \<Rightarrow> ([], lc1, w1)
      | (Some e, lc1, w1) \<Rightarrow> (case lc_Stop ctx_Err lc1 w1 of (errs, lc2, w2) \<Rightarrow> (e # errs, lc2, w2)))"

section \<open>Runs without a timeout\<close>

abbreviation never :: "'w \<Rightarrow> go_error option" where
  "never \<equiv> \<lambda>_. None"

definition run_action :: "'w action option \<Rightarrow> 'w \<Rightarrow> 'w" where
  "run_action a w = (case a of None \<Rightarrow> w | Some f \<Rightarrow> snd (f w))"

lemma run_action_simps [simp]: "run_action None w = w" "run_action (Some f) w = snd (f w)"
  by (simp_all add: run_action_def)

text \<open>Stopping goes on after an error, so that every hook runs.\<close>

lemma stop_loop_never: "snd (stop_loop never hs errs w) = fold (\<lambda>h. run_action (hook_stop h)) hs w"
  by (induction hs arbitrary: errs w) (auto split: option.splits prod.splits)

text \<open>A failed start leaves exactly the hooks in front of the failing one to be stopped.\<close>

lemma start_loop_never:
  "start_loop never hs n w = (err, m, w') \<Longrightarrow>
     (case err of
        None \<Rightarrow> m = n + length hs \<and> w' = fold (\<lambda>h. run_action (hook_start h)) hs w
      | Some e \<Rightarrow> \<exists>k f. k < length hs \<and> m = n + k \<and> hook_start (hs ! k) = Some f
          \<and> f (fold (\<lambda>h. run_action (hook_start h)) (take k hs) w) = (Some e, w'))"
proof (induction hs arbitrary: n w)
  case (Cons h hs)
  define w1 where "w1 = run_action (hook_start h) w"
  show ?case
  proof (cases "\<exists>f e w1. hook_start h = Some f \<and> f w = (Some e, w1)")
    case True
    with Cons.prems show ?thesis by (force split: option.splits prod.splits)
  next
    case False
    with Cons.prems have "start_loop never hs (Suc n) w1 = (err, m, w')"
      by (auto simp: w1_def split: option.splits prod.splits)
    from Cons.IH [OF this] show ?thesis
    proof (cases err)
      case (Some e)
      with Cons.IH [OF \<open>start_loop never hs (Suc n) w1 = (err, m, w')\<close>] obtain k f where
        "k < length hs" "m = Suc n + k" "hook_start (hs ! k) = Some f"
        "f (fold (\<lambda>h. run_action (hook_start h)) (take k hs) w1) = (Some e, w')" by auto
      then show ?thesis using Some w1_def by (auto intro!: exI [of _ "Suc k"])
    qed (simp add: w1_def)
  qed
qed auto

lemma app_Stop_reverse:
  assumes "app_state lc = AppStopped" and "lc_Start never lc w = (None, lc1, w1)"
  shows "snd (snd (lc_Stop never lc1 w2)) = fold (\<lambda>h. run_action (hook_stop h)) (rev (hooks lc)) w2"
proof -
  obtain err n w' where s: "start_loop never (hooks lc) 0 w = (err, n, w')" by (metis surj_pair)
  with assms have "err = None" "lc1 = lc\<lparr>numStarted := n, app_state := AppStarted\<rparr>"
    by (auto simp: lc_Start_def)
  with start_loop_never [OF s] show ?thesis
    using stop_loop_never [of "rev (hooks lc)" "[]" w2] by (auto simp: lc_Stop_def split: prod.splits)
qed

text \<open>What every hook keeps is kept by any number of them, also when a deadline cuts the loop short.\<close>

definition keeps :: "('w \<Rightarrow> bool) \<Rightarrow> 'w action option \<Rightarrow> bool" where
  "keeps P a \<longleftrightarrow> (\<forall>f w. a = Some f \<and> P w \<longrightarrow> P (snd (f w)))"

lemma start_loop_kept:
  "start_loop ctx_Err hs n w = (err, m, w') \<Longrightarrow> P w \<Longrightarrow> \<forall>h \<in> set hs. keeps P (hook_start h) \<Longrightarrow> P w'"
proof (induction hs arbitrary: n w)
  case (Cons h hs)
  have "P (run_action (hook_start h) w)" using Cons.prems(2,3) by (auto simp: keeps_def run_action_def split: option.split)
  then show ?case using Cons.IH [of _ w] Cons.IH [of _ "run_action (hook_start h) w"] Cons.prems
    by (auto simp: run_action_def split: option.splits prod.splits)
qed simp

lemma stop_loop_kept:
  "stop_loop ctx_Err hs errs w = (errs', w') \<Longrightarrow> P w \<Longrightarrow> \<forall>h \<in> set hs. keeps P (hook_stop h) \<Longrightarrow> P w'"
proof (induction hs arbitrary: errs w)
  case (Cons h hs)
  have "P (run_action (hook_stop h) w)" using Cons.prems(2,3) by (auto simp: keeps_def run_action_def split: option.split)
  then show ?case using Cons.IH [of _ w] Cons.IH [of _ "run_action (hook_stop h) w"] Cons.prems
    by (auto simp: run_action_def split: option.splits prod.splits)
qed simp

end
