(* ===== verification/Job.thy ===== *)
theory Job
  imports Goroutines Lifecycle ZapLog
begin

text \<open>
  The example of a job that runs inside an application (src/examples/job/job.go): a dependency that owns a ticker,
  the goroutine that works on its ticks and shuts the application down when it is done, and the hooks that start
  and cancel it. What an iteration of the job returns is a parameter of the loop; the code's own
  \<open>sideEffect\<close> always returns nil.
\<close>

section \<open>State\<close>

datatype job_pc = JobIdle | JobSelecting | JobReturned | JobDone

text \<open>
  The ticker of the dependency, the fields of the job, the context of the goroutine, the calls of
  \<open>Shutdown\<close>, and what the stop hook has returned: the errors that \<open>ErrorOrNil\<close> wraps, none being nil.
\<close>

record job_run =
  ticker_on :: bool
  job_pc :: job_pc
  job_count :: int
  job_err :: "go_error list"
  job_cancelled :: bool
  shutdowns :: nat
  stop_result :: "go_error list option"
  job_log :: "entry list"

definition new_run :: job_run where
  "new_run = \<lparr>ticker_on = False, job_pc = JobIdle, job_count = 0, job_err = [], job_cancelled = False, shutdowns = 0,
     stop_result = None, job_log = []\<rparr>"

definition job_logs :: "string \<Rightarrow> field list \<Rightarrow> job_run \<Rightarrow> job_run" where
  "job_logs msg fs s = s\<lparr>job_log := job_log s @ [log_at InfoLevel [] msg fs]\<rparr>"

section \<open>Dependency\<close>

definition dependency_Stop :: "job_run action" where
  "dependency_Stop s = (None, s\<lparr>ticker_on := False\<rparr>)"

text \<open>\<open>time.NewTicker\<close> panics on an interval that is not positive.\<close>

definition NewDependency :: "int \<Rightarrow> job_run lifecycle \<Rightarrow> job_run \<Rightarrow> (job_run lifecycle \<times> job_run) outcome" where
  "NewDependency interval lc s =
     (if interval \<le> 0 then Panic ''non-positive interval for NewTicker''
      else Ret (lc_Append \<lparr>hook_start = None, hook_stop = Some dependency_Stop\<rparr> lc, s\<lparr>ticker_on := True\<rparr>))"

section \<open>Job\<close>

definition NewJob :: "job_run \<Rightarrow> job_run" where
  "NewJob s = s\<lparr>job_count := 0, job_err := []\<rparr>"

definition sideEffect :: "go_error option" where
  "sideEffect = None"

text \<open>The two cases of the select of \<open>Run\<close>; \<open>err\<close> is what the side effect returned.\<close>

definition job_canceled :: "job_run \<Rightarrow> job_run" where
  "job_canceled s = (job_logs ''Job was explicitly canceled'' [] s)\<lparr>job_pc := JobReturned\<rparr>"

definition job_tick :: "go_error option \<Rightarrow> job_run \<Rightarrow> job_run" where
  "job_tick err s =
     (let n = job_count s + 1;
          s1 = job_logs ''Job progress'' [Integer ''count'' n]
                 (s\<lparr>job_err := (case err of None \<Rightarrow> job_err s | Some e \<Rightarrow> job_err s @ [e]), job_count := n\<rparr>)
      in if n = 5 then (job_logs ''Job finished'' [Integer ''count'' n] s1)\<lparr>job_pc := JobReturned\<rparr> else s1)"

text \<open>The hook of \<open>InvokeJob\<close>: start spawns the goroutine, stop cancels its context and does not wait for it.\<close>

definition job_OnStart :: "job_run action" where
  "job_OnStart s = (None, s\<lparr>job_pc := JobSelecting\<rparr>)"

text \<open>The text of several errors, and \<open>ErrorOrNil\<close> (src/examples/vendor/github.com/hashicorp/go-multierror).\<close>

definition ListFormatFunc :: "go_error list \<Rightarrow> string" where
  "ListFormatFunc es =
     (case es of
        [e] \<Rightarrow> ''1 error occurred:'' @ [CHR 0x0A, CHR 0x09] @ ''* '' @ Error e @ [CHR 0x0A, CHR 0x0A]
      | _ \<Rightarrow> itoa (length es) @ '' errors occurred:'' @ [CHR 0x0A, CHR 0x09]
               @ Join (map (\<lambda>e. ''* '' @ Error e) es) [CHR 0x0A, CHR 0x09] @ [CHR 0x0A, CHR 0x0A])"

definition ErrorOrNil :: "go_error list \<Rightarrow> go_error option" where
  "ErrorOrNil es = (if es = [] then None else Some (ErrNew (ListFormatFunc es)))"

definition job_OnStop :: "job_run action" where
  "job_OnStop s = (ErrorOrNil (job_err s), s\<lparr>job_cancelled := True, stop_result := Some (job_err s)\<rparr>)"

definition InvokeJob :: "job_run lifecycle \<Rightarrow> job_run lifecycle" where
  "InvokeJob lc = lc_Append \<lparr>hook_start = Some job_OnStart, hook_stop = Some job_OnStop\<rparr> lc"

text \<open>
  The goroutine and the hooks, interleaved. The ticker delivers as long as it is not stopped; when the context is
  cancelled as well, the select takes either case. After \<open>Run\<close> the goroutine calls \<open>Shutdown\<close>.
\<close>

inductive job_step :: "(int \<Rightarrow> go_error option) \<Rightarrow> job_run \<Rightarrow> job_run \<Rightarrow> bool" for effect :: "int \<Rightarrow> go_error option" where
  ctx_Done: "job_pc s = JobSelecting \<Longrightarrow> job_cancelled s \<Longrightarrow> job_step effect s (job_canceled s)"
| tick: "job_pc s = JobSelecting \<Longrightarrow> ticker_on s \<Longrightarrow> job_step effect s (job_tick (effect (job_count s)) s)"
| Shutdown: "job_pc s = JobReturned \<Longrightarrow> job_step effect s (s\<lparr>shutdowns := Suc (shutdowns s), job_pc := JobDone\<rparr>)"
| OnStop: "stop_result s = None \<Longrightarrow> job_step effect s (snd (job_OnStop s))"
| dependency: "stop_result s \<noteq> None \<Longrightarrow> job_step effect s (snd (dependency_Stop s))"

inductive_cases job_stepE: "job_step effect s s'"

text \<open>The application of the example, up to its start.\<close>

definition job_started :: "int \<Rightarrow> (job_run lifecycle \<times> job_run) outcome" where
  "job_started interval =
     (case NewDependency interval new_lifecycle new_run of
        Panic p \<Rightarrow> Panic p
      | Ret (lc, s) \<Rightarrow>
          (case lc_Start never (InvokeJob lc) (NewJob s) of (err, lc1, s1) \<Rightarrow> Ret (lc1, s1)))"

section \<open>Runs\<close>

text \<open>The errors of the first iterations.\<close>

definition effects :: "(int \<Rightarrow> go_error option) \<Rightarrow> int \<Rightarrow> go_error list" where
  "effects effect n = List.map_filter effect (map int [0..<nat n])"

lemma effects_Suc:
  "0 \<le> n \<Longrightarrow> effects effect (n + 1) = effects effect n @ (case effect n of None \<Rightarrow> [] | Some e \<Rightarrow> [e])"
  by (cases "effect n") (simp_all add: effects_def nat_add_distrib map_filter_def)

lemmas effects_5 = effects_Suc [of 4, simplified]

lemma effects_0 [simp]: "effects effect 0 = []"
  by (simp add: effects_def map_filter_def)

definition job_inv :: "(int \<Rightarrow> go_error option) \<Rightarrow> job_run \<Rightarrow> bool" where
  "job_inv effect s \<longleftrightarrow>
     job_pc s \<noteq> JobIdle \<and> 0 \<le> job_count s \<and> job_count s \<le> 5 \<and> job_err s = effects effect (job_count s)
     \<and> (job_pc s = JobSelecting \<longrightarrow> job_count s < 5)
     \<and> (job_pc s \<noteq> JobSelecting \<longrightarrow> job_count s = 5 \<or> job_cancelled s)
     \<and> shutdowns s = (if job_pc s = JobDone then 1 else 0)
     \<and> (ticker_on s \<or> stop_result s \<noteq> None) \<and> (job_cancelled s \<longleftrightarrow> stop_result s \<noteq> None)"

lemmas job_defs = job_tick_def job_canceled_def job_logs_def job_OnStop_def dependency_Stop_def Let_def

lemma job_started_inv:
  assumes "0 < interval"
  shows "\<exists>lc s. job_started interval = Ret (lc, s) \<and> job_inv effect s \<and> stop_result s = None
    \<and> snd (snd (lc_Stop never lc t)) = snd (dependency_Stop (snd (job_OnStop t)))"
  using assms
  by (simp add: job_started_def NewDependency_def InvokeJob_def lc_Append_def lc_Start_def lc_Stop_def new_lifecycle_def
      new_run_def NewJob_def job_OnStart_def job_inv_def split: prod.splits option.splits)

lemma job_inv_step: "job_step effect s s' \<Longrightarrow> job_inv effect s \<Longrightarrow> job_inv effect s'"
  by (induction rule: job_step.induct) (auto simp: job_inv_def job_defs effects_Suc effects_5 split: option.splits)

definition job_work :: "job_run \<Rightarrow> nat" where
  "job_work s = (case job_pc s of JobDone \<Rightarrow> 0 | JobReturned \<Rightarrow> 1 | _ \<Rightarrow> 2 + nat (5 - job_count s))"

text \<open>The job can always come nearer to its end, on the ticks that are left or on the cancelled context.\<close>

lemma job_advances:
  assumes inv: "job_inv effect s" and "job_pc s \<noteq> JobDone"
  shows "\<exists>s'. job_step effect s s' \<and> stop_result s' = stop_result s \<and> job_work s' < job_work s"
proof -
  consider "job_pc s = JobReturned" | "job_pc s = JobSelecting" "job_cancelled s" | "job_pc s = JobSelecting" "ticker_on s"
    using assms by (cases "job_pc s") (auto simp: job_inv_def)
  then show ?thesis
  proof cases
    case 1
    then show ?thesis using Shutdown [of s effect] by (auto simp: job_work_def)
  next
    case 2
    with inv show ?thesis
      using ctx_Done [of s effect] by (intro exI [of _ "job_canceled s"]) (auto simp: job_work_def job_defs)
  next
    case 3
    with inv show ?thesis
      using tick [of s effect] by (intro exI [of _ "job_tick (effect (job_count s)) s"])
        (auto simp: job_work_def job_inv_def job_defs)
  qed
qed

interpretation job: draining "job_step effect" "job_inv effect" "\<lambda>s. job_pc s = JobDone" stop_result job_work for effect
  by unfold_locales (use job_inv_step job_advances in blast)+

text \<open>The goroutine alone, before the stop hook has run.\<close>

definition job_working :: "(int \<Rightarrow> go_error option) \<Rightarrow> job_run \<Rightarrow> job_run \<Rightarrow> bool" where
  "job_working effect s s' \<longleftrightarrow> job_step effect s s' \<and> stop_result s' = None"

interpretation job_alone: draining "job_working effect" "\<lambda>s. job_inv effect s \<and> stop_result s = None"
  "\<lambda>s. job_pc s = JobDone" "\<lambda>_. ()" job_work for effect
  by unfold_locales (use job_inv_step job_advances in \<open>fastforce simp: job_working_def\<close>)+

section \<open>Properties\<close>

text \<open>
  The life of the example job. With a positive interval the application starts, and in every run of its
  goroutine beside the stop hooks the job works on at most five ticks, keeps the errors of exactly the
  iterations that ran, and calls \<open>Shutdown\<close> once, at its end, which it reaches only after five ticks or when it
  was cancelled; from every state that end can be reached. Stopping the application cancels the job before it
  stops the ticker that the job depends on. With an interval that is not positive, construction panics.
\<close>

theorem job_runs_to_end:
  assumes "0 < interval" and "bad \<le> 0"
  shows "\<exists>lc s0. job_started interval = Ret (lc, s0)
    \<and> (\<forall>t. snd (snd (lc_Stop never lc t)) = snd (dependency_Stop (snd (job_OnStop t))))
    \<and> (\<forall>s. (job_step effect)\<^sup>*\<^sup>* s0 s \<longrightarrow>
         0 \<le> job_count s \<and> job_count s \<le> 5 \<and> job_err s = effects effect (job_count s)
         \<and> shutdowns s = (if job_pc s = JobDone then 1 else 0)
         \<and> (job_pc s = JobDone \<longrightarrow> job_count s = 5 \<or> stop_result s \<noteq> None)
         \<and> (\<exists>s'. (job_step effect)\<^sup>*\<^sup>* s s' \<and> job_pc s' = JobDone))
    \<and> (\<exists>p. job_started bad = Panic p)"
proof -
  obtain lc s0 where start: "job_started interval = Ret (lc, s0)" "job_inv effect s0"
    using job_started_inv [OF assms(1)] by blast
  have "snd (snd (lc_Stop never lc t)) = snd (dependency_Stop (snd (job_OnStop t)))" for t
    using job_started_inv [OF assms(1), of effect t] start(1) by auto
  moreover have "0 \<le> job_count s \<and> job_count s \<le> 5 \<and> job_err s = effects effect (job_count s)
      \<and> shutdowns s = (if job_pc s = JobDone then 1 else 0)
      \<and> (job_pc s = JobDone \<longrightarrow> job_count s = 5 \<or> stop_result s \<noteq> None)
      \<and> (\<exists>s'. (job_step effect)\<^sup>*\<^sup>* s s' \<and> job_pc s' = JobDone)" if "(job_step effect)\<^sup>*\<^sup>* s0 s" for s
  proof -
    have "job_inv effect s" using job.kept_steps [OF that start(2)] .
    moreover from this have "\<exists>s'. (job_step effect)\<^sup>*\<^sup>* s s' \<and> job_pc s' = JobDone" using job.drains by blast
    ultimately show ?thesis unfolding job_inv_def by auto
  qed
  moreover have "\<exists>p. job_started bad = Panic p" using assms(2) by (simp add: job_started_def NewDependency_def)
  ultimately show ?thesis using start(1) by (intro exI [of _ lc] exI [of _ s0]) blast
qed

theorem job_runs_to_end_witness:
  "\<exists>lc s0 s'. job_started 60000000000 = Ret (lc, s0) \<and> (job_step (\<lambda>_. sideEffect))\<^sup>*\<^sup>* s0 s' \<and> job_pc s' = JobDone"
  using job_runs_to_end [of 60000000000 0 "\<lambda>_. sideEffect"] by fastforce

text \<open>
  The stop hook does not wait for the goroutine: an iteration that fails after the hook has read the errors is not
  reported, although every error is promised to make the program fail.
\<close>

definition failing_effect :: "int \<Rightarrow> go_error option" where
  "failing_effect n = Some (ErrNew ''lost'')"

lemma late_error_lost:
  "\<exists>lc s0 s. job_started 1 = Ret (lc, s0) \<and> (job_step failing_effect)\<^sup>*\<^sup>* s0 s
    \<and> job_pc s = JobDone \<and> stop_result s = Some [] \<and> job_err s = [ErrNew ''lost'']"
proof -
  obtain lc s0 where s0: "job_started 1 = Ret (lc, s0)" "job_pc s0 = JobSelecting" "ticker_on s0" "stop_result s0 = None"
    "job_count s0 = 0" "job_err s0 = []" "\<not> job_cancelled s0"
    by (simp add: job_started_def NewDependency_def InvokeJob_def lc_Append_def lc_Start_def new_lifecycle_def
        new_run_def NewJob_def job_OnStart_def)
  let ?s1 = "snd (job_OnStop s0)"
  let ?s2 = "job_tick (failing_effect (job_count ?s1)) ?s1"
  let ?s3 = "job_canceled ?s2"
  let ?s4 = "?s3\<lparr>shutdowns := Suc (shutdowns ?s3), job_pc := JobDone\<rparr>"
  have "job_step failing_effect s0 ?s1" by (rule OnStop [OF s0(4)])
  moreover have "job_step failing_effect ?s1 ?s2" by (rule tick) (use s0 in \<open>simp_all add: job_OnStop_def\<close>)
  moreover have "job_step failing_effect ?s2 ?s3" by (rule ctx_Done) (use s0 in \<open>simp_all add: job_defs\<close>)
  moreover have "job_step failing_effect ?s3 ?s4" by (rule Shutdown) (simp add: job_canceled_def)
  ultimately have "(job_step failing_effect)\<^sup>*\<^sup>* s0 ?s4" by (meson rtranclp.rtrancl_into_rtrancl rtranclp.rtrancl_refl)
  moreover have "stop_result ?s4 = Some []" "job_err ?s4 = [ErrNew ''lost'']" using s0 by (simp_all add: job_defs failing_effect_def)
  ultimately show ?thesis using s0(1) by (intro exI [of _ lc] exI [of _ s0] exI [of _ ?s4]) simp
qed

end
