(* ===== verification/CertReloader.thy ===== *)
theory CertReloader
  imports ZapLog Goroutines
begin

text \<open>
  The certificate reloader (src/fxcert-reloader/cert-reloader.go): the functions, and the goroutine that
  \<open>Start\<close> spawns as a step relation with its select, its reload and the handshake with \<open>Stop\<close>.
  Loading a key pair from the files is the parameter \<open>load\<close>, which gives the result of the n-th try.
\<close>

section \<open>The reloader\<close>

record CertReloaderConfig =
  CertFile :: string
  KeyFile :: string
  ReloadInterval :: int

definition config_MarshalLogObject :: "CertReloaderConfig option \<Rightarrow> field list" where
  "config_MarshalLogObject c =
     (case c of
        None \<Rightarrow> []
      | Some conf \<Rightarrow> [String ''cert-file'' (CertFile conf), String ''key-file'' (KeyFile conf),
                    Duration ''reload-interval'' (ReloadInterval conf)])"

text \<open>
  Where a reload goroutine is. Each \<open>Start\<close> spawns one with a context of its own; \<open>cancel\<close> is the cancel
  function of the latest, nil before the first \<open>Start\<close>, and the wait group counts the goroutines that
  have not exited.
\<close>

datatype 'c loop_pc = Selecting | Reloading | Storing 'c | Exited | TickerPanic

datatype stop_pc = StopIdle | StopWaiting | StopDone | StopPanic

record 'c CertReloader =
  cert :: "'c option"
  conf :: CertReloaderConfig
  logger :: logger
  cancel :: "nat option"
  cancelled :: "nat set"
  loops :: "'c loop_pc list"
  stopping :: stop_pc
  loads :: nat
  log :: "entry list"

definition NewCertReloader ::
  "(string \<Rightarrow> string \<Rightarrow> nat \<Rightarrow> 'c result) \<Rightarrow> CertReloaderConfig \<Rightarrow> logger \<Rightarrow> 'c CertReloader result" where
  "NewCertReloader load cf lg0 =
     (let lg = lg0 @ [Object ''cert'' (config_MarshalLogObject (Some cf))]
      in case load (CertFile cf) (KeyFile cf) 0 of
           Inl e \<Rightarrow> Inl e
         | Inr c \<Rightarrow> Inr \<lparr>cert = Some c, conf = cf, logger = lg, cancel = None, cancelled = {}, loops = [],
                       stopping = StopIdle, loads = 1, log = [log_at InfoLevel lg ''Loading certificate'' []]\<rparr>)"

definition GetCertificate :: "'c CertReloader \<Rightarrow> 'c option result" where
  "GetCertificate r = Inr (cert r)"

definition GetClientCertificate :: "'c CertReloader \<Rightarrow> 'c option result" where
  "GetClientCertificate r = Inr (cert r)"

definition logged :: "level \<Rightarrow> string \<Rightarrow> field list \<Rightarrow> 'c CertReloader \<Rightarrow> 'c CertReloader" where
  "logged l msg fs r = r\<lparr>log := log r @ [log_at l (logger r) msg fs]\<rparr>"

text \<open>\<open>time.NewTicker\<close> panics on an interval that is not positive.\<close>

definition Start :: "'c CertReloader \<Rightarrow> go_error option \<times> 'c CertReloader" where
  "Start r =
     (let r1 = logged InfoLevel ''Starting certificate reloader'' [] r
      in (None, r1\<lparr>cancel := Some (length (loops r)),
                   loops := loops r @ [if 0 < ReloadInterval (conf r) then Selecting else TickerPanic]\<rparr>))"

text \<open>The call of \<open>Stop\<close> up to its \<open>wg.Wait()\<close>.\<close>

definition Stop :: "'c CertReloader \<Rightarrow> 'c CertReloader" where
  "Stop r =
     (let r1 = logged InfoLevel ''Stopping reloader'' [] r
      in case cancel r of
           None \<Rightarrow> r1\<lparr>stopping := StopPanic\<rparr>
         | Some k \<Rightarrow> r1\<lparr>cancelled := insert k (cancelled r), stopping := StopWaiting\<rparr>)"

definition at_loop :: "nat \<Rightarrow> 'c loop_pc \<Rightarrow> 'c CertReloader \<Rightarrow> bool" where
  "at_loop k p r \<longleftrightarrow> k < length (loops r) \<and> loops r ! k = p"

definition set_loop :: "nat \<Rightarrow> 'c loop_pc \<Rightarrow> 'c CertReloader \<Rightarrow> 'c CertReloader" where
  "set_loop k p r = r\<lparr>loops := (loops r)[k := p]\<rparr>"

text \<open>
  One iteration of the loop: the select takes a tick or, once cancelled, returns; when both are
  ready it may take either. A failed load is logged and tried again at the next tick.
\<close>

inductive step ::
  "(string \<Rightarrow> string \<Rightarrow> nat \<Rightarrow> 'c result) \<Rightarrow> 'c CertReloader \<Rightarrow> 'c CertReloader \<Rightarrow> bool"
  for load :: "string \<Rightarrow> string \<Rightarrow> nat \<Rightarrow> 'c result" where
  ctx_done: "at_loop k Selecting r \<Longrightarrow> k \<in> cancelled r \<Longrightarrow> step load r (set_loop k Exited r)"
| tick: "at_loop k Selecting r \<Longrightarrow>
    step load r (set_loop k Reloading (logged InfoLevel ''Reloading certificate'' [] r))"
| load_error: "at_loop k Reloading r \<Longrightarrow> load (CertFile (conf r)) (KeyFile (conf r)) (loads r) = Inl e \<Longrightarrow>
    step load r (set_loop k Selecting
      (logged ErrorLevel ''Failed to reload certificate'' [ErrorField e] (r\<lparr>loads := Suc (loads r)\<rparr>)))"
| load_ok: "at_loop k Reloading r \<Longrightarrow> load (CertFile (conf r)) (KeyFile (conf r)) (loads r) = Inr c \<Longrightarrow>
    step load r (set_loop k (Storing c) (r\<lparr>loads := Suc (loads r)\<rparr>))"
| store: "at_loop k (Storing c) r \<Longrightarrow> step load r (set_loop k Selecting (r\<lparr>cert := Some c\<rparr>))"
| call_Stop: "stopping r = StopIdle \<Longrightarrow> step load r (Stop r)"
| Wait_returns: "stopping r = StopWaiting \<Longrightarrow> \<forall>k < length (loops r). loops r ! k = Exited \<Longrightarrow>
    step load r (r\<lparr>stopping := StopDone\<rparr>)"

text \<open>One \<open>Start\<close> after \<open>NewCertReloader\<close>, as the lifecycle hook does, and then any steps.\<close>

definition started ::
  "(string \<Rightarrow> string \<Rightarrow> nat \<Rightarrow> 'c result) \<Rightarrow> CertReloaderConfig \<Rightarrow> logger \<Rightarrow> 'c CertReloader \<Rightarrow> bool" where
  "started load cf lg r \<longleftrightarrow>
     (\<exists>r0. NewCertReloader load cf lg = Inr r0 \<and> (step load)\<^sup>*\<^sup>* (snd (Start r0)) r)"

section \<open>The rest of the package\<close>

text \<open>
  \<open>ProvideCertReloader\<close> appends a hook with \<open>Start\<close> and \<open>Stop\<close> to the lifecycle; here the result says which
  reloader is managed, \<open>None\<close> when TLS is not configured.
\<close>

definition ProvideCertReloader ::
  "(string \<Rightarrow> string \<Rightarrow> nat \<Rightarrow> 'c result) \<Rightarrow> 'c CertReloader list \<Rightarrow> CertReloaderConfig option \<Rightarrow> logger \<Rightarrow>
   'c CertReloader option result \<times> 'c CertReloader list" where
  "ProvideCertReloader load hooks cf lg =
     (case cf of
        None \<Rightarrow> (Inr None, hooks)
      | Some c \<Rightarrow>
          (case NewCertReloader load c lg of
             Inl e \<Rightarrow> (Inl e, hooks)
           | Inr r \<Rightarrow> (Inr (Some r), hooks @ [r])))"

text \<open>A TLS configuration: whose \<open>GetCertificate\<close> it calls, and how it treats client certificates.\<close>

record ('c, 'p) tls_config =
  GetCertificate_of :: "'c CertReloader option"
  RequireAndVerifyClientCert :: bool
  ClientCAs :: "'p option"

text \<open>\<open>readFile\<close> is \<open>os.ReadFile\<close>; \<open>parsePEM\<close> is the pool \<open>AppendCertsFromPEM\<close> builds, if it finds a certificate.\<close>

definition MakeServerTLS ::
  "(string \<Rightarrow> string result) \<Rightarrow> (string \<Rightarrow> 'p option) \<Rightarrow> 'c CertReloader option \<Rightarrow> string \<Rightarrow>
   ('c, 'p) tls_config result" where
  "MakeServerTLS readFile parsePEM r clientCAFile =
     (let tlsConf = \<lparr>GetCertificate_of = r, RequireAndVerifyClientCert = False, ClientCAs = None\<rparr>
      in if clientCAFile \<noteq> []
         then case readFile clientCAFile of
                Inl e \<Rightarrow> Inl e
              | Inr ca \<Rightarrow>
                  (case parsePEM ca of
                     None \<Rightarrow> Inl (ErrNew (''failed to parse ClientCAFile: '' @ clientCAFile))
                   | Some certPool \<Rightarrow> Inr (tlsConf\<lparr>RequireAndVerifyClientCert := True, ClientCAs := Some certPool\<rparr>))
         else Inr tlsConf)"

section \<open>The invariant of the reload goroutine\<close>

text \<open>The last of the first \<open>n\<close> tries that succeeded.\<close>

fun last_good :: "(nat \<Rightarrow> 'c result) \<Rightarrow> nat \<Rightarrow> 'c option" where
  "last_good f 0 = None"
| "last_good f (Suc n) = (case f n of Inl e \<Rightarrow> last_good f n | Inr c \<Rightarrow> Some c)"

definition tries :: "(string \<Rightarrow> string \<Rightarrow> nat \<Rightarrow> 'c result) \<Rightarrow> CertReloaderConfig \<Rightarrow> nat \<Rightarrow> 'c result" where
  "tries load cf = load (CertFile cf) (KeyFile cf)"

fun cert_known :: "(nat \<Rightarrow> 'c result) \<Rightarrow> nat \<Rightarrow> 'c option \<Rightarrow> 'c loop_pc \<Rightarrow> bool" where
  "cert_known f n ct (Storing c) \<longleftrightarrow> 0 < n \<and> f (n - 1) = Inr c \<and> ct = last_good f (n - 1)"
| "cert_known f n ct _ \<longleftrightarrow> ct = last_good f n"

lemma last_good_loaded: "last_good f n = Some c \<Longrightarrow> \<exists>k < n. f k = Inr c"
  by (induction n) (auto simp: less_Suc_eq split: sum.splits)

lemma last_good_Suc: "0 < n \<Longrightarrow> f (n - 1) = Inr c \<Longrightarrow> last_good f n = Some c"
  by (cases n) simp_all

definition loop_inv ::
  "(string \<Rightarrow> string \<Rightarrow> nat \<Rightarrow> 'c result) \<Rightarrow> CertReloaderConfig \<Rightarrow> 'c CertReloader \<Rightarrow> bool" where
  "loop_inv load cf r \<longleftrightarrow> conf r = cf \<and> cancel r = Some 0 \<and> cert r \<noteq> None \<and> (\<exists>p. loops r = [p]
     \<and> cert_known (tries load cf) (loads r) (cert r) p
     \<and> (stopping r = StopWaiting \<longrightarrow> 0 \<in> cancelled r)
     \<and> (stopping r = StopDone \<longrightarrow> p = Exited)
     \<and> stopping r \<noteq> StopPanic
     \<and> (p = TickerPanic \<longleftrightarrow> ReloadInterval cf \<le> 0))"

lemma loop_inv_Start: "NewCertReloader load cf lg = Inr r0 \<Longrightarrow> loop_inv load cf (snd (Start r0))"
  by (auto simp: NewCertReloader_def Start_def loop_inv_def logged_def Let_def tries_def split: sum.splits)

interpretation reloading: kept "step load" "loop_inv load cf" for load cf
proof
  show "loop_inv load cf r'" if "loop_inv load cf r" "step load r r'" for r r'
    using that(2,1)
    by (induction rule: step.induct)
      (auto simp: loop_inv_def at_loop_def set_loop_def logged_def Stop_def Let_def tries_def last_good_Suc)
qed

lemma started_inv: "started load cf lg r \<Longrightarrow> loop_inv load cf r"
proof -
  assume "started load cf lg r"
  then obtain r0 where r0: "NewCertReloader load cf lg = Inr r0" and "(step load)\<^sup>*\<^sup>* (snd (Start r0)) r"
    by (auto simp: started_def)
  from this(2) loop_inv_Start [OF r0] show ?thesis by (rule reloading.kept_steps)
qed

text \<open>From every point of the loop, the select is at most two steps away, then the exit, then the return of \<open>Stop\<close>.\<close>

definition to_stop :: "'c CertReloader \<Rightarrow> nat" where
  "to_stop r =
     (if stopping r = StopDone then 0
      else case loops r of [Reloading] \<Rightarrow> 4 | [Storing _] \<Rightarrow> 3 | [Selecting] \<Rightarrow> 2 | _ \<Rightarrow> 1)"

lemma loop_advances:
  assumes "loop_inv load cf r" and "0 < ReloadInterval cf" and "stopping r = StopWaiting"
  shows "\<exists>r'. step load r r' \<and> to_stop r' < to_stop r"
proof -
  obtain p where p: "loops r = [p]" "p \<noteq> TickerPanic" "0 \<in> cancelled r" using assms by (auto simp: loop_inv_def)
  then have at: "at_loop 0 p r" by (simp add: at_loop_def)
  note defs = to_stop_def set_loop_def logged_def
  show ?thesis
  proof (cases p)
    case Selecting
    with at p ctx_done [of 0 r load] assms(3) show ?thesis by (intro exI [of _ "set_loop 0 Exited r"]) (simp add: defs)
  next
    case Reloading
    with at p load_error [of 0 r load] load_ok [of 0 r load] assms(3) show ?thesis
      by (cases "load (CertFile (conf r)) (KeyFile (conf r)) (loads r)") (fastforce simp: defs)+
  next
    case (Storing c)
    with at p store [of 0 c r load] assms(3) show ?thesis
      by (intro exI [of _ "set_loop 0 Selecting (r\<lparr>cert := Some c\<rparr>)"]) (simp add: defs)
  next
    case Exited
    with p Wait_returns [of r load] assms(3) show ?thesis by (intro exI [of _ "r\<lparr>stopping := StopDone\<rparr>"]) (simp add: defs)
  qed (use p in simp)
qed

interpretation stopping_loop: draining "step load"
  "\<lambda>r. loop_inv load cf r \<and> 0 < ReloadInterval cf \<and> stopping r \<in> {StopWaiting, StopDone}"
  "\<lambda>r. stopping r = StopDone" "\<lambda>_. ()" to_stop for load cf
proof
  fix r r'
  assume *: "loop_inv load cf r \<and> 0 < ReloadInterval cf \<and> stopping r \<in> {StopWaiting, StopDone}" "step load r r'"
  have "stopping r' \<in> {StopWaiting, StopDone}"
    using *(2,1) by (induction rule: step.induct) (auto simp: set_loop_def logged_def)
  with * show "loop_inv load cf r' \<and> 0 < ReloadInterval cf \<and> stopping r' \<in> {StopWaiting, StopDone}"
    using reloading.kept_step by blast
qed (use loop_advances in auto)

section \<open>Properties\<close>

text \<open>An example: the second try fails, all others succeed, and a key pair is its number.\<close>

definition flaky :: "string \<Rightarrow> string \<Rightarrow> nat \<Rightarrow> nat result" where
  "flaky cf kf n = (if n = 1 then Inl (ErrNew ''no such file'') else Inr n)"

definition hourly :: CertReloaderConfig where
  "hourly = \<lparr>CertFile = ''crt'', KeyFile = ''key'', ReloadInterval = 3600\<rparr>"

lemma flaky_started:
  assumes "NewCertReloader flaky hourly [] = Inr r0"
  shows "started flaky hourly [] (snd (Start r0)) \<and> started flaky hourly [] (Stop (snd (Start r0)))"
proof -
  have "stopping (snd (Start r0)) = StopIdle"
    using assms by (auto simp: NewCertReloader_def flaky_def Start_def logged_def Let_def)
  then have "step flaky (snd (Start r0)) (Stop (snd (Start r0)))" by (rule call_Stop)
  with assms show ?thesis unfolding started_def by (metis r_into_rtranclp rtranclp.rtrancl_refl)
qed

text \<open>
  C7: Whatever reloads fail, \<open>GetCertificate\<close> and \<open>GetClientCertificate\<close> return a key pair that loaded: the
  latest one, or, while the goroutine is about to store a newer one, the latest before that. A nil key
  pair never reaches the TLS stack.
\<close>

theorem reloader_last_valid:
  assumes "started load cf lg r"
  shows "\<exists>c. GetCertificate r = Inr (Some c) \<and> GetClientCertificate r = Inr (Some c)
    \<and> (case loops r of
          [Storing d] \<Rightarrow> load (CertFile cf) (KeyFile cf) (loads r - 1) = Inr d
                        \<and> last_good (tries load cf) (loads r - 1) = Some c
        | _ \<Rightarrow> last_good (tries load cf) (loads r) = Some c)"
proof -
  from started_inv [OF assms] obtain p where "cert r \<noteq> None" and "loops r = [p]"
    and "cert_known (tries load cf) (loads r) (cert r) p" by (auto simp: loop_inv_def)
  then show ?thesis
    by (cases p) (auto simp: GetCertificate_def GetClientCertificate_def tries_def)
qed

theorem reloader_last_valid_witness:
  "\<exists>r c. started flaky hourly [] r \<and> GetCertificate r = Inr (Some c) \<and> GetClientCertificate r = Inr (Some c)"
proof -
  obtain r0 where r0: "NewCertReloader flaky hourly [] = Inr r0"
    by (simp add: NewCertReloader_def flaky_def Let_def)
  then show ?thesis using reloader_last_valid [OF conjunct1 [OF flaky_started [OF r0]]] flaky_started by blast
qed

text \<open>
  \<open>NewCertReloader\<close> loads eagerly: it fails with the error of the first load, or returns a reloader
  that already serves what it loaded.
\<close>

theorem NewCertReloader_eager:
  "(case load (CertFile cf) (KeyFile cf) 0 of
      Inl e \<Rightarrow> NewCertReloader load cf lg = Inl e
    | Inr c \<Rightarrow> \<exists>r. NewCertReloader load cf lg = Inr r \<and> GetCertificate r = Inr (Some c))"
  by (simp add: NewCertReloader_def GetCertificate_def Let_def split: sum.splits)

text \<open>
  C28: With a positive interval, a \<open>Stop\<close> that has been called can always complete, whatever the
  goroutine is doing; and once it has returned, the goroutine is gone and nothing changes any more.
\<close>

theorem reloader_Stop:
  assumes "started load cf lg r" and "0 < ReloadInterval cf"
  shows "(stopping r = StopWaiting \<longrightarrow> (\<exists>r'. (step load)\<^sup>*\<^sup>* r r' \<and> stopping r' = StopDone))
    \<and> (stopping r = StopDone \<longrightarrow> loops r = [Exited] \<and> (\<forall>r'. (step load)\<^sup>*\<^sup>* r r' \<longrightarrow> r' = r))"
proof -
  have inv: "loop_inv load cf r" using assms(1) by (rule started_inv)
  have "loops r = [Exited] \<and> (\<forall>r'. (step load)\<^sup>*\<^sup>* r r' \<longrightarrow> r' = r)" if "stopping r = StopDone"
  proof -
    have exited: "loops r = [Exited]" using inv that by (auto simp: loop_inv_def)
    then have "\<not> step load r r'" for r' using that by (auto simp: step.simps at_loop_def)
    then show ?thesis using exited by (metis converse_rtranclpE)
  qed
  then show ?thesis using stopping_loop.drains [of load cf r] inv assms(2) by blast
qed

theorem reloader_Stop_witness:
  "\<exists>r r'. started flaky hourly [] r \<and> stopping r = StopWaiting \<and> (step flaky)\<^sup>*\<^sup>* r r' \<and> stopping r' = StopDone"
proof -
  obtain r0 where r0: "NewCertReloader flaky hourly [] = Inr r0"
    by (simp add: NewCertReloader_def flaky_def Let_def)
  let ?r = "Stop (snd (Start r0))"
  have "stopping ?r = StopWaiting" by (simp add: Stop_def Start_def logged_def Let_def)
  then show ?thesis
    using reloader_Stop [OF conjunct2 [OF flaky_started [OF r0]]] flaky_started [OF r0] by (auto simp: hourly_def)
qed

text \<open>What an earlier load returned is what every later handshake gets.\<close>

lemma reloader_loaded:
  assumes "NewCertReloader load cf lg = Inr r0" and "(step load)\<^sup>*\<^sup>* (snd (Start r0)) r"
  shows "\<exists>c k. GetCertificate r = Inr (Some c) \<and> k < loads r \<and> load (CertFile cf) (KeyFile cf) k = Inr c"
proof -
  have "loop_inv load cf r" using assms started_inv unfolding started_def by blast
  then obtain c p where c: "cert r = Some c" and p: "loops r = [p]" "cert_known (tries load cf) (loads r) (Some c) p"
    by (auto simp: loop_inv_def)
  then obtain n where "n \<le> loads r" "last_good (tries load cf) n = Some c" by (cases p) (auto intro: diff_le_self)
  then show ?thesis using last_good_loaded c unfolding tries_def GetCertificate_def by (metis order_less_le_trans)
qed

text \<open>
  \<open>MakeServerTLS\<close> asks for client certificates exactly if a client CA file is configured; a file
  that cannot be read or holds no certificate is an error and never a configuration that lets
  every client in.
\<close>

lemma MakeServerTLS_cases:
  "(case MakeServerTLS readFile parsePEM r clientCAFile of
      Inl e \<Rightarrow> clientCAFile \<noteq> [] \<and> (readFile clientCAFile = Inl e
         \<or> (\<exists>ca. readFile clientCAFile = Inr ca \<and> parsePEM ca = None))
    | Inr tc \<Rightarrow> (RequireAndVerifyClientCert tc \<longleftrightarrow> clientCAFile \<noteq> [])
         \<and> (clientCAFile = [] \<or> (\<exists>ca pool. readFile clientCAFile = Inr ca \<and> parsePEM ca = Some pool
              \<and> ClientCAs tc = Some pool))
         \<and> GetCertificate_of tc = r)"
  by (auto simp: MakeServerTLS_def Let_def split: sum.splits option.splits)

end
