(* ===== verification/Serving.thy ===== *)
theory Serving
  imports CertReloader
begin

text \<open>
  The configuration of HTTP and gRPC servers, their listeners and the goroutine that serves between the start and the stop
  hook (src/fxhttp/http.go, src/fxhttp/socket_activation_linux.go, src/fxgrpc/grpc_server.go), for HTTP, for gRPC and for
  the in-memory server of src/fxgrpc/grpctest. The operating system and the servers of net/http and gRPC are parameters.
\<close>

section \<open>Configuration\<close>

record Server =
  SocketName :: string
  Address :: string
  TLS :: bool
  Server_CertFile :: string
  Server_KeyFile :: string
  ClientCAFile :: string

text \<open>The Server structs of fxhttp and fxgrpc have the same fields; \<open>AsHttpConfig\<close> copies them.\<close>

definition HttpServerConfig :: "Server \<Rightarrow> Server" where
  "HttpServerConfig s = s"

definition AsHttpConfig :: "Server \<Rightarrow> Server" where
  "AsHttpConfig s = \<lparr>SocketName = SocketName s, Address = Address s, TLS = TLS s,
     Server_CertFile = Server_CertFile s, Server_KeyFile = Server_KeyFile s, ClientCAFile = ClientCAFile s\<rparr>"

definition server_MarshalLogObject :: "Server option \<Rightarrow> field list" where
  "server_MarshalLogObject so =
     (case so of
        None \<Rightarrow> []
      | Some s \<Rightarrow>
          [String ''socket-name'' (SocketName s), String ''address'' (Address s), Bool ''tls'' (TLS s)] @
          (if TLS s
           then [String ''cert-file'' (Server_CertFile s), String ''key-file'' (Server_KeyFile s),
                 String ''client-ca-file'' (ClientCAFile s)]
           else []))"

definition grpc_MarshalLogObject :: "Server option \<Rightarrow> field list" where
  "grpc_MarshalLogObject so =
     (case so of
        None \<Rightarrow> []
      | Some s \<Rightarrow>
          [String ''socket-name'' (SocketName s), String ''address'' (Address s), Bool ''tls'' (TLS s)] @
          (if TLS s
           then [String ''cert-file'' (Server_CertFile s), String ''key-file'' (Server_KeyFile s),
                 String ''client-ca-file'' (ClientCAFile s)]
           else []))"

text \<open>One hour in nanoseconds.\<close>

definition one_hour :: int where
  "one_hour = 3600 * 1000000000"

definition http_GetCertReloaderConfig :: "Server \<Rightarrow> CertReloaderConfig" where
  "http_GetCertReloaderConfig s =
     \<lparr>CertFile = Server_CertFile s, KeyFile = Server_KeyFile s, ReloadInterval = one_hour\<rparr>"

definition grpc_GetCertReloaderConfig :: "Server \<Rightarrow> CertReloaderConfig option" where
  "grpc_GetCertReloaderConfig s =
     (if \<not> TLS s then None
      else Some \<lparr>CertFile = Server_CertFile s, KeyFile = Server_KeyFile s, ReloadInterval = one_hour\<rparr>)"

section \<open>Listeners\<close>

text \<open>
  The package variables \<open>once\<close> and \<open>namedListeners\<close>: whether systemd has been asked, and what it
  passed. \<open>ListenersWithNames\<close> is the answer of the first and only call.
\<close>

record 'l sockets =
  once :: bool
  namedListeners :: "string \<Rightarrow> 'l list"

definition count_error :: "string \<Rightarrow> nat \<Rightarrow> go_error" where
  "count_error n k = ErrNew (''named listener count for '' @ n @ '' is '' @ itoa k @ '', expected 1'')"

definition NamedSocketListener ::
  "(string \<Rightarrow> 'l list) result \<Rightarrow> string \<Rightarrow> 'l sockets \<Rightarrow> 'l result \<times> 'l sockets" where
  "NamedSocketListener listenersWithNames n s =
     (case (if once s then (None, s)
            else case listenersWithNames of
              Inl e \<Rightarrow> (Some e, s\<lparr>once := True, namedListeners := (\<lambda>_. [])\<rparr>)
            | Inr m \<Rightarrow> (None, s\<lparr>once := True, namedListeners := m\<rparr>)) of
        (Some e, s1) \<Rightarrow> (Inl e, s1)
      | (None, s1) \<Rightarrow>
          (case namedListeners s1 n of
             [l] \<Rightarrow> (Inr l, s1)
           | ls \<Rightarrow> (Inl (count_error n (length ls)), s1)))"

text \<open>The function of the same name on other systems than Linux.\<close>

definition NamedSocketListener_other :: "string \<Rightarrow> 'l result" where
  "NamedSocketListener_other n = Inl (ErrNew ''systemd activation is only supported on Linux operating systems'')"

definition NewListener ::
  "(string \<Rightarrow> 'l list) result \<Rightarrow> (string \<Rightarrow> 'l result) \<Rightarrow> string \<Rightarrow> string \<Rightarrow> 'l sockets \<Rightarrow>
   'l result \<times> 'l sockets" where
  "NewListener listenersWithNames listen_tcp socketName addr s =
     (if socketName \<noteq> [] then NamedSocketListener listenersWithNames socketName s
      else (listen_tcp addr, s))"

section \<open>The serving goroutine\<close>

text \<open>
  Where the goroutine of a server is: not spawned, spawned but not yet in \<open>Serve\<close>, serving, finished, or in
  \<open>logger.Fatal\<close>, which ends the process. \<open>shut\<close> is set by \<open>Shutdown\<close> or \<open>GracefulStop\<close>.
\<close>

datatype 'l serve_pc = NotSpawned | Spawned 'l | Serving 'l | Finished | Fatal go_error

record 'l server =
  addr :: string
  socketName :: string
  tls :: bool
  pc :: "'l serve_pc"
  shut :: bool
  srv_log :: "entry list"

definition newServer :: "bool \<Rightarrow> Server \<Rightarrow> 'l server" where
  "newServer has_tls cf =
     \<lparr>addr = Address cf, socketName = SocketName cf, tls = has_tls, pc = NotSpawned, shut = False, srv_log = []\<rparr>"

text \<open>The gRPC server and its address; its TLS is among the options of the server.\<close>

definition grpc_newServer :: "Server \<Rightarrow> 'l server" where
  "grpc_newServer cf =
     \<lparr>addr = Address (AsHttpConfig cf), socketName = SocketName (AsHttpConfig cf), tls = False, pc = NotSpawned, shut = False, srv_log = []\<rparr>"

datatype server_kind = HttpServer | GrpcServer | TestServer

definition ErrServerClosed :: go_error where
  "ErrServerClosed = ErrNew ''http: Server closed''"

definition ErrServerStopped :: go_error where
  "ErrServerStopped = ErrNew ''grpc: the server has been stopped''"

text \<open>
  What the goroutine does with the result of \<open>Serve\<close> or \<open>ServeTLS\<close>: for HTTP everything but
  \<open>ErrServerClosed\<close> is fatal, for gRPC every error but \<open>ErrServerStopped\<close>, and the server of tests ignores it.
\<close>

definition after_Serve :: "server_kind \<Rightarrow> go_error option \<Rightarrow> 'l serve_pc" where
  "after_Serve k r =
     (case k of
        HttpServer \<Rightarrow> (case r of None \<Rightarrow> Fatal (ErrNew []) | Some e \<Rightarrow> if e \<noteq> ErrServerClosed then Fatal e else Finished)
      | GrpcServer \<Rightarrow> (case r of None \<Rightarrow> Finished | Some e \<Rightarrow> if e \<noteq> ErrServerStopped then Fatal e else Finished)
      | TestServer \<Rightarrow> Finished)"

text \<open>What \<open>Serve\<close> returns when the server is shut down before it runs, and while it runs.\<close>

definition Serve_too_late :: "server_kind \<Rightarrow> go_error option" where
  "Serve_too_late k = (case k of HttpServer \<Rightarrow> Some ErrServerClosed | _ \<Rightarrow> Some ErrServerStopped)"

definition Serve_stopped :: "server_kind \<Rightarrow> go_error option" where
  "Serve_stopped k = (case k of HttpServer \<Rightarrow> Some ErrServerClosed | _ \<Rightarrow> None)"

text \<open>The messages of the two packages; the goroutine of the test server writes none.\<close>

definition srv_logs :: "level \<Rightarrow> string \<Rightarrow> field list \<Rightarrow> 'l server \<Rightarrow> 'l server" where
  "srv_logs l msg fs s = s\<lparr>srv_log := srv_log s @ [log_at l [] msg fs]\<rparr>"

definition kind_name :: "server_kind \<Rightarrow> string" where
  "kind_name k = (case k of HttpServer \<Rightarrow> ''http server'' | _ \<Rightarrow> ''gRPC server'')"

definition serve_name :: "server_kind \<Rightarrow> string" where
  "serve_name k = (case k of HttpServer \<Rightarrow> ''http'' | _ \<Rightarrow> ''grpc'')"

definition serve_ended :: "server_kind \<Rightarrow> go_error option \<Rightarrow> 'l server \<Rightarrow> 'l server" where
  "serve_ended k r s =
     (let s1 = s\<lparr>pc := after_Serve k r\<rparr>
      in case (k, after_Serve k r :: 'l serve_pc) of
           (TestServer, _) \<Rightarrow> s1
         | (_, Fatal e) \<Rightarrow> srv_logs FatalLevel (''Error while serving '' @ serve_name k) (case r of None \<Rightarrow> [Skip] | Some e \<Rightarrow> [ErrorField e]) s1
         | _ \<Rightarrow> srv_logs InfoLevel (''Done serving '' @ serve_name k) [] s1)"

definition OnStart ::
  "server_kind \<Rightarrow> (string \<Rightarrow> 'l list) result \<Rightarrow> (string \<Rightarrow> 'l result) \<Rightarrow> 'l sockets \<Rightarrow> 'l server \<Rightarrow>
   go_error option \<times> 'l sockets \<times> 'l server" where
  "OnStart k listenersWithNames listen_tcp ss s =
     (let s1 = srv_logs InfoLevel (''Starting '' @ kind_name k) [String ''address'' (addr s)] s
      in case NewListener listenersWithNames listen_tcp (socketName s) (addr s) ss of
           (Inl e, ss1) \<Rightarrow> (Some e, ss1, s1)
         | (Inr lis, ss1) \<Rightarrow> (None, ss1, s1\<lparr>pc := Spawned lis\<rparr>))"

text \<open>
  The stop hook shuts the server down. \<open>shutdown\<close> is what \<open>http.Server.Shutdown\<close> returns, an error when the context expires
  before all connections are idle; \<open>GracefulStop\<close> returns nothing, and the hook of the test server logs nothing.
\<close>

definition OnStop :: "server_kind \<Rightarrow> go_error option \<Rightarrow> 'l server \<Rightarrow> go_error option \<times> 'l server" where
  "OnStop k shutdown s =
     (let s1 = (srv_logs InfoLevel (''Stopping '' @ kind_name k) [] s)\<lparr>shut := True\<rparr>
      in case k of HttpServer \<Rightarrow> (shutdown, s1) | GrpcServer \<Rightarrow> (None, s1) | TestServer \<Rightarrow> (None, s\<lparr>shut := True\<rparr>))"

inductive serve_step :: "server_kind \<Rightarrow> 'l server \<Rightarrow> 'l server \<Rightarrow> bool" for k :: server_kind where
  too_late: "pc s = Spawned l \<Longrightarrow> shut s \<Longrightarrow> serve_step k s (serve_ended k (Serve_too_late k) s)"
| scheduled: "pc s = Spawned l \<Longrightarrow> \<not> shut s \<Longrightarrow> serve_step k s (s\<lparr>pc := Serving l\<rparr>)"
| stopped: "pc s = Serving l \<Longrightarrow> shut s \<Longrightarrow> serve_step k s (serve_ended k (Serve_stopped k) s)"
| accept_fails: "pc s = Serving l \<Longrightarrow> \<not> shut s \<Longrightarrow> e \<notin> {ErrServerClosed, ErrServerStopped} \<Longrightarrow>
    serve_step k s (serve_ended k (Some e) s)"
| stop: "\<not> shut s \<Longrightarrow> serve_step k s (snd (OnStop k shutdown s))"

lemma serve_ended_sel [simp]: "pc (serve_ended k r s) = after_Serve k r" "shut (serve_ended k r s) = shut s"
  by (auto simp: serve_ended_def srv_logs_def Let_def split: server_kind.split serve_pc.split)

lemma OnStop_sel [simp]:
  "pc (snd (OnStop k sd s)) = pc s" "shut (snd (OnStop k sd s))" "fst (OnStop GrpcServer sd s) = None"
  by (simp_all add: OnStop_def srv_logs_def Let_def split: server_kind.split)

section \<open>The serving goroutine, between start and stop\<close>

text \<open>A shut-down server whose goroutine is alive ends in \<open>Finished\<close>, and only there.\<close>

definition winding_down :: "'l server \<Rightarrow> bool" where
  "winding_down s \<longleftrightarrow> shut s \<and> (pc s = Finished \<or> (\<exists>l. pc s = Spawned l \<or> pc s = Serving l))"

lemma after_Serve_stop [simp]:
  "after_Serve k (Serve_too_late k) = Finished" "after_Serve k (Serve_stopped k) = Finished"
  by (cases k; simp add: after_Serve_def Serve_too_late_def Serve_stopped_def)+

interpretation serving: draining "serve_step k" winding_down "\<lambda>s. pc s = Finished" "\<lambda>_. ()"
  "\<lambda>s. if pc s = Finished then 0 else 1" for k
proof
  show "winding_down s'" if "winding_down s" "serve_step k s s'" for s s'
    using that(2,1) by (induction rule: serve_step.induct) (auto simp: winding_down_def)
  fix s
  assume "winding_down s" "pc s \<noteq> Finished"
  then obtain s' where "serve_step k s s'" "pc s' = Finished"
    using too_late [of s _ k] stopped [of s _ k] by (auto simp: winding_down_def)
  then show "\<exists>s'. serve_step k s s' \<and> () = () \<and> (if pc s' = Finished then 0 else 1) < (if pc s = Finished then 0 else (1 :: nat))"
    using \<open>pc s \<noteq> Finished\<close> by (intro exI [of _ s']) simp
qed

text \<open>The goroutine of the test server never gets stuck in a fatal error.\<close>

interpretation test_serving: kept "serve_step TestServer" "\<lambda>s. pc s = Finished \<or> (\<exists>l. pc s = Spawned l \<or> pc s = Serving l)"
proof
  show "pc s' = Finished \<or> (\<exists>l. pc s' = Spawned l \<or> pc s' = Serving l)"
    if "pc s = Finished \<or> (\<exists>l. pc s = Spawned l \<or> pc s = Serving l)" "serve_step TestServer s s'" for s s' :: "'l server"
    using that(2,1) by (induction rule: serve_step.induct) (auto simp: after_Serve_def)
qed


text \<open>
  Stopping a server is never fatal: once the stop hook has run while the serving goroutine was
  spawned or serving, and also when it has not been scheduled yet, no interleaving reaches
  \<open>logger.Fatal\<close>, and the goroutine can always finish. This holds for HTTP and gRPC servers alike.
\<close>

theorem server_stop_not_fatal:
  assumes "pc s = Spawned l \<or> pc s = Serving l" and "(serve_step k)\<^sup>*\<^sup>* (snd (OnStop k sd s)) s'"
  shows "(\<forall>e. pc s' \<noteq> Fatal e) \<and> (\<exists>s''. (serve_step k)\<^sup>*\<^sup>* s' s'' \<and> pc s'' = Finished)"
proof -
  have "winding_down (snd (OnStop k sd s))" using assms(1) by (auto simp: winding_down_def)
  then show ?thesis using serving.kept_steps [OF assms(2)] serving.always_drains [OF _ assms(2)]
    by (auto simp: winding_down_def)
qed

text \<open>
  systemd is asked for its sockets once. A name with exactly one socket yields that socket on
  every call; any other name is an error. When systemd's answer is an error, only the first caller sees
  it: every later call reports a count of zero sockets instead, whatever its name.
\<close>

theorem NamedSocketListener_once:
  assumes "\<not> once s" and "NamedSocketListener answer n1 s = (r1, s1)" and "NamedSocketListener answer n2 s1 = (r2, s2)"
  shows "s2 = s1 \<and> (case answer of
      Inl e \<Rightarrow> r1 = Inl e \<and> r2 = Inl (count_error n2 0)
    | Inr m \<Rightarrow> r1 = (case m n1 of [l] \<Rightarrow> Inr l | ls \<Rightarrow> Inl (count_error n1 (length ls)))
             \<and> r2 = (case m n2 of [l] \<Rightarrow> Inr l | ls \<Rightarrow> Inl (count_error n2 (length ls))))"
  using assms by (auto simp: NamedSocketListener_def split: sum.splits list.splits)

theorem NamedSocketListener_once_witness:
  "fst (NamedSocketListener (Inl (ErrNew ''bad fd'')) ''web''
     (snd (NamedSocketListener (Inl (ErrNew ''bad fd'')) ''web'' \<lparr>once = False, namedListeners = (\<lambda>_. [] :: nat list)\<rparr>)))
   = Inl (count_error ''web'' 0)"
  using NamedSocketListener_once [OF _ prod.collapse [symmetric] prod.collapse [symmetric],
      of "\<lparr>once = False, namedListeners = (\<lambda>_. [] :: nat list)\<rparr>" "Inl (ErrNew ''bad fd'')" "''web''" "''web''"]
  by simp

end
