(* ===== verification/Servers.thy ===== *)
theory Servers
  imports Serving Interceptors Lifecycle
begin

text \<open>
  HTTP and gRPC servers and gRPC clients (src/fxhttp/http.go, src/fxgrpc/grpc_server.go, src/fxgrpc/grpc_client.go,
  src/fxgrpc/grpctest/grpctest.go): TLS, the options handed to gRPC, and the in-memory client and server of tests.
  The operating system and the gRPC library are parameters.
\<close>

section \<open>The server options\<close>

definition NewHTTPServer ::
  "(string \<Rightarrow> string result) \<Rightarrow> (string \<Rightarrow> 'p option) \<Rightarrow> Server \<Rightarrow> 'c CertReloader option \<Rightarrow>
   ('c, 'p) tls_config option result" where
  "NewHTTPServer readFile parsePEM cf r =
     (if TLS (HttpServerConfig cf)
      then case MakeServerTLS readFile parsePEM r (ClientCAFile (HttpServerConfig cf)) of
             Inl e \<Rightarrow> Inl e
           | Inr tlsConf \<Rightarrow> Inr (Some tlsConf)
      else Inr None)"

text \<open>A gRPC option sets credentials or an interceptor chain, or comes from outside.\<close>

datatype ('cred, 'ix, 'x) grpc_option =
    TransportCredentials "'cred option"
  | ChainUnary "'ix list"
  | ChainStream "'ix list"
  | External 'x

type_synonym 'ix sorts = "('ix weighted_ptr \<Rightarrow> uint64) \<Rightarrow> 'ix weighted_ptr list \<Rightarrow> 'ix weighted_ptr list"

definition with_chains ::
  "'ix sorts \<Rightarrow> ('ix sorts \<Rightarrow> 'ix weighted_ptr list \<Rightarrow> 'ix list outcome) \<Rightarrow>
   ('ix sorts \<Rightarrow> 'ix weighted_ptr list \<Rightarrow> 'ix list outcome) \<Rightarrow>
   'ix weighted_ptr list \<Rightarrow> 'ix weighted_ptr list \<Rightarrow> ('cred, 'ix, 'x) grpc_option list outcome" where
  "with_chains pdq unary stream ui si =
     (case unary pdq ui of
        Panic p \<Rightarrow> Panic p
      | Ret us \<Rightarrow> (case stream pdq si of Panic p \<Rightarrow> Panic p | Ret ss \<Rightarrow> Ret [ChainUnary us, ChainStream ss]))"

definition NewGrpcServer ::
  "(string \<Rightarrow> string result) \<Rightarrow> (string \<Rightarrow> 'p option) \<Rightarrow> 'ix sorts \<Rightarrow> Server \<Rightarrow> 'ix weighted_ptr list \<Rightarrow>
   'ix weighted_ptr list \<Rightarrow> 'c CertReloader option \<Rightarrow> 'x list \<Rightarrow>
   (('c, 'p) tls_config, 'ix, 'x) grpc_option list result outcome" where
  "NewGrpcServer readFile parsePEM pdq cf ui si r serverOpts =
     (let rest = (\<lambda>opts.
        case with_chains pdq UnaryServerInterceptors StreamServerInterceptors ui si of
          Panic p \<Rightarrow> Panic p
        | Ret chs \<Rightarrow> Ret (Inr (opts @ chs @ map External serverOpts)))
      in if TLS cf
         then case MakeServerTLS readFile parsePEM r (ClientCAFile cf) of
                Inl e \<Rightarrow> Ret (Inl e)
              | Inr creds \<Rightarrow> rest [TransportCredentials (Some creds)]
         else rest [])"

section \<open>Clients\<close>

record Client =
  InsecureConnection :: bool
  Client_CertFile :: string
  Client_KeyFile :: string
  RootCAFile :: string
  Endpoint :: string

definition client_MarshalLogObject :: "Client option \<Rightarrow> field list" where
  "client_MarshalLogObject co =
     (case co of
        None \<Rightarrow> []
      | Some c \<Rightarrow>
          [String ''endpoint'' (Endpoint c), Bool ''insecure-connection'' (InsecureConnection c)] @
          (if \<not> InsecureConnection c
           then [String ''cert-file'' (Client_CertFile c), String ''key-file'' (Client_KeyFile c),
                 String ''root-ca-file'' (RootCAFile c)]
           else []))"

text \<open>
  Client credentials: plain text, TLS that trusts a pool, or TLS with a client certificate and either
  the system's pool or that pool with a CA file added.
\<close>

datatype ('c, 'p) creds =
    Insecure
  | ServerTLS 'p
  | MutualTLS "'c CertReloader" "'p option"

record ('c, 'p) tls_env =
  load :: "string \<Rightarrow> string \<Rightarrow> nat \<Rightarrow> 'c result"
  readFile :: "string \<Rightarrow> string result"
  parsePEM :: "string \<Rightarrow> 'p option"
  systemPool :: "'p result"
  addPEM :: "'p \<Rightarrow> string \<Rightarrow> 'p option"

definition NewClientTLSFromFile :: "('c, 'p) tls_env \<Rightarrow> string \<Rightarrow> ('c, 'p) creds result" where
  "NewClientTLSFromFile env f =
     (case readFile env f of
        Inl e \<Rightarrow> Inl e
      | Inr b \<Rightarrow> (case parsePEM env b of
                  None \<Rightarrow> Inl (ErrNew ''credentials: failed to append certificates'')
                | Some cp \<Rightarrow> Inr (ServerTLS cp)))"

definition client_pool :: "('c, 'p) tls_env \<Rightarrow> string \<Rightarrow> 'p option result" where
  "client_pool env rootCA =
     (if rootCA = [] then Inr None
      else case systemPool env of
             Inl e \<Rightarrow> Inl e
           | Inr certPool \<Rightarrow>
               (case readFile env rootCA of
                  Inl e \<Rightarrow> Inl e
                | Inr ca \<Rightarrow>
                    (case addPEM env certPool ca of
                       None \<Rightarrow> Inl (ErrNew (''failed to parse RootCAFile: '' @ rootCA))
                     | Some cp \<Rightarrow> Inr (Some cp))))"

definition MakeClientTLS ::
  "('c, 'p) tls_env \<Rightarrow> Client \<Rightarrow> logger \<Rightarrow> (('c, 'p) creds option \<times> 'c CertReloader option) result" where
  "MakeClientTLS env cf lg =
     (if InsecureConnection cf then Inr (Some Insecure, None)
      else if RootCAFile cf \<noteq> [] \<and> Client_CertFile cf = []
      then (case NewClientTLSFromFile env (RootCAFile cf) of Inl e \<Rightarrow> Inl e | Inr c \<Rightarrow> Inr (Some c, None))
      else if Client_CertFile cf \<noteq> []
      then (case NewCertReloader (load env)
                   \<lparr>CertFile = Client_CertFile cf, KeyFile = Client_KeyFile cf, ReloadInterval = one_hour\<rparr> lg of
              Inl e \<Rightarrow> Inl e
            | Inr r \<Rightarrow>
                (case client_pool env (RootCAFile cf) of
                   Inl e \<Rightarrow> Inl e
                 | Inr pool \<Rightarrow> Inr (Some (MutualTLS r pool), Some r)))
      else Inr (None, None))"

text \<open>
  The options of a client, in the order in which gRPC applies them; a later credentials option
  replaces an earlier one, and without credentials there is no client.
\<close>

definition client_options ::
  "'ix sorts \<Rightarrow> ('c, 'p) creds option \<Rightarrow> 'ix weighted_ptr list \<Rightarrow> 'ix weighted_ptr list \<Rightarrow>
   (('c, 'p) creds, 'ix, 'x) grpc_option list \<Rightarrow> (('c, 'p) creds, 'ix, 'x) grpc_option list outcome" where
  "client_options pdq cr ui si dOpts =
     (case with_chains pdq WithUnaryClientInterceptors WithStreamClientInterceptors ui si of
        Panic p \<Rightarrow> Panic p
      | Ret chs \<Rightarrow> Ret ([TransportCredentials cr] @ chs @ dOpts))"

fun effective_creds :: "'cred option \<Rightarrow> ('cred, 'ix, 'x) grpc_option list \<Rightarrow> 'cred option" where
  "effective_creds cr [] = cr"
| "effective_creds cr (TransportCredentials c # os) = effective_creds c os"
| "effective_creds cr (_ # os) = effective_creds cr os"

definition errNoTransportSecurity :: go_error where
  "errNoTransportSecurity = ErrNew ''grpc: no transport security set (use grpc.WithTransportCredentials(insecure.NewCredentials()) explicitly or set credentials)''"

text \<open>\<open>grpc.NewClient\<close>: \<open>dial\<close> stands for what else it checks and does.\<close>

definition grpc_NewClient ::
  "(string \<Rightarrow> ('cred, 'ix, 'x) grpc_option list \<Rightarrow> 'conn result) \<Rightarrow> string \<Rightarrow> ('cred, 'ix, 'x) grpc_option list \<Rightarrow> 'conn result" where
  "grpc_NewClient dial endpoint opts =
     (if effective_creds None opts = None then Inl errNoTransportSecurity else dial endpoint opts)"

definition NewGrpcClient ::
  "('c, 'p) tls_env \<Rightarrow> (string \<Rightarrow> (('c, 'p) creds, 'ix, 'x) grpc_option list \<Rightarrow> 'conn result) \<Rightarrow> 'ix sorts \<Rightarrow>
   Client \<Rightarrow> logger \<Rightarrow> 'ix weighted_ptr list \<Rightarrow> 'ix weighted_ptr list \<Rightarrow>
   (('c, 'p) creds, 'ix, 'x) grpc_option list \<Rightarrow> 'conn result outcome" where
  "NewGrpcClient env dial pdq cf lg ui si dOpts =
     (case MakeClientTLS env cf lg of
        Inl e \<Rightarrow> Ret (Inl e)
      | Inr (cr, _) \<Rightarrow>
          (case client_options pdq cr ui si dOpts of
             Panic p \<Rightarrow> Panic p
           | Ret opts \<Rightarrow> Ret (grpc_NewClient dial (Endpoint cf) opts)))"

text \<open>\<open>ProvideGrpcClient\<close> also registers the hooks of the reloader, if there is one.\<close>

definition ProvideGrpcClient ::
  "('c, 'p) tls_env \<Rightarrow> (string \<Rightarrow> (('c, 'p) creds, 'ix, 'x) grpc_option list \<Rightarrow> 'conn result) \<Rightarrow> 'ix sorts \<Rightarrow>
   'c CertReloader list \<Rightarrow> Client \<Rightarrow> logger \<Rightarrow> 'ix weighted_ptr list \<Rightarrow> 'ix weighted_ptr list \<Rightarrow>
   (('c, 'p) creds, 'ix, 'x) grpc_option list \<Rightarrow> 'conn result outcome \<times> 'c CertReloader list" where
  "ProvideGrpcClient env dial pdq hs cf lg ui si dOpts =
     (case MakeClientTLS env cf lg of
        Inl e \<Rightarrow> (Ret (Inl e), hs)
      | Inr (cr, r) \<Rightarrow>
          let hooks1 = (case r of None \<Rightarrow> hs | Some rl \<Rightarrow> hs @ [rl])
          in (case client_options pdq cr ui si dOpts of
                Panic p \<Rightarrow> (Panic p, hooks1)
              | Ret opts \<Rightarrow> (Ret (grpc_NewClient dial (Endpoint cf) opts), hooks1)))"

section \<open>The server of tests\<close>

text \<open>
  \<open>NewGrpc\<close> of grpctest: a client and a server that talk through a buffer \<open>lis\<close>, whose dialer is an option
  of the client, with the chains of the four groups. The hooks of the server are appended to the lifecycle.
\<close>

definition test_OnStart :: "'l \<Rightarrow> 'l server action" where
  "test_OnStart lis s = (None, s\<lparr>pc := Spawned lis\<rparr>)"

definition test_OnStop :: "'l server action" where
  "test_OnStop s = OnStop TestServer None s"

definition NewGrpc ::
  "(string \<Rightarrow> (('c, 'p) creds, 'ix, 'l) grpc_option list \<Rightarrow> 'conn result) \<Rightarrow> 'l \<Rightarrow> 'ix sorts \<Rightarrow>
   'ix weighted_ptr list \<Rightarrow> 'ix weighted_ptr list \<Rightarrow> 'ix weighted_ptr list \<Rightarrow> 'ix weighted_ptr list \<Rightarrow> 'l server lifecycle \<Rightarrow>
   ((('c, 'p) creds, 'ix, 'l) grpc_option list \<times> 'conn \<times> 'l server lifecycle) result outcome" where
  "NewGrpc dial lis pdq us ss uc sc lc =
     (case with_chains pdq WithUnaryClientInterceptors WithStreamClientInterceptors uc sc of
        Panic p \<Rightarrow> Panic p
      | Ret cchs \<Rightarrow>
          (case grpc_NewClient dial ''passthrough://buffcon'' ([External lis, TransportCredentials (Some Insecure)] @ cchs) of
             Inl e \<Rightarrow> Ret (Inl e)
           | Inr conn \<Rightarrow>
               (case with_chains pdq UnaryServerInterceptors StreamServerInterceptors us ss of
                  Panic p \<Rightarrow> Panic p
                | Ret opts \<Rightarrow>
                    Ret (Inr (opts, conn, lc_Append \<lparr>hook_start = Some (test_OnStart lis), hook_stop = Some test_OnStop\<rparr> lc)))))"


lemma effective_creds_append:
  "effective_creds cr (os @ ps) = effective_creds (effective_creds cr os) ps"
  by (induction cr os rule: effective_creds.induct) simp_all

lemma with_chains_creds:
  assumes "with_chains pdq u t ui si = Ret chs"
  shows "effective_creds cr chs = cr"
  using assms by (auto simp: with_chains_def split: outcome.splits)

lemma with_chains_Ret:
  "u pdq ui = Ret us \<Longrightarrow> t pdq si = Ret ss \<Longrightarrow> with_chains pdq u t ui si = Ret [ChainUnary us, ChainStream ss]"
  by (simp add: with_chains_def)

section \<open>Properties\<close>

definition plain_env :: "(nat, string) tls_env" where
  "plain_env = \<lparr>load = (\<lambda>_ _ n. Inr n), readFile = (\<lambda>f. Inr f), parsePEM = Some, systemPool = Inr [], addPEM = (\<lambda>p b. Some (p @ b))\<rparr>"

text \<open>
  TLS is not the default of a client: when neither \<open>InsecureConnection\<close> nor a certificate nor a CA
  file is configured, the credentials are nil, and unless an external option supplies some, gRPC
  refuses to create the client.
\<close>

theorem client_without_files_refused:
  assumes "\<not> InsecureConnection cf" and "Client_CertFile cf = []" and "RootCAFile cf = []"
    and "effective_creds None dOpts = None"
    and "WithUnaryClientInterceptors pdq ui = Ret us" and "WithStreamClientInterceptors pdq si = Ret ss"
  shows "NewGrpcClient env dial pdq cf lg ui si dOpts = Ret (Inl errNoTransportSecurity)"
  using assms by (simp add: NewGrpcClient_def MakeClientTLS_def client_options_def with_chains_Ret grpc_NewClient_def)

theorem client_without_files_refused_witness:
  "NewGrpcClient plain_env (\<lambda>_ _. Inr ()) insertionSort \<lparr>InsecureConnection = False, Client_CertFile = [],
     Client_KeyFile = [], RootCAFile = [], Endpoint = ''host:1''\<rparr> [] [Some \<lparr>Weight = 1, Interceptor = ''log''\<rparr>] []
     ([] :: ((nat, string) creds, string, unit) grpc_option list)
   = Ret (Inl errNoTransportSecurity)"
  by (rule client_without_files_refused [where us = "[''log'']" and ss = "[]"])
    (simp_all add: chain_defs sorted_chain_def SortInterceptors_def remove_nils.simps IsNil_def sort_Sort_def Let_def)

text \<open>
  External options come last: the credentials a client ends up with are those of the last external
  credentials option, and only without one those made from the configuration.
\<close>

theorem client_external_options_win:
  assumes "client_options pdq cr ui si dOpts = Ret opts"
  shows "effective_creds None opts = effective_creds cr dOpts \<and> suffix dOpts opts"
  using assms
  by (auto simp: client_options_def effective_creds_append with_chains_creds suffix_def split: outcome.splits)

theorem client_external_options_win_witness:
  "\<exists>opts. client_options insertionSort (Some Insecure) ([] :: string weighted_ptr list) []
      [TransportCredentials (Some (ServerTLS ''ca'')), External ()] = Ret opts
    \<and> effective_creds None opts = Some (ServerTLS ''ca'' :: (nat, string) creds)"
proof -
  obtain opts where "client_options insertionSort (Some Insecure) ([] :: string weighted_ptr list) []
      [TransportCredentials (Some (ServerTLS ''ca'' :: (nat, string) creds)), External ()] = Ret opts"
    by (simp add: client_options_def with_chains_def chain_defs sorted_chain_def SortInterceptors_def
        remove_nils.simps sort_Sort_def Let_def)
  with client_external_options_win [OF this] show ?thesis by simp
qed

text \<open>
  C8: TLS of a gRPC server from its configuration to its handshakes. Whatever the reloader of the configuration gives:
  construction fails only when the client CA file cannot be read or holds no certificate, never open. A server that is
  built has TLS credentials as its first option, followed by the two sorted chains and the external options; it demands
  client certificates exactly if a client CA file is configured, checked against that file; and in every state
  that the reload goroutine reaches after it was started, the handshake gets a key pair that was loaded from the configured files.
\<close>

theorem grpc_server_tls:
  assumes "TLS cf" and "ProvideCertReloader ld hs (grpc_GetCertReloaderConfig cf) lg = (Inr r, hooks1)"
    and "UnaryServerInterceptors pdq ui = Ret us" and "StreamServerInterceptors pdq si = Ret ss"
    and "NewGrpcServer rd pem pdq cf ui si r xs = Ret res"
  shows "\<exists>r0. r = Some r0 \<and> hooks1 = hs @ [r0] \<and> (case res of
      Inl e \<Rightarrow> ClientCAFile cf \<noteq> [] \<and> (rd (ClientCAFile cf) = Inl e
         \<or> (\<exists>ca. rd (ClientCAFile cf) = Inr ca \<and> pem ca = None))
    | Inr opts \<Rightarrow> \<exists>tc. opts = TransportCredentials (Some tc) # ChainUnary us # ChainStream ss # map External xs
         \<and> (RequireAndVerifyClientCert tc \<longleftrightarrow> ClientCAFile cf \<noteq> [])
         \<and> (ClientCAFile cf \<noteq> [] \<longrightarrow> (\<exists>ca pool. rd (ClientCAFile cf) = Inr ca \<and> pem ca = Some pool \<and> ClientCAs tc = Some pool))
         \<and> GetCertificate_of tc = Some r0
         \<and> (\<forall>r'. (step ld)\<^sup>*\<^sup>* (snd (Start r0)) r' \<longrightarrow>
              (\<exists>c k. GetCertificate r' = Inr (Some c) \<and> k < loads r' \<and> ld (Server_CertFile cf) (Server_KeyFile cf) k = Inr c)))"
proof -
  let ?rc = "\<lparr>CertFile = Server_CertFile cf, KeyFile = Server_KeyFile cf, ReloadInterval = one_hour\<rparr>"
  obtain r0 where r0: "NewCertReloader ld ?rc lg = Inr r0" "r = Some r0" "hooks1 = hs @ [r0]"
    using assms(1,2) by (auto simp: ProvideCertReloader_def grpc_GetCertReloaderConfig_def split: sum.splits)
  have handshake: "\<exists>c k. GetCertificate r' = Inr (Some c) \<and> k < loads r' \<and> ld (Server_CertFile cf) (Server_KeyFile cf) k = Inr c"
    if "(step ld)\<^sup>*\<^sup>* (snd (Start r0)) r'" for r'
    using reloader_loaded [OF r0(1) that] by simp
  show ?thesis
  proof (cases "MakeServerTLS rd pem r (ClientCAFile cf)")
    case (Inl e)
    with assms(1,5) MakeServerTLS_cases [where readFile = rd and parsePEM = pem and r = r and clientCAFile = "ClientCAFile cf"] r0 show ?thesis
      by (auto simp: NewGrpcServer_def Let_def)
  next
    case (Inr tc)
    then have "res = Inr (TransportCredentials (Some tc) # ChainUnary us # ChainStream ss # map External xs)"
      using assms(1,3,4,5) by (simp add: NewGrpcServer_def with_chains_Ret Let_def)
    with Inr MakeServerTLS_cases [where readFile = rd and parsePEM = pem and r = r and clientCAFile = "ClientCAFile cf"] r0 handshake show ?thesis by auto
  qed
qed

definition mutual_tls :: Server where
  "mutual_tls = \<lparr>SocketName = [], Address = ''localhost:1'', TLS = True,
      Server_CertFile = ''c'', Server_KeyFile = ''k'', ClientCAFile = ''ca''\<rparr>"

theorem grpc_server_tls_witness:
  "\<exists>r hooks1 tc rest. ProvideCertReloader flaky [] (grpc_GetCertReloaderConfig mutual_tls) [] = (Inr r, hooks1)
    \<and> NewGrpcServer Inr Some insertionSort mutual_tls ([] :: string weighted_ptr list) [] r [()]
        = Ret (Inr (TransportCredentials (Some tc) # rest))
    \<and> RequireAndVerifyClientCert tc \<and> ClientCAs tc = Some ''ca''"
proof -
  obtain r hooks1 where r: "ProvideCertReloader flaky [] (grpc_GetCertReloaderConfig mutual_tls) [] = (Inr r, hooks1)"
    by (simp add: ProvideCertReloader_def grpc_GetCertReloaderConfig_def mutual_tls_def NewCertReloader_def flaky_def Let_def)
  have chains: "UnaryServerInterceptors insertionSort [] = Ret ([] :: string list)"
    "StreamServerInterceptors insertionSort [] = Ret ([] :: string list)"
    by (simp_all add: chain_defs sorted_chain_def SortInterceptors_def remove_nils.simps sort_Sort_def Let_def)
  obtain opts where opts: "NewGrpcServer Inr Some insertionSort mutual_tls ([] :: string weighted_ptr list) [] r [()] = Ret (Inr opts)"
    using chains by (simp add: NewGrpcServer_def mutual_tls_def MakeServerTLS_def with_chains_Ret Let_def)
  from grpc_server_tls [OF _ r chains opts] opts r show ?thesis by (auto simp: mutual_tls_def)
qed

text \<open>
  The in-memory server of tests, from its construction through the lifecycle. When no chain panics and the
  client can be created, \<open>NewGrpc\<close> succeeds; its server has the two sorted server chains, and after the start of the
  lifecycle its goroutine is on its way to serve the buffer that the client dials. No interleaving of the
  goroutine is fatal, whatever \<open>Serve\<close> returns, and once the lifecycle was stopped the goroutine can always finish.
\<close>

theorem test_server_lifecycle:
  assumes "WithUnaryClientInterceptors pdq uc = Ret ucs" and "WithStreamClientInterceptors pdq sc = Ret scs"
    and "UnaryServerInterceptors pdq us = Ret uss" and "StreamServerInterceptors pdq ss = Ret sss"
    and "dial ''passthrough://buffcon'' [External lis, TransportCredentials (Some Insecure), ChainUnary ucs, ChainStream scs] = Inr conn"
    and "pc s0 = NotSpawned" and "\<not> shut s0"
  shows "\<exists>lc lc1 s1. NewGrpc dial lis pdq us ss uc sc new_lifecycle = Ret (Inr ([ChainUnary uss, ChainStream sss], conn, lc))
    \<and> lc_Start never lc s0 = (None, lc1, s1) \<and> pc s1 = Spawned lis
    \<and> (\<forall>s. (serve_step TestServer)\<^sup>*\<^sup>* s1 s \<longrightarrow> (\<forall>e. pc s \<noteq> Fatal e)
        \<and> (\<exists>lc2 s2 s3. lc_Stop never lc1 s = ([], lc2, s2) \<and> (serve_step TestServer)\<^sup>*\<^sup>* s2 s3 \<and> pc s3 = Finished))"
proof -
  let ?h = "\<lparr>hook_start = Some (test_OnStart lis), hook_stop = Some test_OnStop\<rparr>"
  let ?s1 = "s0\<lparr>pc := Spawned lis\<rparr>"
  let ?lc1 = "(lc_Append ?h new_lifecycle)\<lparr>numStarted := 1, app_state := AppStarted\<rparr>"
  have built: "NewGrpc dial lis pdq us ss uc sc new_lifecycle
      = Ret (Inr ([ChainUnary uss, ChainStream sss], conn, lc_Append ?h new_lifecycle))"
    using assms(1-5) by (simp add: NewGrpc_def with_chains_Ret grpc_NewClient_def)
  have start: "lc_Start never (lc_Append ?h new_lifecycle) s0 = (None, ?lc1, ?s1)"
    by (simp add: lc_Start_def lc_Append_def new_lifecycle_def test_OnStart_def)
  have run: "(\<forall>e. pc s \<noteq> Fatal e) \<and> (\<exists>lc2 s2 s3. lc_Stop never ?lc1 s = ([], lc2, s2)
      \<and> (serve_step TestServer)\<^sup>*\<^sup>* s2 s3 \<and> pc s3 = Finished)" if "(serve_step TestServer)\<^sup>*\<^sup>* ?s1 s" for s
  proof -
    have alive: "pc s = Finished \<or> (\<exists>l. pc s = Spawned l \<or> pc s = Serving l)"
      using test_serving.kept_steps [OF that] by simp
    then have "winding_down (snd (OnStop TestServer None s))" by (auto simp: winding_down_def)
    from serving.drains [OF this] alive show ?thesis
      by (auto simp: lc_Stop_def lc_Append_def new_lifecycle_def test_OnStop_def OnStop_def Let_def)
  qed
  show ?thesis using built start run by (intro exI [of _ "lc_Append ?h new_lifecycle"] exI [of _ ?lc1] exI [of _ ?s1]) simp
qed

theorem test_server_lifecycle_witness:
  "\<exists>lc lc1 s1. NewGrpc (\<lambda>_ _. Inr ''conn'') () insertionSort [Some \<lparr>Weight = 1, Interceptor = ''log''\<rparr>] [] [] [] new_lifecycle
      = Ret (Inr ([ChainUnary [''log''], ChainStream []] :: ((nat, string) creds, string, unit) grpc_option list, ''conn'', lc))
    \<and> lc_Start never lc (grpc_newServer mutual_tls) = (None, lc1, s1) \<and> pc s1 = Spawned ()"
proof -
  have "WithUnaryClientInterceptors insertionSort [] = Ret ([] :: string list)"
    "WithStreamClientInterceptors insertionSort [] = Ret ([] :: string list)"
    "UnaryServerInterceptors insertionSort [Some \<lparr>Weight = 1, Interceptor = ''log''\<rparr>] = Ret [''log'']"
    "StreamServerInterceptors insertionSort [] = Ret ([] :: string list)"
    by (simp_all add: chain_defs sorted_chain_def SortInterceptors_def remove_nils.simps IsNil_def sort_Sort_def Let_def)
  from test_server_lifecycle [OF this, of "\<lambda>_ (_ :: ((nat, string) creds, string, unit) grpc_option list). Inr ''conn''" "()" "''conn''"
      "grpc_newServer mutual_tls"]
  show ?thesis by (auto simp: grpc_newServer_def)
qed

end
