(* ===== verification/Mains.thy ===== *)
theory Mains
  imports Config Job Servers
begin

text \<open>
  The programs of the examples from their arguments to their exit code (src/examples/cmd/job/main.go,
  src/examples/cmd/server/main.go): the configuration is loaded, the system is built and fx runs it
  (src/vendor/go.uber.org/fx/app.go). The hooks that the other modules append are a parameter: they are quiet, which
  means that they succeed and leave the part of the state that is modelled here alone.
\<close>

section \<open>The run of an application\<close>

text \<open>
  \<open>App.run\<close>. After the start the goroutines run until one of them ends the process or a signal arrives, which carries
  an exit code; an error of start or stop makes the exit code one. Start and stop have deadlines: when \<open>timely\<close> does
  not hold, they may expire after some of the hooks have run, which is an error as well.
\<close>

inductive app_run ::
  "bool \<Rightarrow> ('w \<Rightarrow> 'w \<Rightarrow> bool) \<Rightarrow> ('w \<Rightarrow> int \<Rightarrow> bool) \<Rightarrow> ('w \<Rightarrow> int option) \<Rightarrow> 'w lifecycle \<Rightarrow> 'w \<Rightarrow> int \<Rightarrow> 'w \<Rightarrow> bool"
  for timely :: bool and goroutines :: "'w \<Rightarrow> 'w \<Rightarrow> bool" and signal :: "'w \<Rightarrow> int \<Rightarrow> bool" and exits :: "'w \<Rightarrow> int option" where
  start_fails: "app_Start never lc w = (e # es, lc1, w1) \<Longrightarrow> app_run timely goroutines signal exits lc w 1 w1"
| process_exits: "app_Start never lc w = ([], lc1, w1) \<Longrightarrow> goroutines\<^sup>*\<^sup>* w1 w2 \<Longrightarrow> exits w2 = Some exitCode \<Longrightarrow>
    app_run timely goroutines signal exits lc w exitCode w2"
| signalled: "app_Start never lc w = ([], lc1, w1) \<Longrightarrow> goroutines\<^sup>*\<^sup>* w1 w2 \<Longrightarrow> exits w2 = None \<Longrightarrow> signal w2 exitCode \<Longrightarrow>
    lc_Stop never lc1 w2 = (errs, lc2, w3) \<Longrightarrow>
    app_run timely goroutines signal exits lc w (if errs = [] then exitCode else 1) w3"
| start_expires: "\<not> timely \<Longrightarrow> start_loop never (take n (hooks lc)) 0 w = (None, n', w1) \<Longrightarrow>
    app_run timely goroutines signal exits lc w 1 w1"
| stop_expires: "\<not> timely \<Longrightarrow> app_Start never lc w = ([], lc1, w1) \<Longrightarrow> goroutines\<^sup>*\<^sup>* w1 w2 \<Longrightarrow> exits w2 = None \<Longrightarrow>
    signal w2 exitCode \<Longrightarrow> stop_loop never (take n (rev (take (numStarted lc1) (hooks lc1)))) [] w2 = (errs, w3) \<Longrightarrow>
    app_run timely goroutines signal exits lc w 1 w3"

inductive_cases app_runE: "app_run timely goroutines signal exits lc w exitCode w'"

section \<open>The main functions\<close>

text \<open>
  The process ends with an exit code or with a panic. \<open>build\<close> stands for \<open>fx.New(createSystem(conf))\<close>: an error of a constructor
  is reported by \<open>Run\<close>, a panic is not recovered. \<open>refused\<close> is what the program does with an error of the configuration.
\<close>

datatype main_end = ExitCode int | Panicking string

inductive example_main ::
  "('s, 'v) load_env \<Rightarrow> 's \<Rightarrow> string list \<Rightarrow> (go_error \<Rightarrow> main_end) \<Rightarrow> ('s \<Rightarrow> 'w \<Rightarrow> ('w lifecycle \<times> 'w) result outcome) \<Rightarrow>
   ('w lifecycle \<Rightarrow> 'w \<Rightarrow> int \<Rightarrow> 'w \<Rightarrow> bool) \<Rightarrow> 'w \<Rightarrow> main_end \<Rightarrow> 'w \<Rightarrow> bool"
  for E :: "('s, 'v) load_env" and conf0 :: 's and args :: "string list" and refused :: "go_error \<Rightarrow> main_end"
    and build :: "'s \<Rightarrow> 'w \<Rightarrow> ('w lifecycle \<times> 'w) result outcome"
    and Run :: "'w lifecycle \<Rightarrow> 'w \<Rightarrow> int \<Rightarrow> 'w \<Rightarrow> bool" and w :: 'w where
  reported: "Load E conf0 args [] = load_outcome.Exited out \<Longrightarrow> example_main E conf0 args refused build Run w (ExitCode 0) w"
| load_panics: "Load E conf0 args [] = Panicked p \<Longrightarrow> example_main E conf0 args refused build Run w (Panicking p) w"
| not_loaded: "Load E conf0 args [] = Returned c (Some e) \<Longrightarrow> example_main E conf0 args refused build Run w (refused e) w"
| New_panics: "Load E conf0 args [] = Returned c None \<Longrightarrow> build c w = Panic p \<Longrightarrow>
    example_main E conf0 args refused build Run w (Panicking p) w"
| New_fails: "Load E conf0 args [] = Returned c None \<Longrightarrow> build c w = Ret (Inl e) \<Longrightarrow>
    example_main E conf0 args refused build Run w (ExitCode 1) w"
| runs_app: "Load E conf0 args [] = Returned c None \<Longrightarrow> build c w = Ret (Inr (lc, w1)) \<Longrightarrow> Run lc w1 exitCode w2 \<Longrightarrow>
    example_main E conf0 args refused build Run w (ExitCode exitCode) w2"

text \<open>The ends of a program by the outcomes of loading and building.\<close>

lemma example_main_iff:
  "example_main E conf0 args refused build Run w r w' \<longleftrightarrow>
     (case Load E conf0 args [] of
        load_outcome.Exited out \<Rightarrow> r = ExitCode 0 \<and> w' = w
      | Panicked p \<Rightarrow> r = Panicking p \<and> w' = w
      | Returned c (Some e) \<Rightarrow> r = refused e \<and> w' = w
      | Returned c None \<Rightarrow>
          (case build c w of
             Panic p \<Rightarrow> r = Panicking p \<and> w' = w
           | Ret (Inl e) \<Rightarrow> r = ExitCode 1 \<and> w' = w
           | Ret (Inr (lc, w1)) \<Rightarrow> \<exists>exitCode. r = ExitCode exitCode \<and> Run lc w1 exitCode w'))"
  by (subst example_main.simps) (auto split: load_outcome.splits option.splits outcome.splits sum.splits)

lemma example_main_exists:
  assumes "\<And>c lc w1. build c w = Ret (Inr (lc, w1)) \<Longrightarrow> \<exists>exitCode w'. Run lc w1 exitCode w'"
  shows "\<exists>r w'. example_main E conf0 args refused build Run w r w'"
proof (cases "Load E conf0 args []")
  case (Returned c err)
  note loaded = this
  show ?thesis
  proof (cases err)
    case None
    consider p where "build c w = Panic p" | e where "build c w = Ret (Inl e)" | lc w1 where "build c w = Ret (Inr (lc, w1))"
      by (metis outcome.exhaust sum.exhaust surj_pair)
    then show ?thesis using assms loaded None unfolding example_main_iff by cases fastforce+
  qed (simp add: example_main_iff loaded)
qed (simp_all add: example_main_iff)

definition log_Fatal :: "go_error \<Rightarrow> main_end" where
  "log_Fatal e = ExitCode 1"

text \<open>The job: its hooks, with those of the other modules between them. fx shuts down on a signal, or when the job asks for it.\<close>

definition job_build :: "('s \<Rightarrow> int) \<Rightarrow> job_run hook list \<Rightarrow> 's \<Rightarrow> job_run \<Rightarrow> (job_run lifecycle \<times> job_run) result outcome" where
  "job_build interval others c s =
     (case NewDependency (interval c) new_lifecycle s of
        Panic p \<Rightarrow> Panic p
      | Ret (lc, s1) \<Rightarrow> Ret (Inr (InvokeJob (fold lc_Append others lc), NewJob s1)))"

definition job_signal :: "bool \<Rightarrow> job_run \<Rightarrow> int \<Rightarrow> bool" where
  "job_signal os s exitCode \<longleftrightarrow> exitCode = 0 \<and> (os \<or> 0 < shutdowns s)"

definition job_main where
  "job_main E conf0 args interval others effect os timely =
     example_main E conf0 args log_Fatal (job_build interval others) (app_run timely (job_working effect) (job_signal os) (\<lambda>_. None)) new_run"

text \<open>
  The server: the certificate reloader, the gRPC server and the hook of \<open>StartGrpcServer\<close>, on the sockets of systemd and the
  state of the serving goroutine, whose \<open>logger.Fatal\<close> ends the process.
\<close>

type_synonym 'l serving = "'l sockets \<times> 'l server"

record ('c, 'p, 'ix, 'x, 'l) server_env =
  key_pairs :: "string \<Rightarrow> string \<Rightarrow> nat \<Rightarrow> 'c result"
  files :: "string \<Rightarrow> string result"
  pem_pool :: "string \<Rightarrow> 'p option"
  sorts :: "'ix sorts"
  unary_ixs :: "'ix weighted_ptr list"
  stream_ixs :: "'ix weighted_ptr list"
  server_opts :: "'x list"
  systemd :: "(string \<Rightarrow> 'l list) result"
  listen :: "string \<Rightarrow> 'l result"

definition StartGrpcServer :: "('c, 'p, 'ix, 'x, 'l) server_env \<Rightarrow> 'l serving lifecycle \<Rightarrow> 'l serving lifecycle" where
  "StartGrpcServer env lc =
     lc_Append
       \<lparr>hook_start = Some (\<lambda>(ss, s). case OnStart GrpcServer (systemd env) (listen env) ss s of (e, ss1, s1) \<Rightarrow> (e, ss1, s1)),
        hook_stop = Some (\<lambda>(ss, s). case OnStop GrpcServer None s of (e, s1) \<Rightarrow> (e, ss, s1))\<rparr> lc"

definition server_build ::
  "('c, 'p, 'ix, 'x, 'l) server_env \<Rightarrow> ('s \<Rightarrow> Server) \<Rightarrow> 'l serving hook list \<Rightarrow> 's \<Rightarrow> 'l serving \<Rightarrow>
   ('l serving lifecycle \<times> 'l serving) result outcome" where
  "server_build env server_conf others c w =
     (let sv = server_conf c
      in case ProvideCertReloader (key_pairs env) [] (grpc_GetCertReloaderConfig sv) [] of
           (Inl e, _) \<Rightarrow> Ret (Inl e)
         | (Inr r, _) \<Rightarrow>
             (case NewGrpcServer (files env) (pem_pool env) (sorts env) sv (unary_ixs env) (stream_ixs env) r (server_opts env) of
                Panic p \<Rightarrow> Panic p
              | Ret (Inl e) \<Rightarrow> Ret (Inl e)
              | Ret (Inr _) \<Rightarrow>
                  Ret (Inr (StartGrpcServer env (fold lc_Append others new_lifecycle), fst w, grpc_newServer sv))))"

definition serving_alone :: "'l serving \<Rightarrow> 'l serving \<Rightarrow> bool" where
  "serving_alone w w' \<longleftrightarrow> fst w' = fst w \<and> serve_step GrpcServer (snd w) (snd w') \<and> \<not> shut (snd w')"

definition fatal_exit :: "'l serving \<Rightarrow> int option" where
  "fatal_exit w = (case pc (snd w) of Fatal e \<Rightarrow> Some 1 | _ \<Rightarrow> None)"

definition server_main where
  "server_main E conf0 args env server_conf others timely w =
     example_main E conf0 args log_Fatal (server_build env server_conf others)
       (app_run timely serving_alone (\<lambda>_ exitCode. exitCode = 0) fatal_exit) w"

section \<open>Quiet hooks\<close>

definition quiet :: "'w hook \<Rightarrow> bool" where
  "quiet h \<longleftrightarrow> hook_start h \<in> {None, Some (Pair None)} \<and> hook_stop h \<in> {None, Some (Pair None)}"

lemma start_quiet: "list_all quiet hs \<Longrightarrow> start_loop never (hs @ rest) n w = start_loop never rest (n + length hs) w"
  by (induction hs arbitrary: n) (auto simp: quiet_def split: option.splits)

lemma stop_quiet: "list_all quiet hs \<Longrightarrow> stop_loop never (hs @ rest) errs w = stop_loop never rest errs w"
  by (induction hs) (auto simp: quiet_def split: option.splits)

lemma quiet_keeps: "quiet h \<Longrightarrow> keeps P (hook_start h) \<and> keeps P (hook_stop h)"
  by (auto simp: quiet_def keeps_def)

lemma fold_Append [simp]: "fold lc_Append hs lc = lc\<lparr>hooks := hooks lc @ hs\<rparr>"
  by (induction hs arbitrary: lc) (simp_all add: lc_Append_def)

section \<open>The job to its exit code\<close>

lemma job_lifecycle:
  assumes "list_all quiet others" and "job_build interval others c new_run = Ret (Inr (lc, s))"
  shows "0 < interval c \<and> (\<exists>lc1. app_Start never lc s = ([], lc1, snd (job_OnStart s))
    \<and> job_inv effect (snd (job_OnStart s)) \<and> stop_result (snd (job_OnStart s)) = None
    \<and> (\<forall>t. \<exists>lc2. lc_Stop never lc1 t =
        (case ErrorOrNil (job_err t) of None \<Rightarrow> [] | Some e \<Rightarrow> [e], lc2, snd (dependency_Stop (snd (job_OnStop t))))))"
  using assms
  by (auto simp: job_build_def NewDependency_def InvokeJob_def lc_Append_def new_lifecycle_def app_Start_def lc_Start_def
      lc_Stop_def start_quiet stop_quiet job_OnStart_def job_OnStop_def dependency_Stop_def new_run_def NewJob_def job_inv_def
      split: if_splits option.splits)

text \<open>No hook of the application counts iterations or loses their errors.\<close>

lemma job_hooks_count:
  assumes "list_all quiet others" and "job_build interval others c new_run = Ret (Inr (lc, s))" and "h \<in> set (hooks lc)"
  shows "keeps (\<lambda>t. job_count t = n \<and> job_err t = es) (hook_start h)" "keeps (\<lambda>t. job_count t = n \<and> job_err t = es) (hook_stop h)"
proof -
  have "h \<in> set others \<or> h = \<lparr>hook_start = None, hook_stop = Some dependency_Stop\<rparr> \<or> h = \<lparr>hook_start = Some job_OnStart, hook_stop = Some job_OnStop\<rparr>"
    using assms(2,3) by (auto simp: job_build_def NewDependency_def InvokeJob_def lc_Append_def new_lifecycle_def split: if_splits)
  then show "keeps (\<lambda>t. job_count t = n \<and> job_err t = es) (hook_start h)" "keeps (\<lambda>t. job_count t = n \<and> job_err t = es) (hook_stop h)"
    using assms(1) quiet_keeps [of h] by (auto simp: list_all_iff, auto simp: keeps_def job_OnStart_def job_OnStop_def dependency_Stop_def)
qed

lemma job_run_ends:
  assumes "list_all quiet others" and "job_build interval others c new_run = Ret (Inr (lc, s))"
    and "app_run timely (job_working effect) (job_signal os) (\<lambda>_. None) lc s exitCode s'"
  shows "job_count s' \<le> 5 \<and> job_err s' = effects effect (job_count s') \<and> exitCode \<in> {0, 1}
    \<and> (exitCode = 0 \<or> timely \<longrightarrow> (os \<or> job_count s' = 5) \<and> exitCode = (if effects effect (job_count s') = [] then 0 else 1)
        \<and> job_cancelled s' \<and> \<not> ticker_on s')"
proof -
  from job_lifecycle [OF assms(1,2), of effect] obtain lc1 where start: "app_Start never lc s = ([], lc1, snd (job_OnStart s))"
    and inv: "job_inv effect (snd (job_OnStart s))" "stop_result (snd (job_OnStart s)) = None"
    and stop: "\<And>t. \<exists>lc2. lc_Stop never lc1 t =
        (case ErrorOrNil (job_err t) of None \<Rightarrow> [] | Some e \<Rightarrow> [e], lc2, snd (dependency_Stop (snd (job_OnStop t))))" by blast
  have reached: "job_count t \<le> 5 \<and> job_err t = effects effect (job_count t) \<and> stop_result t = None \<and> job_inv effect t"
    if "(job_working effect)\<^sup>*\<^sup>* (snd (job_OnStart s)) t" for t
    using job_alone.kept_steps [OF that] inv by (auto simp: job_inv_def)
  from assms(3) show ?thesis
  proof (cases rule: app_run.cases)
    case (signalled lc1' w1 t code errs lc2)
    with start have steps: "(job_working effect)\<^sup>*\<^sup>* (snd (job_OnStart s)) t" and sig: "job_signal os t code"
      and ends: "lc_Stop never lc1 t = (errs, lc2, s')" by simp_all
    note t = reached [OF steps]
    have "s' = snd (dependency_Stop (snd (job_OnStop t)))" "errs = [] \<longleftrightarrow> effects effect (job_count t) = []"
      using stop [of t] ends t by (auto simp: ErrorOrNil_def)
    moreover have "os \<or> job_count t = 5" using t sig by (auto simp: job_inv_def job_signal_def split: if_splits)
    ultimately show ?thesis using signalled sig t by (simp add: job_signal_def job_OnStop_def dependency_Stop_def)
  next
    case (start_expires n n')
    have "job_count s' = 0 \<and> job_err s' = []"
    proof (rule start_loop_kept [OF start_expires(3)])
      show "job_count s = 0 \<and> job_err s = []" using assms(2) by (auto simp: job_build_def NewJob_def split: outcome.splits)
    qed (use job_hooks_count(1) [OF assms(1,2)] in \<open>blast dest: in_set_takeD\<close>)
    with start_expires show ?thesis by simp
  next
    case (stop_expires lc1' w1 t code n errs)
    then have lc: "lc1' = lc1" and steps: "(job_working effect)\<^sup>*\<^sup>* (snd (job_OnStart s)) t" using start by simp_all
    have "hooks lc1 = hooks lc" using start by (auto simp: app_Start_def lc_Start_def split: prod.splits option.splits if_splits)
    then have "set (take n (rev (take (numStarted lc1) (hooks lc1)))) \<subseteq> set (hooks lc)" by (auto dest!: in_set_takeD)
    then have "job_count s' = job_count t \<and> job_err s' = job_err t"
      using stop_loop_kept [OF stop_expires(7) [unfolded lc], where P = "\<lambda>t'. job_count t' = job_count t \<and> job_err t' = job_err t"]
        job_hooks_count(2) [OF assms(1,2), of _ "job_count t" "job_err t"] by blast
    with stop_expires reached [OF steps] show ?thesis by simp
  qed (use start in auto)
qed

text \<open>The job of an application that is left alone comes to the end of its five iterations.\<close>

lemma job_run_exists:
  assumes "list_all quiet others" and "job_build interval others c new_run = Ret (Inr (lc, s))"
  shows "\<exists>exitCode s'. app_run timely (job_working effect) (job_signal os) (\<lambda>_. None) lc s exitCode s'"
proof -
  from job_lifecycle [OF assms, of effect] obtain lc1 where start: "app_Start never lc s = ([], lc1, snd (job_OnStart s))"
    and inv: "job_inv effect (snd (job_OnStart s))" "stop_result (snd (job_OnStart s)) = None" by blast
  then obtain t where t: "(job_working effect)\<^sup>*\<^sup>* (snd (job_OnStart s)) t" "job_pc t = JobDone"
    using job_alone.drains by blast
  then have "job_inv effect t" using job_alone.kept_steps inv by blast
  then have "job_signal os t 0" using t(2) by (simp add: job_inv_def job_signal_def)
  moreover obtain errs lc2 s' where "lc_Stop never lc1 t = (errs, lc2, s')" by (metis surj_pair)
  ultimately show ?thesis using signalled [OF start t(1), of "\<lambda>_. None" "job_signal os" 0 errs lc2 s' timely] by auto
qed

section \<open>The server to its exit code\<close>

lemma server_lifecycle:
  assumes "list_all quiet others" and "server_build env server_conf others c w = Ret (Inr (lc, w1))"
  shows "w1 = (fst w, grpc_newServer (server_conf c))
    \<and> (case NewListener (systemd env) (listen env) (SocketName (server_conf c)) (Address (server_conf c)) (fst w) of
        (Inl e, ss1) \<Rightarrow> (\<exists>lc1 s1. app_Start never lc w1 = ([e], lc1, ss1, s1) \<and> pc s1 = NotSpawned)
          \<and> (\<forall>n n' w2. start_loop never (take n (hooks lc)) 0 w1 = (None, n', w2) \<longrightarrow> w2 = w1)
      | (Inr l, ss1) \<Rightarrow> \<exists>lc1 s1. app_Start never lc w1 = ([], lc1, ss1, s1) \<and> pc s1 = Spawned l \<and> \<not> shut s1
          \<and> (\<forall>w2. \<exists>lc2. lc_Stop never lc1 w2 = ([], lc2, fst w2, snd (OnStop GrpcServer None (snd w2)))))"
proof -
  have lc: "lc = StartGrpcServer env (fold lc_Append others new_lifecycle)" and w1: "w1 = (fst w, grpc_newServer (server_conf c))"
    using assms(2) by (auto simp: server_build_def Let_def split: prod.splits sum.splits outcome.splits)
  obtain r ss1 where "NewListener (systemd env) (listen env) (SocketName (server_conf c)) (Address (server_conf c)) (fst w) = (r, ss1)"
    by fastforce
  note lis = this
  have early: "start_loop never (take n others @ hs) 0 w1 = start_loop never hs (length (take n others)) w1" for n hs
    using start_quiet [of "take n others" hs 0 w1] assms(1) by (auto simp: list_all_iff dest: in_set_takeD)
  show ?thesis
  proof (cases r)
    case (Inl e)
    then have "w2 = w1" if "start_loop never (take n (hooks lc)) 0 w1 = (None, n', w2)" for n n' w2
      using that lis early [of n "[]"] early [of n "hooks (StartGrpcServer env new_lifecycle)"] unfolding lc w1
      by (cases "n - length others")
        (auto simp: StartGrpcServer_def lc_Append_def new_lifecycle_def OnStart_def grpc_newServer_def AsHttpConfig_def Let_def)
    with Inl lis assms(1) show ?thesis unfolding lc w1
      by (simp add: StartGrpcServer_def lc_Append_def new_lifecycle_def app_Start_def lc_Start_def lc_Stop_def start_quiet
          stop_quiet stop_quiet [where rest = "[]", simplified] OnStart_def grpc_newServer_def AsHttpConfig_def srv_logs_def Let_def)
  next
    case (Inr l)
    with lis assms(1) show ?thesis unfolding lc w1
      by (simp add: StartGrpcServer_def lc_Append_def new_lifecycle_def app_Start_def lc_Start_def lc_Stop_def start_quiet
          stop_quiet stop_quiet [where rest = "[]", simplified] OnStart_def grpc_newServer_def AsHttpConfig_def srv_logs_def
          OnStop_def Let_def case_prod_unfold)
  qed
qed

text \<open>Before the stop hook the goroutine serves, is about to, or has ended the process on an error of its own.\<close>

definition unstopped :: "'l serving \<Rightarrow> bool" where
  "unstopped w \<longleftrightarrow> \<not> shut (snd w)
     \<and> ((\<exists>l. pc (snd w) = Spawned l \<or> pc (snd w) = Serving l) \<or> (\<exists>e. pc (snd w) = Fatal e \<and> e \<noteq> ErrServerStopped))"

interpretation unstopped: kept serving_alone unstopped
proof
  fix w w' :: "'l serving"
  assume un: "unstopped w" and "serving_alone w w'"
  then have "serve_step GrpcServer (snd w) (snd w')" and "\<not> shut (snd w')" by (simp_all add: serving_alone_def)
  then show "unstopped w'"
    using un by (cases rule: serve_step.cases) (auto simp: unstopped_def after_Serve_def)
qed

definition clean_end :: "server_kind \<Rightarrow> 'l server \<Rightarrow> bool" where
  "clean_end k s \<longleftrightarrow> (\<forall>s'. (serve_step k)\<^sup>*\<^sup>* s s' \<longrightarrow> (\<forall>e. pc s' \<noteq> Fatal e) \<and> (\<exists>s''. (serve_step k)\<^sup>*\<^sup>* s' s'' \<and> pc s'' = Finished))"

lemma OnStop_clean: "pc s = Spawned l \<or> pc s = Serving l \<Longrightarrow> clean_end k (snd (OnStop k sd s))"
  unfolding clean_end_def by (intro allI impI, rule server_stop_not_fatal)

lemma server_run_ends:
  assumes "list_all quiet others" and "server_build env server_conf others c w = Ret (Inr (lc, w1))"
    and "app_run timely serving_alone (\<lambda>_ exitCode. exitCode = 0) fatal_exit lc w1 exitCode w'"
  shows "case fst (NewListener (systemd env) (listen env) (SocketName (server_conf c)) (Address (server_conf c)) (fst w)) of
      Inl e \<Rightarrow> exitCode = 1 \<and> pc (snd w') = NotSpawned
    | Inr l \<Rightarrow> exitCode = 0 \<and> clean_end GrpcServer (snd w')
             \<or> exitCode = 1 \<and> (\<not> timely \<or> (\<exists>e. pc (snd w') = Fatal e \<and> e \<noteq> ErrServerStopped))"
proof -
  obtain r ss1 where lis: "NewListener (systemd env) (listen env) (SocketName (server_conf c)) (Address (server_conf c)) (fst w) = (r, ss1)"
    by fastforce
  note life = server_lifecycle [OF assms(1,2)]
  show ?thesis
  proof (cases r)
    case (Inl e)
    with life lis obtain lc1 s1 where w1: "w1 = (fst w, grpc_newServer (server_conf c))"
      and start: "app_Start never lc w1 = ([e], lc1, ss1, s1)" "pc s1 = NotSpawned"
      and expired: "\<And>n n' w2. start_loop never (take n (hooks lc)) 0 w1 = (None, n', w2) \<Longrightarrow> w2 = w1" by auto
    from assms(3) have "exitCode = 1 \<and> pc (snd w') = NotSpawned"
    proof (cases rule: app_run.cases)
      case (start_expires n n')
      with expired [OF start_expires(3)] w1 show ?thesis by (simp add: grpc_newServer_def)
    qed (use start in auto)
    with Inl lis show ?thesis by simp
  next
    case (Inr l)
    with life lis obtain lc1 s1 where start: "app_Start never lc w1 = ([], lc1, ss1, s1)" and s1: "pc s1 = Spawned l" "\<not> shut s1"
      and stop: "\<And>w2. \<exists>lc2. lc_Stop never lc1 w2 = ([], lc2, fst w2, snd (OnStop GrpcServer None (snd w2)))" by auto
    have init: "unstopped (ss1, s1)" using s1 by (simp add: unstopped_def)
    from assms(3) have "exitCode = 0 \<and> clean_end GrpcServer (snd w')
        \<or> exitCode = 1 \<and> (\<not> timely \<or> (\<exists>e. pc (snd w') = Fatal e \<and> e \<noteq> ErrServerStopped))"
    proof (cases rule: app_run.cases)
      case (process_exits lc1' w1')
      then have "serving_alone\<^sup>*\<^sup>* (ss1, s1) w'" using start by simp
      from unstopped.kept_steps [OF this init] process_exits show ?thesis by (auto simp: unstopped_def fatal_exit_def)
    next
      case (signalled lc1' w1' w2 code errs lc2)
      then have steps: "serving_alone\<^sup>*\<^sup>* (ss1, s1) w2" and ends: "lc_Stop never lc1 w2 = (errs, lc2, w')"
        using start by simp_all
      have un: "unstopped w2" by (rule unstopped.kept_steps [OF steps init])
      from ends stop [of w2] have "errs = []" "snd w' = snd (OnStop GrpcServer None (snd w2))" by auto
      moreover have "\<exists>l. pc (snd w2) = Spawned l \<or> pc (snd w2) = Serving l"
        using un signalled by (auto simp: unstopped_def fatal_exit_def)
      ultimately show ?thesis using signalled OnStop_clean by fastforce
    qed (use start in auto)
    with Inr lis show ?thesis by simp
  qed
qed

lemma server_run_exists:
  assumes "list_all quiet others" and "server_build env server_conf others c w = Ret (Inr (lc, w1))"
  shows "\<exists>exitCode w'. app_run timely serving_alone (\<lambda>_ exitCode. exitCode = 0) fatal_exit lc w1 exitCode w'"
proof -
  obtain errs lc1 w2 where start: "app_Start never lc w1 = (errs, lc1, w2)" by (metis surj_pair)
  show ?thesis
  proof (cases errs)
    case Nil
    obtain errs' lc2 w3 where "lc_Stop never lc1 w2 = (errs', lc2, w3)" by (metis surj_pair)
    with start Nil show ?thesis
      using process_exits [of lc w1 lc1 w2 serving_alone w2 fatal_exit _ timely]
        signalled [of lc w1 lc1 w2 serving_alone w2 fatal_exit "\<lambda>_ exitCode. exitCode = 0" 0 _ _ _ timely]
      by (cases "fatal_exit w2") blast+
  next
    case (Cons e es)
    with start start_fails show ?thesis by metis
  qed
qed

section \<open>Properties\<close>


lemma demo_loads: "\<exists>c. Load demo_env Map.empty [''prog''] [] = Returned c None"
proof -
  have "getConfigPath [''prog''] = ([], [''prog''], None)"
    by (simp add: getConfigPath_def is_file_flag_def argSplit_def HasPrefix_def)
  then show ?thesis
    by (simp add: Load_def default_conf_def load_chain_def overlay_def validate_target_def
        registerValidators_def chosen_validator_def demo_env_def)
qed

definition quiet_hook :: "'w hook" where
  "quiet_hook = \<lparr>hook_start = None, hook_stop = Some (Pair None)\<rparr>"



definition taken_port :: "(nat, string, string, unit, nat) server_env" where
  "taken_port = \<lparr>key_pairs = flaky, files = Inr, pem_pool = Some, sorts = insertionSort, unary_ixs = [], stream_ixs = [],
     server_opts = [], systemd = Inr (\<lambda>_. []), listen = (\<lambda>_. Inl (ErrNew ''address already in use''))\<rparr>"


end
