(* ===== verification/Metrics.thy ===== *)
theory Metrics
  imports Servers Lifecycle
begin

text \<open>
  The metrics modules (src/fxmetrics): the registry with its default collectors and the interceptors
  (metrics.go, version_collector.go), pushing to a gateway with its goroutine as a step relation
  (push_metrics.go), and the OTLP exporter (otlp_metrics.go). The registry of prometheus, the gateway and
  the files are parameters.
\<close>

section \<open>metrics.go\<close>

record Metrics =
  met_Server :: Server
  Histograms :: bool
  ProcessName :: string

definition metrics_ApplyDefaults :: "Metrics \<Rightarrow> Metrics" where
  "metrics_ApplyDefaults m = m\<lparr>met_Server := (met_Server m)\<lparr>Address := '':9091''\<rparr>\<rparr>"

definition metrics_MarshalLogObject :: "Metrics option \<Rightarrow> field list" where
  "metrics_MarshalLogObject mo =
     (case mo of
        None \<Rightarrow> []
      | Some m \<Rightarrow> [Object ''server'' (server_MarshalLogObject (Some (met_Server m))), Bool ''histograms'' (Histograms m)] @
          (if ProcessName m \<noteq> [] then [String ''processname'' (ProcessName m)] else []))"

text \<open>The collectors that the package registers; \<open>register\<close> is \<open>Registry.Register\<close>, on the registry's state.\<close>

datatype collector =
    GoCollector
  | ProcessCollector string
  | VersionCollector string string
  | ServerMetrics bool
  | ClientMetrics

type_synonym 'r registry_ops = "collector \<Rightarrow> 'r \<Rightarrow> 'r result"

definition metrics_Weight :: uint64 where
  "metrics_Weight = 60"

definition RegisterMetricsHandlers :: "('r \<Rightarrow> 'h) \<Rightarrow> 'r \<Rightarrow> (string \<times> 'h) list" where
  "RegisterMetricsHandlers handlerFor reg = [(''/metrics'', handlerFor reg)]"

definition metrics_NewGrpcServerInterceptors ::
  "'r registry_ops \<Rightarrow> (collector \<Rightarrow> 'u) \<Rightarrow> (collector \<Rightarrow> 's) \<Rightarrow> Metrics \<Rightarrow> 'r \<Rightarrow>
   ('u weighted \<times> 's weighted \<times> collector \<times> 'r) result" where
  "metrics_NewGrpcServerInterceptors register unary stream mc reg =
     (let serverMetrics = ServerMetrics (Histograms mc)
      in case register serverMetrics reg of
           Inl e \<Rightarrow> Inl e
         | Inr reg1 \<Rightarrow>
             Inr (\<lparr>Weight = metrics_Weight, Interceptor = unary serverMetrics\<rparr>,
                  \<lparr>Weight = metrics_Weight, Interceptor = stream serverMetrics\<rparr>, serverMetrics, reg1))"

definition metrics_NewGrpcClientInterceptors ::
  "'r registry_ops \<Rightarrow> (collector \<Rightarrow> 'u) \<Rightarrow> (collector \<Rightarrow> 's) \<Rightarrow> 'r \<Rightarrow> ('u weighted \<times> 's weighted \<times> 'r) result" where
  "metrics_NewGrpcClientInterceptors register unary stream reg =
     (case register ClientMetrics reg of
        Inl e \<Rightarrow> Inl e
      | Inr reg1 \<Rightarrow>
          Inr (\<lparr>Weight = metrics_Weight, Interceptor = unary ClientMetrics\<rparr>,
               \<lparr>Weight = metrics_Weight, Interceptor = stream ClientMetrics\<rparr>, reg1))"

section \<open>version_collector.go\<close>

text \<open>The two package variables; \<open>buildInfo\<close> is what \<open>debug.ReadBuildInfo\<close> returns.\<close>

record version_state =
  revision :: string
  revisionTimestamp :: string

fun scan_settings :: "(string \<times> string) list \<Rightarrow> version_state \<Rightarrow> version_state" where
  "scan_settings [] v = v"
| "scan_settings ((k, x) # kvs) v =
     scan_settings kvs
       (if k = ''vcs.revision'' then v\<lparr>revision := x\<rparr>
        else if k = ''vcs.time'' then v\<lparr>revisionTimestamp := x\<rparr> else v)"

definition NewVersionCollector :: "(string \<times> string) list option \<Rightarrow> version_state \<Rightarrow> collector \<times> version_state" where
  "NewVersionCollector buildInfo v =
     (let v1 = (case buildInfo of
                  Some settings \<Rightarrow> if revision v = ''unknown'' then scan_settings settings v else v
                | None \<Rightarrow> v)
      in (VersionCollector (revision v1) (revisionTimestamp v1), v1))"

definition NewPrometheusRegistry ::
  "'r registry_ops \<Rightarrow> 'r \<Rightarrow> (string \<times> string) list option \<Rightarrow> Metrics \<Rightarrow> version_state \<Rightarrow> 'r result \<times> version_state" where
  "NewPrometheusRegistry register newRegistry buildInfo mc v =
     (case register GoCollector newRegistry of
        Inl e \<Rightarrow> (Inl e, v)
      | Inr reg1 \<Rightarrow>
          (case register (ProcessCollector (ProcessName mc)) reg1 of
             Inl e \<Rightarrow> (Inl e, v)
           | Inr reg2 \<Rightarrow>
               (case NewVersionCollector buildInfo v of
                  (c, v1) \<Rightarrow> (register c reg2, v1))))"

section \<open>push_metrics.go\<close>

record PushMetrics =
  push_Insecure :: bool
  push_CertFile :: string
  push_KeyFile :: string
  push_RootCAFile :: string
  push_Histograms :: bool
  push_ProcessName :: string
  push_Endpoint :: string
  JobName :: string
  GroupingLabelKey :: string
  GroupingLabelValue :: string
  GroupingLabels :: "string \<rightharpoonup> string"
  PushInterval :: int
  ExtraLabels :: "string \<rightharpoonup> string"

text \<open>The zero value of an embedded server.\<close>

definition no_server :: Server where
  "no_server = \<lparr>SocketName = [], Address = [], TLS = False, Server_CertFile = [], Server_KeyFile = [], ClientCAFile = []\<rparr>"

definition push_MetricsConfig :: "PushMetrics \<Rightarrow> Metrics" where
  "push_MetricsConfig m = \<lparr>met_Server = no_server, Histograms = push_Histograms m, ProcessName = push_ProcessName m\<rparr>"

text \<open>\<open>ord\<close> is the order in which a range over a map yields its entries.\<close>

type_synonym map_order = "(string \<rightharpoonup> string) \<Rightarrow> (string \<times> string) list"

definition push_MarshalLogObject :: "map_order \<Rightarrow> PushMetrics option \<Rightarrow> field list" where
  "push_MarshalLogObject ord mo =
     (case mo of
        None \<Rightarrow> []
      | Some m \<Rightarrow>
          [String ''endpoint'' (push_Endpoint m), Duration ''pushinterval'' (PushInterval m),
           Bool ''insecureconnection'' (push_Insecure m)] @
          (if \<not> push_Insecure m
           then [String ''certfile'' (push_CertFile m), String ''keyfile'' (push_KeyFile m), String ''rootcafile'' (push_RootCAFile m)]
           else []) @
          [Bool ''histograms'' (push_Histograms m)] @
          (if push_ProcessName m \<noteq> [] then [String ''processname'' (push_ProcessName m)] else []) @
          [String ''jobname'' (JobName m)] @
          (if GroupingLabelKey m \<noteq> [] then [String ''groupinglabel'' (GroupingLabelKey m)] else []) @
          (if ord (GroupingLabels m) \<noteq> []
           then [String ''groupinglabels'' (Join (map (\<lambda>(k, v). k @ ''='' @ v) (ord (GroupingLabels m))) '','')]
           else []))"

definition push_GetCertReloaderConfig :: "PushMetrics \<Rightarrow> CertReloaderConfig" where
  "push_GetCertReloaderConfig m =
     \<lparr>CertFile = push_CertFile m, KeyFile = push_KeyFile m, ReloadInterval = one_hour\<rparr>"

record ('c, 'p) http_tls =
  InsecureSkipVerify :: bool
  GetClientCertificate_of :: "'c CertReloader option"
  RootCAs :: "'p option"

definition httpClient ::
  "('c, 'p) tls_env \<Rightarrow> PushMetrics \<Rightarrow> 'c CertReloader option \<Rightarrow> ('c, 'p) http_tls result" where
  "httpClient env m r =
     (let tlsConf = \<lparr>InsecureSkipVerify = push_Insecure m, GetClientCertificate_of = r, RootCAs = None\<rparr>
      in if push_RootCAFile m \<noteq> []
         then case systemPool env of
                Inl e \<Rightarrow> Inl e
              | Inr certPool \<Rightarrow>
                  (case readFile env (push_RootCAFile m) of
                     Inl e \<Rightarrow> Inl e
                   | Inr ca \<Rightarrow>
                       (case addPEM env certPool ca of
                          None \<Rightarrow> Inl (ErrNew (''failed to parse RootCAFile: '' @ push_RootCAFile m))
                        | Some cp \<Rightarrow> Inr (tlsConf\<lparr>RootCAs := Some cp\<rparr>)))
         else Inr tlsConf)"

text \<open>The pusher of prometheus (src/vendor/github.com/prometheus/client_golang/prometheus/push/push.go).\<close>

record 'client pusher =
  p_error :: "go_error option"
  p_url :: string
  p_job :: string
  p_grouping :: "string \<rightharpoonup> string"
  p_client :: 'client

definition push_New :: "string \<Rightarrow> string \<Rightarrow> 'client \<Rightarrow> 'client pusher" where
  "push_New url job cl =
     \<lparr>p_error = (if job = [] then Some (ErrNew ''job name is empty'') else None), p_url = url, p_job = job,
      p_grouping = Map.empty, p_client = cl\<rparr>"

definition Grouping :: "(string \<Rightarrow> bool) \<Rightarrow> string \<Rightarrow> string \<Rightarrow> 'client pusher \<Rightarrow> 'client pusher" where
  "Grouping valid name v p =
     (if p_error p = None
      then if \<not> valid name then p\<lparr>p_error := Some (ErrNew (''grouping label has invalid name: '' @ name))\<rparr>
           else p\<lparr>p_grouping := (p_grouping p)(name \<mapsto> v)\<rparr>
      else p)"

text \<open>The hooks: a single push on stop, or the goroutine below.\<close>

datatype push_hooks = PushOnStop | PushLoop int

definition ProvideMetricsPusher ::
  "('c, 'p) tls_env \<Rightarrow> (string \<Rightarrow> bool) \<Rightarrow> map_order \<Rightarrow> PushMetrics \<Rightarrow> 'c CertReloader option \<Rightarrow>
   (('c, 'p) http_tls pusher \<times> push_hooks) result" where
  "ProvideMetricsPusher env valid ord m r =
     (case httpClient env m r of
        Inl e \<Rightarrow> Inl e
      | Inr cl \<Rightarrow>
          let p0 = push_New (push_Endpoint m) (JobName m) cl;
              p1 = (if GroupingLabelKey m \<noteq> [] then Grouping valid (GroupingLabelKey m) (GroupingLabelValue m) p0
                    else fold (\<lambda>(k, v). Grouping valid k v) (ord (GroupingLabels m)) p0);
              p2 = fold (\<lambda>(name, v). Grouping valid name v) (ord (ExtraLabels m)) p1
          in Inr (p2, if PushInterval m = 0 then PushOnStop else PushLoop (PushInterval m)))"

section \<open>The pushing goroutine\<close>

text \<open>
  Pushes are recorded when they begin. \<open>OnStart\<close> spawns the goroutine, whose ticker panics on an interval
  that is not positive; \<open>OnStop\<close> closes \<open>done\<close>, which panics the second time, and pushes itself
  without waiting for the goroutine. A select with both channels ready takes either.
\<close>

datatype push_pc = LoopIdle | LoopSelecting | LoopPushing | LoopExited | LoopPanic

datatype push_stop = NotStopped | FinalPush | StopReturned "go_error option" | ClosePanic

datatype push_event = Periodic | Final

record push_run =
  loop :: push_pc
  closed :: bool
  stop :: push_stop
  pushes :: "push_event list"
  failures :: "go_error list"

definition push_idle :: push_run where
  "push_idle = \<lparr>loop = LoopIdle, closed = False, stop = NotStopped, pushes = [], failures = []\<rparr>"

definition push_OnStart :: "int \<Rightarrow> push_run \<Rightarrow> push_run" where
  "push_OnStart interval s = s\<lparr>loop := if 0 < interval then LoopSelecting else LoopPanic\<rparr>"

definition push_OnStop :: "push_run \<Rightarrow> push_run" where
  "push_OnStop s =
     (if closed s then s\<lparr>stop := ClosePanic\<rparr>
      else s\<lparr>closed := True, stop := FinalPush, pushes := pushes s @ [Final]\<rparr>)"

inductive push_step :: "push_run \<Rightarrow> push_run \<Rightarrow> bool" where
  take_done: "loop s = LoopSelecting \<Longrightarrow> closed s \<Longrightarrow> push_step s (s\<lparr>loop := LoopExited\<rparr>)"
| take_tick: "loop s = LoopSelecting \<Longrightarrow> push_step s (s\<lparr>loop := LoopPushing, pushes := pushes s @ [Periodic]\<rparr>)"
| push_ok: "loop s = LoopPushing \<Longrightarrow> push_step s (s\<lparr>loop := LoopSelecting\<rparr>)"
| push_failed: "loop s = LoopPushing \<Longrightarrow> push_step s (s\<lparr>loop := LoopSelecting, failures := failures s @ [e]\<rparr>)"
| call_OnStop: "stop s = NotStopped \<Longrightarrow> push_step s (push_OnStop s)"
| final_returns: "stop s = FinalPush \<Longrightarrow> push_step s (s\<lparr>stop := StopReturned err\<rparr>)"

inductive_cases push_stepE: "push_step s s'"

section \<open>otlp_metrics.go\<close>

record OtlpMetrics =
  otlp_Enabled :: bool
  otlp_PushInterval :: int
  otlp_Histograms :: bool
  otlp_ProcessName :: string
  GrpcClient :: Client

definition otlp_MetricsConfig :: "OtlpMetrics \<Rightarrow> Metrics" where
  "otlp_MetricsConfig m = \<lparr>met_Server = no_server, Histograms = otlp_Histograms m, ProcessName = otlp_ProcessName m\<rparr>"

definition otlp_MarshalLogObject :: "OtlpMetrics option \<Rightarrow> field list" where
  "otlp_MarshalLogObject mo =
     (case mo of
        None \<Rightarrow> []
      | Some m \<Rightarrow>
          [Bool ''enabled'' (otlp_Enabled m), Object ''grpcclient'' (client_MarshalLogObject (Some (GrpcClient m))),
           Duration ''pushinterval'' (otlp_PushInterval m), Bool ''histograms'' (otlp_Histograms m)] @
          (if otlp_ProcessName m \<noteq> [] then [String ''processname'' (otlp_ProcessName m)] else []))"

text \<open>What the OTLP SDK and the reloader do to the world.\<close>

record ('c, 'w) reloader_ops =
  reloader_Start :: "'c CertReloader \<Rightarrow> 'w action"
  reloader_Stop :: "'c CertReloader \<Rightarrow> 'w action"

definition reloader_hook :: "('c, 'w) reloader_ops \<Rightarrow> 'c CertReloader \<Rightarrow> 'w hook" where
  "reloader_hook ops r = \<lparr>hook_start = Some (reloader_Start ops r), hook_stop = Some (reloader_Stop ops r)\<rparr>"

datatype ('c, 'p) meter_provider =
    NoopMeter
  | SdkMeter string "('c, 'p) creds option" int

definition NewOtlpMeterProvider ::
  "('c, 'p) tls_env \<Rightarrow> ('c, 'w) reloader_ops \<Rightarrow> (string \<Rightarrow> ('c, 'p) creds option \<Rightarrow> go_error option) \<Rightarrow>
   (('c, 'p) meter_provider \<Rightarrow> 'w action) \<Rightarrow> (string \<Rightarrow> 'w \<Rightarrow> 'w) \<Rightarrow> OtlpMetrics \<Rightarrow> logger \<Rightarrow> 'w lifecycle \<Rightarrow>
   ('c, 'p) meter_provider result \<times> 'w lifecycle" where
  "NewOtlpMeterProvider env ops newExporter shutdown info mc lg lc =
     (if \<not> otlp_Enabled mc then (Inr NoopMeter, lc)
      else case MakeClientTLS env (GrpcClient mc) lg of
             Inl e \<Rightarrow> (Inl e, lc)
           | Inr (cr, r) \<Rightarrow>
               let lc1 = (case r of None \<Rightarrow> lc | Some rl \<Rightarrow> lc_Append (reloader_hook ops rl) lc)
               in (case newExporter (Endpoint (GrpcClient mc)) cr of
                     Some e \<Rightarrow> (Inl e, lc1)
                   | None \<Rightarrow>
                       let mp = SdkMeter (Endpoint (GrpcClient mc)) cr (otlp_PushInterval mc);
                           h = \<lparr>hook_start = None, hook_stop = Some (\<lambda>w. shutdown mp (info ''Flushing metrics'' w))\<rparr>
                       in (Inr mp, lc_Append h lc1)))"

section \<open>Grouping labels\<close>

text \<open>A range over a map yields each entry once, in some order.\<close>

definition ranges :: "map_order \<Rightarrow> (string \<rightharpoonup> string) \<Rightarrow> bool" where
  "ranges ord m \<longleftrightarrow> distinct (map fst (ord m)) \<and> map_of (ord m) = m"

lemma fold_Grouping:
  assumes "p_error p = None" and "\<forall>k \<in> fst ` set kvs. valid k" and "distinct (map fst kvs)"
  shows "fold (\<lambda>(k, v). Grouping valid k v) kvs p = p\<lparr>p_grouping := p_grouping p ++ map_of kvs\<rparr>"
  using assms
proof (induction kvs arbitrary: p)
  case (Cons kv kvs)
  obtain k v where kv: "kv = (k, v)" by fastforce
  let ?p = "p\<lparr>p_grouping := (p_grouping p)(k \<mapsto> v)\<rparr>"
  have "fold (\<lambda>(k, v). Grouping valid k v) (kv # kvs) p = fold (\<lambda>(k, v). Grouping valid k v) kvs ?p"
    using Cons.prems kv by (simp add: Grouping_def)
  also have "\<dots> = ?p\<lparr>p_grouping := p_grouping ?p ++ map_of kvs\<rparr>" using Cons.prems by (intro Cons.IH) simp_all
  also have "\<dots> = p\<lparr>p_grouping := p_grouping ?p ++ map_of kvs\<rparr>" by simp
  finally have run: "fold (\<lambda>(k, v). Grouping valid k v) (kv # kvs) p = p\<lparr>p_grouping := p_grouping ?p ++ map_of kvs\<rparr>" .
  have "k \<notin> dom (map_of kvs)" using Cons.prems(3) kv by (simp add: dom_map_of_conv_image_fst)
  then have "p_grouping ?p ++ map_of kvs = p_grouping p ++ map_of (kv # kvs)"
    using kv by (auto simp: map_add_def split: option.splits)
  with run show ?case by (simp only:)
qed simp

lemma ranges_dom: "ranges ord m \<Longrightarrow> fst ` set (ord m) = dom m"
  by (metis dom_map_of_conv_image_fst ranges_def)

section \<open>Runs of the pushing goroutine\<close>

definition push_inv :: "push_run \<Rightarrow> bool" where
  "push_inv s \<longleftrightarrow> count_list (pushes s) Final = (if closed s then 1 else 0) \<and> (closed s \<longleftrightarrow> stop s \<noteq> NotStopped)
     \<and> stop s \<noteq> ClosePanic \<and> loop s \<in> {LoopSelecting, LoopPushing, LoopExited} \<and> (loop s = LoopExited \<longrightarrow> closed s)"

lemma push_inv_start: "0 < i \<Longrightarrow> push_inv (push_OnStart i push_idle)"
  by (simp add: push_inv_def push_OnStart_def push_idle_def)

lemma push_inv_step: "push_step s s' \<Longrightarrow> push_inv s \<Longrightarrow> push_inv s'"
  by (induction rule: push_step.induct) (auto simp: push_inv_def push_OnStop_def)

interpretation pushing: kept push_step push_inv
  by unfold_locales (rule push_inv_step)

interpretation push_end: draining push_step "\<lambda>s. push_inv s \<and> closed s" "\<lambda>s. loop s = LoopExited" pushes
  "\<lambda>s. if loop s = LoopPushing then 2 else if loop s = LoopSelecting then 1 else 0"
proof
  show "push_inv s' \<and> closed s'" if "push_inv s \<and> closed s" "push_step s s'" for s s'
    using that push_inv_step by (auto elim!: push_stepE simp: push_OnStop_def)
  fix s
  assume s: "push_inv s \<and> closed s" "loop s \<noteq> LoopExited"
  then consider "loop s = LoopSelecting" | "loop s = LoopPushing" by (auto simp: push_inv_def)
  then show "\<exists>s'. push_step s s' \<and> pushes s' = pushes s
      \<and> (if loop s' = LoopPushing then 2 else if loop s' = LoopSelecting then 1 else 0)
        < (if loop s = LoopPushing then 2 else if loop s = LoopSelecting then 1 else (0 :: nat))"
    using s take_done [of s] push_ok [of s] by cases fastforce+
qed

lemma scan_settings_eq:
  "scan_settings kvs v =
     \<lparr>revision = (case map_of (rev kvs) ''vcs.revision'' of None \<Rightarrow> revision v | Some x \<Rightarrow> x),
      revisionTimestamp = (case map_of (rev kvs) ''vcs.time'' of None \<Rightarrow> revisionTimestamp v | Some x \<Rightarrow> x)\<rparr>"
  by (induction kvs v rule: scan_settings.induct) (auto simp: map_add_def split: option.splits)

section \<open>Properties\<close>

text \<open>
  C25: The pushing goroutine. After a start with a positive interval, in every reachable state the final push of
  \<open>OnStop\<close> has begun exactly once if the lifecycle has stopped the module and not at all before, the
  channel is never closed twice, and no failed push ends the loop: the goroutine runs until it is stopped.
  Once stopped, it can always wind down without pushing again.
\<close>

theorem pusher_final_once:
  assumes "0 < i" and "push_step\<^sup>*\<^sup>* (push_OnStart i push_idle) s"
  shows "count_list (pushes s) Final = (if closed s then 1 else 0)
    \<and> (closed s \<longleftrightarrow> stop s \<noteq> NotStopped) \<and> stop s \<noteq> ClosePanic \<and> loop s \<noteq> LoopPanic
    \<and> (loop s = LoopExited \<longrightarrow> closed s)
    \<and> (closed s \<longrightarrow> (\<exists>s'. push_step\<^sup>*\<^sup>* s s' \<and> loop s' = LoopExited \<and> pushes s' = pushes s))"
  using pushing.kept_steps [OF assms(2) push_inv_start [OF assms(1)]] push_end.drains [of s]
  by (auto simp: push_inv_def)

theorem pusher_final_once_witness:
  "\<exists>s. push_step\<^sup>*\<^sup>* (push_OnStart 15 push_idle) s \<and> closed s \<and> count_list (pushes s) Final = 1"
proof -
  let ?s = "push_OnStop (push_OnStart 15 push_idle)"
  have "push_step (push_OnStart 15 push_idle) ?s" by (rule call_OnStop) (simp add: push_OnStart_def push_idle_def)
  then have run: "push_step\<^sup>*\<^sup>* (push_OnStart 15 push_idle) ?s" by blast
  moreover have "closed ?s" by (simp add: push_OnStop_def push_OnStart_def push_idle_def)
  ultimately show ?thesis using pusher_final_once [OF _ run] by auto
qed

text \<open>The final push need not be the last: a tick that is ready with the closed channel may still be taken.\<close>

lemma push_after_final:
  assumes "0 < i"
  shows "\<exists>s. push_step\<^sup>*\<^sup>* (push_OnStart i push_idle) s \<and> pushes s = [Final, Periodic]"
proof -
  let ?s0 = "push_OnStart i push_idle"
  have "push_step ?s0 (push_OnStop ?s0)" by (rule call_OnStop) (simp add: push_OnStart_def push_idle_def)
  moreover have "push_step (push_OnStop ?s0) ((push_OnStop ?s0)\<lparr>loop := LoopPushing, pushes := pushes (push_OnStop ?s0) @ [Periodic]\<rparr>)"
    using assms by (intro take_tick) (simp add: push_OnStop_def push_OnStart_def push_idle_def)
  ultimately show ?thesis
    by (intro exI [of _ "(push_OnStop ?s0)\<lparr>loop := LoopPushing, pushes := pushes (push_OnStop ?s0) @ [Periodic]\<rparr>"] conjI)
      (auto simp: push_OnStop_def push_OnStart_def push_idle_def)
qed

text \<open>
  The grouping of pushed metrics, whatever the order in which the two label maps are ranged over: the single
  label if its key is set, else the grouping labels, and on top of them the extra labels, which win where
  both name a label. The constructor succeeds exactly if the CA file could be used.
\<close>

theorem pusher_grouping:
  assumes "ranges ord (GroupingLabels m)" and "ranges ord (ExtraLabels m)" and "JobName m \<noteq> []"
    and "\<forall>k \<in> dom (GroupingLabels m) \<union> dom (ExtraLabels m) \<union> {GroupingLabelKey m} - {[]}. valid k"
    and "[] \<notin> dom (GroupingLabels m) \<union> dom (ExtraLabels m)"
  shows "case httpClient env m r of
      Inl e \<Rightarrow> ProvideMetricsPusher env valid ord m r = Inl e
    | Inr cl \<Rightarrow> \<exists>p hk. ProvideMetricsPusher env valid ord m r = Inr (p, hk)
        \<and> p_error p = None \<and> p_job p = JobName m \<and> p_client p = cl
        \<and> p_grouping p = (if GroupingLabelKey m \<noteq> [] then [GroupingLabelKey m \<mapsto> GroupingLabelValue m] else GroupingLabels m)
            ++ ExtraLabels m"
proof (cases "httpClient env m r")
  case (Inl e)
  then show ?thesis by (simp add: ProvideMetricsPusher_def)
next
  case (Inr cl)
  define p0 where "p0 = push_New (push_Endpoint m) (JobName m) cl"
  have p0: "p_error p0 = None" "p_grouping p0 = Map.empty" "p_job p0 = JobName m" "p_client p0 = cl"
    using assms(3) by (simp_all add: p0_def push_New_def)
  have ok: "\<forall>k \<in> fst ` set (ord (GroupingLabels m)). valid k" "\<forall>k \<in> fst ` set (ord (ExtraLabels m)). valid k"
    using assms(4,5) ranges_dom [OF assms(1)] ranges_dom [OF assms(2)] by auto
  define g where "g = (if GroupingLabelKey m \<noteq> [] then [GroupingLabelKey m \<mapsto> GroupingLabelValue m] else GroupingLabels m)"
  define p1 where "p1 = (if GroupingLabelKey m \<noteq> [] then Grouping valid (GroupingLabelKey m) (GroupingLabelValue m) p0
       else fold (\<lambda>(k, v). Grouping valid k v) (ord (GroupingLabels m)) p0)"
  have p1: "p1 = p0\<lparr>p_grouping := g\<rparr>"
  proof (cases "GroupingLabelKey m = []")
    case True
    then show ?thesis using fold_Grouping [OF p0(1) ok(1)] assms(1) p0 by (simp add: p1_def g_def ranges_def)
  next
    case False
    then have "valid (GroupingLabelKey m)" using assms(4) by blast
    with False p0 show ?thesis by (simp add: p1_def g_def Grouping_def)
  qed
  then have "fold (\<lambda>(k, v). Grouping valid k v) (ord (ExtraLabels m)) p1 = p0\<lparr>p_grouping := g ++ ExtraLabels m\<rparr>"
    using fold_Grouping [of p1, OF _ ok(2)] assms(2) p0 by (simp add: ranges_def)
  then show ?thesis using Inr p0 by (simp add: ProvideMetricsPusher_def p0_def [symmetric] p1_def [symmetric] g_def Let_def)
qed

definition two_labels :: PushMetrics where
  "two_labels = \<lparr>push_Insecure = False, push_CertFile = [], push_KeyFile = [], push_RootCAFile = [], push_Histograms = False,
     push_ProcessName = [], push_Endpoint = ''http://push:9091'', JobName = ''backup'', GroupingLabelKey = [], GroupingLabelValue = [],
     GroupingLabels = [''zone'' \<mapsto> ''a'', ''host'' \<mapsto> ''h1''], PushInterval = 0, ExtraLabels = [''host'' \<mapsto> ''h2'']\<rparr>"

definition two_order :: map_order where
  "two_order m = (case m ''zone'' of None \<Rightarrow> [] | Some v \<Rightarrow> [(''zone'', v)]) @ (case m ''host'' of None \<Rightarrow> [] | Some v \<Rightarrow> [(''host'', v)])"

theorem pusher_grouping_witness:
  "\<exists>p hk. ProvideMetricsPusher plain_env (\<lambda>_. True) two_order two_labels None = Inr (p, hk)
    \<and> p_grouping p = [''zone'' \<mapsto> ''a'', ''host'' \<mapsto> ''h2'']"
proof -
  have r: "ranges two_order (GroupingLabels two_labels)" "ranges two_order (ExtraLabels two_labels)"
    by (auto simp: ranges_def two_order_def two_labels_def fun_eq_iff)
  have "JobName two_labels \<noteq> []" "[] \<notin> dom (GroupingLabels two_labels) \<union> dom (ExtraLabels two_labels)"
    by (simp_all add: two_labels_def)
  from pusher_grouping [OF r this(1) _ this(2), of "\<lambda>_. True" plain_env None] show ?thesis
    by (auto simp: two_labels_def httpClient_def fun_eq_iff)
qed

text \<open>
  The version metric. A revision set at link time fixes both labels as they are; otherwise each label is the
  last value of its key in the build settings, also over a timestamp set at link time, and stays as it
  was where the key is missing. A second collector has the same labels.
\<close>

theorem version_collector_labels:
  assumes "NewVersionCollector (Some settings) v = (c, v1)"
  shows "c = VersionCollector (revision v1) (revisionTimestamp v1)
    \<and> v1 = (if revision v \<noteq> ''unknown'' then v
            else \<lparr>revision = (case map_of (rev settings) ''vcs.revision'' of None \<Rightarrow> revision v | Some x \<Rightarrow> x),
                  revisionTimestamp = (case map_of (rev settings) ''vcs.time'' of None \<Rightarrow> revisionTimestamp v | Some x \<Rightarrow> x)\<rparr>)
    \<and> NewVersionCollector (Some settings) v1 = (c, v1)"
  using assms by (auto simp: NewVersionCollector_def Let_def scan_settings_eq split: option.splits if_splits)

theorem version_collector_labels_witness:
  "snd (NewVersionCollector (Some [(''vcs.revision'', ''abc''), (''vcs.time'', ''2024'')])
      \<lparr>revision = ''unknown'', revisionTimestamp = ''linked''\<rparr>) = \<lparr>revision = ''abc'', revisionTimestamp = ''2024''\<rparr>
    \<and> snd (NewVersionCollector (Some [(''vcs.revision'', ''abc''), (''vcs.time'', ''2024'')])
      \<lparr>revision = ''v1'', revisionTimestamp = ''unknown''\<rparr>) = \<lparr>revision = ''v1'', revisionTimestamp = ''unknown''\<rparr>"
  using version_collector_labels [OF surjective_pairing,
      of "[(''vcs.revision'', ''abc''), (''vcs.time'', ''2024'')]" "\<lparr>revision = ''unknown'', revisionTimestamp = ''linked''\<rparr>"]
    version_collector_labels [OF surjective_pairing,
      of "[(''vcs.revision'', ''abc''), (''vcs.time'', ''2024'')]" "\<lparr>revision = ''v1'', revisionTimestamp = ''unknown''\<rparr>"]
  by simp

end
