(* ===== verification/Tracing.thy ===== *)
theory Tracing
  imports Metrics
begin

text \<open>
  Three modules that hook into the lifecycle: tracing (src/fxtracing/tracing.go), error reporting
  (src/fxsentry/sentry.go) and profiling (src/fxpprof/pprof.go). The OpenTelemetry SDK, the Sentry client and
  the profiler are parameters; the hooks are run by the lifecycle of theory Lifecycle.
\<close>

section \<open>tracing.go\<close>

record Tracing =
  trace_Enabled :: bool
  trace_Insecure :: bool
  trace_CertFile :: string
  trace_KeyFile :: string
  trace_RootCAFile :: string
  trace_Endpoint :: string

definition trace_GrpcClientConfig :: "Tracing \<Rightarrow> Client" where
  "trace_GrpcClientConfig t =
     \<lparr>InsecureConnection = trace_Insecure t, Client_CertFile = trace_CertFile t, Client_KeyFile = trace_KeyFile t,
      RootCAFile = trace_RootCAFile t, Endpoint = trace_Endpoint t\<rparr>"

definition trace_MarshalLogObject :: "Tracing option \<Rightarrow> field list" where
  "trace_MarshalLogObject to =
     (case to of
        None \<Rightarrow> []
      | Some t \<Rightarrow> [Bool ''enabled'' (trace_Enabled t)] @
          (if trace_Enabled t
           then [String ''endpoint'' (trace_Endpoint t), Bool ''insecure-connection'' (trace_Insecure t)] @
                (if \<not> trace_Insecure t
                 then [String ''cert-file'' (trace_CertFile t), String ''key-file'' (trace_KeyFile t),
                       String ''root-ca-file'' (trace_RootCAFile t)]
                 else [])
           else []))"

datatype ('c, 'p) tracer_provider =
    NoopTracer
  | StdoutTracer
  | OtlpTracer string "('c, 'p) creds option"

record ('c, 'p, 'w) trace_ops =
  stdouttrace_New :: "go_error option"
  tp_Shutdown :: "('c, 'p) tracer_provider \<Rightarrow> 'w action"
  exporter_Start :: "'w action"
  exporter_Shutdown :: "'w action"

definition exporter_hook :: "('c, 'p, 'w) trace_ops \<Rightarrow> ('c, 'p) tracer_provider \<Rightarrow> 'w hook" where
  "exporter_hook tops tp =
     \<lparr>hook_start = Some (exporter_Start tops),
      hook_stop = Some (\<lambda>w. case tp_Shutdown tops tp w of
                              (Some e, w1) \<Rightarrow> (Some e, w1)
                            | (None, w1) \<Rightarrow> exporter_Shutdown tops w1)\<rparr>"

definition NewTracerProvider ::
  "('c, 'p) tls_env \<Rightarrow> ('c, 'w) reloader_ops \<Rightarrow> ('c, 'p, 'w) trace_ops \<Rightarrow> Tracing \<Rightarrow> logger \<Rightarrow> 'w lifecycle \<Rightarrow>
   ('c, 'p) tracer_provider result \<times> 'w lifecycle" where
  "NewTracerProvider env rops tops t lg lc =
     (if \<not> trace_Enabled t then (Inr NoopTracer, lc)
      else if trace_Endpoint t = []
      then (case stdouttrace_New tops of
              Some e \<Rightarrow> (Inl e, lc)
            | None \<Rightarrow> (Inr StdoutTracer,
                       lc_Append \<lparr>hook_start = None, hook_stop = Some (tp_Shutdown tops StdoutTracer)\<rparr> lc))
      else case MakeClientTLS env (trace_GrpcClientConfig t) lg of
             Inl e \<Rightarrow> (Inl e, lc)
           | Inr (cr, r) \<Rightarrow>
               let lc1 = (case r of None \<Rightarrow> lc | Some rl \<Rightarrow> lc_Append (reloader_hook rops rl) lc);
                   tp = OtlpTracer (trace_Endpoint t) cr
               in (Inr tp, lc_Append (exporter_hook tops tp) lc1))"

definition tracing_Weight :: uint64 where
  "tracing_Weight = 30"

text \<open>The interceptors of otelgrpc, for a provider; baggage and trace context are propagated.\<close>

definition trace_NewGrpcServerInterceptors ::
  "('tp \<Rightarrow> 'u) \<Rightarrow> ('tp \<Rightarrow> 's) \<Rightarrow> 'tp \<Rightarrow> ('u weighted \<times> 's weighted) result" where
  "trace_NewGrpcServerInterceptors unary stream tp =
     Inr (\<lparr>Weight = tracing_Weight, Interceptor = unary tp\<rparr>, \<lparr>Weight = tracing_Weight, Interceptor = stream tp\<rparr>)"

definition trace_NewGrpcClientInterceptors ::
  "('tp \<Rightarrow> 'u) \<Rightarrow> ('tp \<Rightarrow> 's) \<Rightarrow> 'tp \<Rightarrow> ('u weighted \<times> 's weighted) result" where
  "trace_NewGrpcClientInterceptors unary stream tp =
     Inr (\<lparr>Weight = tracing_Weight, Interceptor = unary tp\<rparr>, \<lparr>Weight = tracing_Weight, Interceptor = stream tp\<rparr>)"

section \<open>sentry.go\<close>

record Sentry =
  Dsn :: string
  Environment :: string
  Debug :: bool
  Process :: string

definition sentry_MarshalLogObject :: "Sentry option \<Rightarrow> field list" where
  "sentry_MarshalLogObject so =
     (case so of
        None \<Rightarrow> []
      | Some s \<Rightarrow> [String ''dsn'' (Dsn s), String ''environment'' (Environment s), Bool ''debug'' (Debug s),
                   String ''process'' (Process s)])"

record ClientOptions =
  opt_Dsn :: string
  ServerName :: string
  opt_Environment :: string
  Release :: string
  opt_Debug :: bool
  AttachStacktrace :: bool

text \<open>The loop with \<open>break\<close>: the first setting of that key.\<close>

fun sentry_revision :: "(string \<times> string) list \<Rightarrow> string \<Rightarrow> string" where
  "sentry_revision [] version = version"
| "sentry_revision ((k, x) # kvs) version = (if k = ''vcs.revision'' then x else sentry_revision kvs version)"

definition process_tag :: "string result \<Rightarrow> Sentry \<Rightarrow> (string \<rightharpoonup> string) \<Rightarrow> string \<rightharpoonup> string" where
  "process_tag exe s tags =
     (let procName = (if Process s = []
                      then (case exe of Inr p \<Rightarrow> if p \<noteq> [] then path_Base p else [] | Inl _ \<Rightarrow> [])
                      else Process s)
      in if procName \<noteq> [] then tags(''process'' \<mapsto> path_Base procName) else tags)"

text \<open>The result is the client, which may be nil, and the tags of the top level scope.\<close>

definition NewSentryClient ::
  "(ClientOptions \<Rightarrow> 'cl option result) \<Rightarrow> string result \<Rightarrow> (string \<times> string) list option \<Rightarrow> string result \<Rightarrow>
   Sentry \<Rightarrow> (string \<rightharpoonup> string) \<Rightarrow> 'cl option result \<times> (string \<rightharpoonup> string)" where
  "NewSentryClient newClient hostname buildInfo exe s tags =
     (let host = (case hostname of Inl _ \<Rightarrow> [] | Inr h \<Rightarrow> h);
          version = (case buildInfo of None \<Rightarrow> ''undefined'' | Some kvs \<Rightarrow> sentry_revision kvs ''undefined'');
          opts = \<lparr>opt_Dsn = Dsn s, ServerName = host, opt_Environment = Environment s, Release = version,
                  opt_Debug = Debug s, AttachStacktrace = True\<rparr>
      in (newClient opts, process_tag exe s tags))"

definition ProvideSentryClient ::
  "('cl option result) \<Rightarrow> ('cl \<Rightarrow> int \<Rightarrow> 'w \<Rightarrow> 'w) \<Rightarrow> 'w lifecycle \<Rightarrow> 'cl option result \<times> 'w lifecycle" where
  "ProvideSentryClient client flush lc =
     (case client of
        Inl e \<Rightarrow> (Inl e, lc)
      | Inr None \<Rightarrow> (Inr None, lc)
      | Inr (Some cl) \<Rightarrow>
          (Inr (Some cl), lc_Append \<lparr>hook_start = None, hook_stop = Some (\<lambda>w. (None, flush cl (2 * 1000000000) w))\<rparr> lc))"

text \<open>The decorated logger also hands an entry to Sentry's core, which takes it from its level on.\<close>

definition ProvideSentryLogger :: "'core result \<Rightarrow> (level \<Rightarrow> bool) \<Rightarrow> level \<Rightarrow> bool \<times> bool" where
  "ProvideSentryLogger core enabled l =
     (enabled l, case core of Inl _ \<Rightarrow> False | Inr _ \<Rightarrow> DPanicLevel \<le> l)"

section \<open>pprof.go\<close>

record Pprof =
  GenerateFiles :: string
  pprof_Enabled :: bool
  pprof_Server :: Server

definition pprof_ApplyDefaults :: "Pprof \<Rightarrow> Pprof" where
  "pprof_ApplyDefaults p = p\<lparr>pprof_Server := (pprof_Server p)\<lparr>Address := '':9092''\<rparr>\<rparr>"

definition pprof_MarshalLogObject :: "Pprof option \<Rightarrow> field list" where
  "pprof_MarshalLogObject po =
     (case po of
        None \<Rightarrow> []
      | Some p \<Rightarrow> [String ''generatefiles'' (GenerateFiles p), Bool ''enabled'' (pprof_Enabled p)] @
          (if pprof_Enabled p then [Object ''server'' (server_MarshalLogObject (Some (pprof_Server p)))] else []))"

text \<open>The world of the profiler: the files that are open, and whether the CPU is being profiled.\<close>

record profiler =
  open_files :: "string list"
  profiling :: bool

record profiler_ops =
  os_Create :: "string \<Rightarrow> go_error option"
  StartCPUProfile :: "profiler \<Rightarrow> go_error option"
  WriteHeapProfile :: "profiler \<Rightarrow> go_error option"

definition create_file :: "profiler_ops \<Rightarrow> string \<Rightarrow> profiler \<Rightarrow> go_error option \<times> profiler" where
  "create_file ops f w = (case os_Create ops f of Some e \<Rightarrow> (Some e, w) | None \<Rightarrow> (None, w\<lparr>open_files := f # open_files w\<rparr>))"

definition close_file :: "string \<Rightarrow> profiler \<Rightarrow> profiler" where
  "close_file f w = w\<lparr>open_files := remove1 f (open_files w)\<rparr>"

definition runtime_hook :: "profiler_ops \<Rightarrow> string \<Rightarrow> string \<Rightarrow> profiler hook" where
  "runtime_hook ops cpu mem =
     \<lparr>hook_start = Some (\<lambda>w. case StartCPUProfile ops w of Some e \<Rightarrow> (Some e, w) | None \<Rightarrow> (None, w\<lparr>profiling := True\<rparr>)),
      hook_stop = Some (\<lambda>w. let w1 = w\<lparr>profiling := False\<rparr>
                            in (WriteHeapProfile ops w1, close_file mem (close_file cpu w1)))\<rparr>"

definition InvokeRuntimePprof ::
  "profiler_ops \<Rightarrow> Pprof \<Rightarrow> profiler lifecycle \<Rightarrow> profiler \<Rightarrow> go_error option \<times> profiler lifecycle \<times> profiler" where
  "InvokeRuntimePprof ops p lc w =
     (let cpu = filepath_Join (GenerateFiles p) ''pprof.cpu''; mem = filepath_Join (GenerateFiles p) ''pprof.mem''
      in case create_file ops cpu w of
           (Some e, w1) \<Rightarrow> (Some e, lc, w1)
         | (None, w1) \<Rightarrow>
             (case create_file ops mem w1 of
                (Some e, w2) \<Rightarrow> (Some e, lc, close_file cpu w2)
              | (None, w2) \<Rightarrow> (None, lc_Append (runtime_hook ops cpu mem) lc, w2)))"

definition InitPprofProfiler :: "(string \<times> string) list" where
  "InitPprofProfiler =
     [(''/debug/pprof/'', ''Index''), (''/debug/pprof/cmdline'', ''Cmdline''), (''/debug/pprof/profile'', ''Profile''),
      (''/debug/pprof/symbol'', ''Symbol''), (''/debug/pprof/trace'', ''Trace'')]"

section \<open>Lifecycles of two hooks\<close>

text \<open>
  A reloader in front of a client of it: if the client does not start, the reloader is stopped again; on stop
  the client goes first.
\<close>

lemma two_hooks:
  assumes "hooks lc = [reloader_hook rops r, h]" and "app_state lc = AppStopped" and "hook_stop h = Some stp"
    and "hook_start h = Some go"
  shows "case reloader_Start rops r w of
      (Some e, w1) \<Rightarrow> \<exists>lc'. app_Start never lc w = ([e], lc', w1)
    | (None, w1) \<Rightarrow> (case go w1 of
        (Some e, w2) \<Rightarrow> \<exists>errs lc'. app_Start never lc w = (e # errs, lc', snd (reloader_Stop rops r w2))
      | (None, w2) \<Rightarrow> \<exists>lc'. app_Start never lc w = ([], lc', w2)
          \<and> (\<forall>w3. snd (snd (lc_Stop never lc' w3)) = snd (reloader_Stop rops r (snd (stp w3)))))"
proof (cases "reloader_Start rops r w")
  case (Pair o1 w1)
  show ?thesis
  proof (cases o1)
    case None
    obtain o2 w2 where go: "go w1 = (o2, w2)" by fastforce
    with Pair None assms show ?thesis
      by (cases o2) (auto simp: app_Start_def lc_Start_def lc_Stop_def reloader_hook_def stop_loop_never
          split: option.splits prod.splits)
  next
    case (Some e)
    with Pair assms show ?thesis by (simp add: app_Start_def lc_Start_def lc_Stop_def reloader_hook_def)
  qed
qed

section \<open>Properties\<close>


definition traced :: Tracing where
  "traced = \<lparr>trace_Enabled = True, trace_Insecure = False, trace_CertFile = ''tls.crt'', trace_KeyFile = ''tls.key'',
     trace_RootCAFile = [], trace_Endpoint = ''otel:4317''\<rparr>"

text \<open>A world that records what happens, with an exporter that does not start.\<close>

definition record_reloader :: "(nat, string list) reloader_ops" where
  "record_reloader = \<lparr>reloader_Start = (\<lambda>_ w. (None, w @ [''reloader start''])), reloader_Stop = (\<lambda>_ w. (None, w @ [''reloader stop'']))\<rparr>"

definition record_trace :: "(nat, string, string list) trace_ops" where
  "record_trace = \<lparr>stdouttrace_New = None, tp_Shutdown = (\<lambda>_ w. (None, w)), exporter_Start = (\<lambda>w. (Some (ErrNew ''refused''), w)),
     exporter_Shutdown = (\<lambda>w. (None, w))\<rparr>"


text \<open>
  C37: Profiling into files leaks no file: an error of \<open>InvokeRuntimePprof\<close> leaves no hook and no file open, and
  after a start and a stop both files are closed and profiling has ended, even if the heap profile could not be
  written. Only when the CPU profile does not start do the two files stay open.
\<close>

theorem pprof_files_closed:
  assumes "InvokeRuntimePprof ops p new_lifecycle w = (err, lc, w1)"
  shows "(err \<noteq> None \<longrightarrow> lc = new_lifecycle \<and> w1 = w)
    \<and> (err = None \<longrightarrow>
        (case StartCPUProfile ops w1 of
           None \<Rightarrow> \<exists>lc' w2. app_Start never lc w1 = ([], lc', w2) \<and> profiling w2
             \<and> snd (snd (lc_Stop never lc' w2)) = w\<lparr>profiling := False\<rparr>
         | Some e \<Rightarrow> \<exists>lc'. app_Start never lc w1 = ([e], lc', w1)
             \<and> length (open_files w1) = length (open_files w) + 2))"
proof -
  let ?cpu = "filepath_Join (GenerateFiles p) ''pprof.cpu''" and ?mem = "filepath_Join (GenerateFiles p) ''pprof.mem''"
  show ?thesis
  proof (cases "os_Create ops ?cpu = None \<and> os_Create ops ?mem = None")
    case True
    then have *: "err = None" "w1 = w\<lparr>open_files := ?mem # ?cpu # open_files w\<rparr>"
      "lc = lc_Append (runtime_hook ops ?cpu ?mem) new_lifecycle"
      using assms by (auto simp: InvokeRuntimePprof_def create_file_def Let_def)
    have close: "remove1 ?mem (remove1 ?cpu (?mem # ?cpu # fs)) = fs" for fs by (cases "?cpu = ?mem") auto
    show ?thesis
    proof (cases "StartCPUProfile ops w1")
      case None
      with * close show ?thesis
        by (simp add: app_Start_def lc_Start_def lc_Stop_def lc_Append_def new_lifecycle_def runtime_hook_def Let_def close_file_def
            split: option.splits prod.splits)
    next
      case (Some e)
      with * show ?thesis
        by (simp add: app_Start_def lc_Start_def lc_Stop_def lc_Append_def new_lifecycle_def runtime_hook_def)
    qed
  next
    case False
    then have "err \<noteq> None" "lc = new_lifecycle" "w1 = w" using assms
      by (auto simp: InvokeRuntimePprof_def create_file_def close_file_def Let_def split: option.splits dest: sym)
    then show ?thesis by blast
  qed
qed

definition quiet_profiler :: profiler_ops where
  "quiet_profiler = \<lparr>os_Create = (\<lambda>_. None), StartCPUProfile = (\<lambda>_. None), WriteHeapProfile = (\<lambda>_. Some (ErrNew ''disk full''))\<rparr>"

definition dump_files :: Pprof where
  "dump_files = \<lparr>GenerateFiles = ''/tmp'', pprof_Enabled = False, pprof_Server = no_server\<rparr>"

theorem pprof_files_closed_witness:
  "\<exists>lc w1 lc' w2. InvokeRuntimePprof quiet_profiler dump_files new_lifecycle \<lparr>open_files = [], profiling = False\<rparr> = (None, lc, w1)
    \<and> app_Start never lc w1 = ([], lc', w2) \<and> snd (snd (lc_Stop never lc' w2)) = \<lparr>open_files = [], profiling = False\<rparr>"
proof -
  obtain lc w1 where inv: "InvokeRuntimePprof quiet_profiler dump_files new_lifecycle \<lparr>open_files = [], profiling = False\<rparr> = (None, lc, w1)"
    by (auto simp: InvokeRuntimePprof_def create_file_def quiet_profiler_def Let_def)
  from pprof_files_closed [OF inv] obtain lc' w2 where
    "app_Start never lc w1 = ([], lc', w2)" "snd (snd (lc_Stop never lc' w2)) = \<lparr>open_files = [], profiling = False\<rparr>"
    by (auto simp: quiet_profiler_def)
  with inv show ?thesis by blast
qed

end
