(* ===== verification/SentryMain.thy ===== *)
theory SentryMain
  imports Mains Tracing
begin

text \<open>
  The program that tries the Sentry module out (src/fxsentry/main/main.go): it captures an event while it is put together, asks
  for its own shutdown before it has started, and relies on the hook of \<open>ProvideSentryClient\<close> to deliver the event. The
  Sentry client is a parameter: what \<open>CaptureEvent\<close> and \<open>Flush\<close> do to its state, and the steps of its transport.
\<close>

section \<open>main.go\<close>

record Event =
  Message :: string
  Timestamp :: int
  Level :: string

definition NewEvent :: Event where
  "NewEvent = \<lparr>Message = [], Timestamp = 0, Level = []\<rparr>"

record ('cl, 'x) sentry_env =
  newClient :: "ClientOptions \<Rightarrow> 'cl option result"
  CaptureEvent :: "'cl \<Rightarrow> Event \<Rightarrow> 'x \<Rightarrow> 'x"
  Flush :: "'cl \<Rightarrow> int \<Rightarrow> 'x \<Rightarrow> 'x"
  transport :: "'x \<Rightarrow> 'x \<Rightarrow> bool"
  hostname :: "string result"
  buildInfo :: "(string \<times> string) list option"
  executable :: "string result"
  now :: int

text \<open>The state of the client and the exit code of the last shutdown signal, which fx keeps for whoever waits later.\<close>

record 'x sentry_run =
  client_state :: 'x
  last_signal :: "int option"

definition testClient :: "('cl, 'x) sentry_env \<Rightarrow> 'cl option \<Rightarrow> 'x sentry_run \<Rightarrow> 'x sentry_run outcome" where
  "testClient env client w =
     (let event = NewEvent\<lparr>Message := ''My sentry'', Timestamp := now env, Level := ''info''\<rparr>
      in case client of
           None \<Rightarrow> Panic nil_dereference
         | Some cl \<Rightarrow> Ret (w\<lparr>client_state := CaptureEvent env cl event (client_state w)\<rparr>))"

definition shutdown :: "'x sentry_run \<Rightarrow> 'x sentry_run" where
  "shutdown w = w\<lparr>last_signal := Some 0\<rparr>"

definition sentry_args :: "string list" where
  "sentry_args = [''sentry-test'', ''--logging.mode'', ''production'']"

definition sentry_client :: "('cl, 'x) sentry_env \<Rightarrow> Sentry \<Rightarrow> 'cl option result" where
  "sentry_client env sc = fst (NewSentryClient (newClient env) (hostname env) (buildInfo env) (executable env) sc Map.empty)"

definition flush_client :: "('cl, 'x) sentry_env \<Rightarrow> 'cl \<Rightarrow> int \<Rightarrow> 'x sentry_run \<Rightarrow> 'x sentry_run" where
  "flush_client env cl timeout w = w\<lparr>client_state := Flush env cl timeout (client_state w)\<rparr>"

text \<open>\<open>fx.New\<close> runs the two invocations in order; the first one has the client built.\<close>

definition sentry_build ::
  "('cl, 'x) sentry_env \<Rightarrow> ('s \<Rightarrow> Sentry) \<Rightarrow> 'x sentry_run hook list \<Rightarrow> 's \<Rightarrow> 'x sentry_run \<Rightarrow>
   ('x sentry_run lifecycle \<times> 'x sentry_run) result outcome" where
  "sentry_build env sentry_conf others c w =
     (case ProvideSentryClient (sentry_client env (sentry_conf c)) (flush_client env) (fold lc_Append others new_lifecycle) of
        (Inl e, lc) \<Rightarrow> Ret (Inl e)
      | (Inr client, lc) \<Rightarrow>
          (case testClient env client w of
             Panic p \<Rightarrow> Panic p
           | Ret w1 \<Rightarrow> Ret (Inr (lc, shutdown w1))))"

definition transporting :: "('cl, 'x) sentry_env \<Rightarrow> 'x sentry_run \<Rightarrow> 'x sentry_run \<Rightarrow> bool" where
  "transporting env w w' \<longleftrightarrow> (\<exists>x. transport env (client_state w) x \<and> w' = w\<lparr>client_state := x\<rparr>)"

definition sentry_main where
  "sentry_main E conf0 env sentry_conf others timely w =
     example_main E conf0 sentry_args (\<lambda>e. Panicking (Error e)) (sentry_build env sentry_conf others)
       (app_run timely (transporting env) (\<lambda>w exitCode. last_signal w = Some exitCode) (\<lambda>_. None)) w"

section \<open>The event is flushed\<close>

lemma transporting_keeps: "(transporting env)\<^sup>*\<^sup>* w w' \<Longrightarrow>
    last_signal w' = last_signal w \<and> (transport env)\<^sup>*\<^sup>* (client_state w) (client_state w')"
  by (induction rule: rtranclp_induct) (auto simp: transporting_def intro: rtranclp.rtrancl_into_rtrancl)

lemma sentry_lifecycle:
  assumes "list_all quiet others" and "sentry_build env sentry_conf others c w = Ret (Inr (lc, w1))"
  obtains cl lc1 where "sentry_client env (sentry_conf c) = Inr (Some cl)"
    and "w1 = \<lparr>client_state = CaptureEvent env cl \<lparr>Message = ''My sentry'', Timestamp = now env, Level = ''info''\<rparr> (client_state w),
               last_signal = Some 0\<rparr>"
    and "app_Start never lc w1 = ([], lc1, w1)"
    and "\<And>t. \<exists>lc2. lc_Stop never lc1 t = ([], lc2, flush_client env cl (2 * 1000000000) t)"
proof -
  obtain cl where cl: "sentry_client env (sentry_conf c) = Inr (Some cl)"
    using assms(2) by (auto simp: sentry_build_def ProvideSentryClient_def testClient_def split: sum.splits option.splits)
  then have "w1 = \<lparr>client_state = CaptureEvent env cl \<lparr>Message = ''My sentry'', Timestamp = now env, Level = ''info''\<rparr> (client_state w),
               last_signal = Some 0\<rparr>"
    "lc = lc_Append \<lparr>hook_start = None, hook_stop = Some (\<lambda>w. (None, flush_client env cl (2 * 1000000000) w))\<rparr>
            (new_lifecycle\<lparr>hooks := others\<rparr>)"
    using assms(2) by (auto simp: sentry_build_def ProvideSentryClient_def testClient_def NewEvent_def shutdown_def new_lifecycle_def)
  with cl assms(1) show ?thesis
    by (intro that [of cl "lc\<lparr>numStarted := Suc (length others), app_state := AppStarted\<rparr>"])
      (auto simp: lc_Append_def new_lifecycle_def app_Start_def lc_Start_def lc_Stop_def start_quiet
          stop_quiet [where rest = "[]", simplified])
qed

text \<open>
  A configuration that loads and a client that is built lead to exit code 0 and to the event being captured and then flushed, for at
  most two seconds, before the program ends; only a deadline of fx can come in between. An error of the
  configuration is a panic, an error of the client exit code 1.
\<close>

theorem sentry_event_flushed:
  assumes "list_all quiet others"
  shows "(\<forall>r w'. sentry_main E conf0 env sentry_conf others True w r w' \<longrightarrow>
      (case Load E conf0 sentry_args [] of
         load_outcome.Exited out \<Rightarrow> r = ExitCode 0 \<and> w' = w
       | Panicked p \<Rightarrow> r = Panicking p \<and> w' = w
       | Returned c (Some e) \<Rightarrow> r = Panicking (Error e) \<and> w' = w
       | Returned c None \<Rightarrow>
           (case sentry_client env (sentry_conf c) of
              Inl e \<Rightarrow> r = ExitCode 1 \<and> w' = w
            | Inr None \<Rightarrow> r = Panicking nil_dereference \<and> w' = w
            | Inr (Some cl) \<Rightarrow> r = ExitCode 0
                \<and> (\<exists>x. (transport env)\<^sup>*\<^sup>*
                         (CaptureEvent env cl \<lparr>Message = ''My sentry'', Timestamp = now env, Level = ''info''\<rparr> (client_state w)) x
                     \<and> client_state w' = Flush env cl 2000000000 x))))
    \<and> (\<exists>r w'. sentry_main E conf0 env sentry_conf others True w r w')"
    (is "(\<forall>r w'. _ \<longrightarrow> ?ends r w') \<and> _")
proof (intro conjI allI impI)
  fix r w'
  assume main: "sentry_main E conf0 env sentry_conf others True w r w'"
  from main show "?ends r w'" unfolding sentry_main_def
  proof (cases rule: example_main.cases)
    case (runs_app c lc w1 exitCode)
    obtain cl lc1 where cl: "sentry_client env (sentry_conf c) = Inr (Some cl)"
      and w1: "w1 = \<lparr>client_state = CaptureEvent env cl \<lparr>Message = ''My sentry'', Timestamp = now env, Level = ''info''\<rparr> (client_state w),
               last_signal = Some 0\<rparr>"
      and start: "app_Start never lc w1 = ([], lc1, w1)"
      and stop: "\<And>t. \<exists>lc2. lc_Stop never lc1 t = ([], lc2, flush_client env cl (2 * 1000000000) t)"
      by (rule sentry_lifecycle [OF assms runs_app(3)]) blast
    from runs_app(4) obtain t where "exitCode = 0" "(transporting env)\<^sup>*\<^sup>* w1 t" "w' = flush_client env cl (2 * 1000000000) t"
    proof (cases rule: app_run.cases)
      case (signalled lc1' w1' t code errs lc2)
      then have t: "(transporting env)\<^sup>*\<^sup>* w1 t" "lc_Stop never lc1 t = (errs, lc2, w')" using start by simp_all
      with stop [of t] transporting_keeps [OF t(1)] w1 signalled that show ?thesis by auto
    qed (use start in auto)
    with transporting_keeps [of env w1 t] w1 runs_app(1,2) cl show ?thesis
      by (auto simp: flush_client_def intro!: exI [of _ "client_state t"])
  qed (auto simp: sentry_build_def ProvideSentryClient_def testClient_def split: sum.splits option.splits)
next
  show "\<exists>r w'. sentry_main E conf0 env sentry_conf others True w r w'" unfolding sentry_main_def
  proof (rule example_main_exists)
    fix c lc w1
    assume "sentry_build env sentry_conf others c w = Ret (Inr (lc, w1))"
    from sentry_lifecycle [OF assms this] obtain cl lc1 where "last_signal w1 = Some 0" "app_Start never lc w1 = ([], lc1, w1)"
      "\<And>t. \<exists>lc2. lc_Stop never lc1 t = ([], lc2, flush_client env cl (2 * 1000000000) t)" by (metis sentry_run.select_convs(2))
    then show "\<exists>exitCode w'. app_run True (transporting env) (\<lambda>w exitCode. last_signal w = Some exitCode) (\<lambda>_. None) lc w1 exitCode w'"
      using signalled [of lc w1 lc1 w1 "transporting env" w1 "\<lambda>_. None" "\<lambda>w exitCode. last_signal w = Some exitCode" 0] by blast
  qed
qed

end
