(* ===== verification/LoggingSetup.thy ===== *)
theory LoggingSetup
  imports LoggingStreams Lifecycle
begin

text \<open>
  The logging module around the interceptors: the zap configuration of each mode, the life of the logger
  and the constructors of the weighted interceptors (src/fxlogging/logging.go), the options of the fx event
  logger (src/fxlogging/fxlogger), the logger of the gRPC framework (src/fxlogging/grpc/zapgrpc.go) and the
  request logger of HTTP servers (src/fxlogging/interceptor/http.go).
\<close>

section \<open>logging.go\<close>

record zap_config =
  zap_Level :: level
  zap_Development :: bool
  zap_Sampling :: "(nat \<times> nat) option"
  zap_Encoding :: string
  EncodeTimeUTC :: bool
  OutputPaths :: "string list"
  ErrorOutputPaths :: "string list"

text \<open>The two presets of zap (src/vendor/go.uber.org/zap/config.go).\<close>

definition NewProductionConfig :: zap_config where
  "NewProductionConfig =
     \<lparr>zap_Level = InfoLevel, zap_Development = False, zap_Sampling = Some (100, 100), zap_Encoding = ''json'',
      EncodeTimeUTC = False, OutputPaths = [''stderr''], ErrorOutputPaths = [''stderr'']\<rparr>"

definition NewDevelopmentConfig :: zap_config where
  "NewDevelopmentConfig =
     \<lparr>zap_Level = DebugLevel, zap_Development = True, zap_Sampling = None, zap_Encoding = ''console'',
      EncodeTimeUTC = False, OutputPaths = [''stderr''], ErrorOutputPaths = [''stderr'']\<rparr>"

record Logging =
  Mode :: string

definition logging_MarshalLogObject :: "Logging option \<Rightarrow> field list" where
  "logging_MarshalLogObject l = (case l of None \<Rightarrow> [] | Some c \<Rightarrow> [String ''mode'' (Mode c)])"

definition mode_config :: "string \<Rightarrow> zap_config" where
  "mode_config m =
     (let config = (if m = ''production'' then NewProductionConfig\<lparr>EncodeTimeUTC := True\<rparr>
                    else if m = ''preproduction''
                    then NewProductionConfig\<lparr>zap_Sampling := None, zap_Level := DebugLevel, EncodeTimeUTC := True\<rparr>
                    else NewDevelopmentConfig)
      in config\<lparr>OutputPaths := [''stdout''], ErrorOutputPaths := [''stdout'']\<rparr>)"

text \<open>
  \<open>Build\<close> and \<open>Sync\<close> are zap's; \<open>shown\<close> is the rendering of the configuration, which may change between
  construction and start. The hook is appended to the lifecycle.
\<close>

definition NewLogger ::
  "(zap_config \<Rightarrow> logger result) \<Rightarrow> ('x world action) \<Rightarrow> ('x world \<Rightarrow> field list) \<Rightarrow> Logging \<Rightarrow>
   'x world lifecycle \<Rightarrow> 'x world \<Rightarrow> logger result \<times> 'x world lifecycle \<times> 'x world" where
  "NewLogger build sync shown conf lc w =
     (case build (mode_config (Mode conf)) of
        Inl e \<Rightarrow> (Inl e, lc, w)
      | Inr lg \<Rightarrow>
          let w1 = write_log (log_at InfoLevel lg ''Using configuration'' [Object ''conf'' (shown w)]) w;
              h = \<lparr>hook_start = Some (\<lambda>w. (None, write_log (log_at InfoLevel lg ''Final configuration''
                                               [Object ''conf'' (shown w)]) w)),
                   hook_stop = Some (\<lambda>w. (None, snd (sync w)))\<rparr>
          in (Inr lg, lc_Append h lc, w1))"

text \<open>The options that the constructors set on the logger (no caller, no stack traces) do not change its fields.\<close>

definition logging_Weight :: uint64 where
  "logging_Weight = 50"

definition NewGrpcLoggingServerInterceptors where
  "NewGrpcLoggingServerInterceptors env lg opts =
     (\<lparr>Weight = logging_Weight, Interceptor = NewLoggingUnaryServerInterceptor env lg opts\<rparr>,
      \<lparr>Weight = logging_Weight, Interceptor = NewLoggingStreamServerInterceptor env lg opts\<rparr>)"

definition NewGrpcLoggingClientInterceptors where
  "NewGrpcLoggingClientInterceptors env lg opts =
     (\<lparr>Weight = logging_Weight, Interceptor = NewLoggingUnaryClientInterceptor env lg opts\<rparr>,
      \<lparr>Weight = logging_Weight, Interceptor = NewLoggingStreamClientInterceptor env lg opts\<rparr>)"

definition NewGrpcInjectLoggerInterceptors where
  "NewGrpcInjectLoggerInterceptors env lg =
     (\<lparr>Weight = logging_Weight - 1, Interceptor = NewInjectLoggerUnaryServerInterceptor env lg\<rparr>,
      \<lparr>Weight = logging_Weight - 1, Interceptor = NewInjectLoggerStreamServerInterceptor env lg\<rparr>)"

definition NewGrpcInjectPeerInterceptors where
  "NewGrpcInjectPeerInterceptors env =
     (\<lparr>Weight = logging_Weight - 1, Interceptor = NewInjectPeerUnaryClientInterceptor env\<rparr>,
      \<lparr>Weight = logging_Weight - 1, Interceptor = NewInjectPeerStreamClientInterceptor env\<rparr>)"

section \<open>The fx event logger\<close>

record fx_logger =
  fx_Logger :: logger
  logLevel :: level
  errorLevel :: "level option"

type_synonym fx_option = "fx_logger \<Rightarrow> fx_logger"

definition WithLogLevel :: "level \<Rightarrow> fx_option" where
  "WithLogLevel lvl l = l\<lparr>logLevel := lvl\<rparr>"

definition WithErrorLevel :: "level \<Rightarrow> fx_option" where
  "WithErrorLevel lvl l = l\<lparr>errorLevel := Some lvl\<rparr>"

definition NewFxLogger :: "logger \<Rightarrow> fx_option list \<Rightarrow> fx_logger" where
  "NewFxLogger lg opts = fold (\<lambda>opt l. opt l) opts \<lparr>fx_Logger = lg, logLevel = DebugLevel, errorLevel = None\<rparr>"

section \<open>The logger of the gRPC framework\<close>

text \<open>
  Formatting is package fmt's. An entry below the enabled levels is not written; the fatal level ends the
  process whether it is enabled or not.
\<close>

record 'v formats =
  Sprint :: "'v list \<Rightarrow> string"
  Sprintln :: "'v list \<Rightarrow> string"
  Sprintf :: "string \<Rightarrow> 'v list \<Rightarrow> string"

record grpc_Logger =
  delegate :: logger
  levelEnabler :: "level \<Rightarrow> bool"

definition grpc_NewLogger :: "(level \<Rightarrow> bool) \<Rightarrow> logger \<Rightarrow> grpc_Logger" where
  "grpc_NewLogger core lg = \<lparr>delegate = lg, levelEnabler = core\<rparr>"

definition sugar_log :: "grpc_Logger \<Rightarrow> level \<Rightarrow> string \<Rightarrow> entry list \<Rightarrow> unit outcome \<times> entry list" where
  "sugar_log l lvl msg es =
     (if lvl = FatalLevel then Panic msg else Ret (),
      if levelEnabler l lvl then es @ [log_at lvl (delegate l) msg []] else es)"

definition sprintln :: "'v formats \<Rightarrow> 'v list \<Rightarrow> string outcome" where
  "sprintln fm args =
     (let s = Sprintln fm args in if s = [] then Panic slice_bounds_out_of_range else Ret (butlast s))"

definition log_ln :: "'v formats \<Rightarrow> grpc_Logger \<Rightarrow> level \<Rightarrow> 'v list \<Rightarrow> entry list \<Rightarrow> unit outcome \<times> entry list" where
  "log_ln fm l lvl args es =
     (if levelEnabler l lvl
      then case sprintln fm args of Panic p \<Rightarrow> (Panic p, es) | Ret s \<Rightarrow> sugar_log l lvl s es
      else (Ret (), es))"

definition Info where "Info fm l args = sugar_log l DebugLevel (Sprint fm args)"
definition Infoln where "Infoln fm l args = log_ln fm l DebugLevel args"
definition Infof where "Infof fm l format args = sugar_log l DebugLevel (Sprintf fm format args)"
definition Warning where "Warning fm l args = sugar_log l WarnLevel (Sprint fm args)"
definition Warningln where "Warningln fm l args = log_ln fm l WarnLevel args"
definition Warningf where "Warningf fm l format args = sugar_log l WarnLevel (Sprintf fm format args)"
definition grpc_Error where "grpc_Error fm l args = sugar_log l ErrorLevel (Sprint fm args)"
definition Errorln where "Errorln fm l args = log_ln fm l ErrorLevel args"
definition Errorf where "Errorf fm l format args = sugar_log l ErrorLevel (Sprintf fm format args)"
definition grpc_Fatal where "grpc_Fatal fm l args = sugar_log l FatalLevel (Sprint fm args)"
definition Fatalln where "Fatalln fm l args = log_ln fm l FatalLevel args"
definition Fatalf where "Fatalf fm l format args = sugar_log l FatalLevel (Sprintf fm format args)"

text \<open>An integer that is no key of the map reads as the zero value of levels, which is \<open>InfoLevel\<close>.\<close>

definition grpcToZapLevel :: "int \<Rightarrow> level" where
  "grpcToZapLevel level =
     (if level = 0 then DebugLevel else if level = 1 then WarnLevel else if level = 2 then ErrorLevel
      else if level = 3 then FatalLevel else InfoLevel)"

definition V :: "grpc_Logger \<Rightarrow> int \<Rightarrow> bool" where
  "V l level = levelEnabler l (grpcToZapLevel level)"

section \<open>The request logger of HTTP servers\<close>

text \<open>
  A handler is a program on the response writer. Only \<open>WriteHeader\<close> is intercepted; all other calls,
  \<open>Write\<close> included, go to the embedded writer and are actions on the world.
\<close>

datatype 'x http_prog =
    HReturn
  | HPanic string
  | WriteHeader int "'x http_prog"
  | HAct "'x \<Rightarrow> 'x" "'x \<Rightarrow> 'x http_prog"

record 'cert http_request =
  req_Method :: string
  RequestURI :: string
  req_Header :: "string \<rightharpoonup> string list"
  req_Context :: "'cert ctx"

record 'x response_writer =
  rw_WriteHeader :: "int \<Rightarrow> 'x \<Rightarrow> 'x"
  rw_AddHeader :: "string \<Rightarrow> string \<Rightarrow> 'x \<Rightarrow> 'x"

text \<open>The wrapper's state is the status code beside the world.\<close>

primrec run_wrapped_writer :: "'x response_writer \<Rightarrow> 'x http_prog \<Rightarrow> int \<times> 'x \<Rightarrow> unit outcome \<times> int \<times> 'x" where
  "run_wrapped_writer rw HReturn = (\<lambda>st. (Ret (), st))"
| "run_wrapped_writer rw (HPanic p) = (\<lambda>st. (Panic p, st))"
| "run_wrapped_writer rw (WriteHeader code k) = (\<lambda>(_, x). run_wrapped_writer rw k (code, rw_WriteHeader rw code x))"
| "run_wrapped_writer rw (HAct f k) = (\<lambda>(s, x). run_wrapped_writer rw (k x) (s, f x))"

primrec run_writer :: "'x response_writer \<Rightarrow> 'x http_prog \<Rightarrow> 'x \<Rightarrow> unit outcome \<times> 'x" where
  "run_writer rw HReturn = (\<lambda>x. (Ret (), x))"
| "run_writer rw (HPanic p) = (\<lambda>x. (Panic p, x))"
| "run_writer rw (WriteHeader code k) = (\<lambda>x. run_writer rw k (rw_WriteHeader rw code x))"
| "run_writer rw (HAct f k) = (\<lambda>x. run_writer rw (k x) (f x))"

definition NewWrapResponseWriter :: "'x \<Rightarrow> int \<times> 'x" where
  "NewWrapResponseWriter x = (0, x)"

definition NeverEnabler :: "level \<Rightarrow> bool" where
  "NeverEnabler l \<longleftrightarrow> False"

definition forwarded_user :: "'cert http_request \<Rightarrow> field list" where
  "forwarded_user r =
     (case req_Header r ''X-Forwarded-User'' of
        Some (u # us) \<Rightarrow> [String ''X-Forwarded-User'' u]
      | _ \<Rightarrow> [])"

definition request_level :: "'cert http_request \<Rightarrow> int \<Rightarrow> level" where
  "request_level r status =
     (if req_Method r = ''GET'' \<and> status = 200 \<and> HasSuffix (RequestURI r) ''/healthz'' then DebugLevel
      else if 500 \<le> status then ErrorLevel else InfoLevel)"

definition NewRequestLogger ::
  "'q log_env \<Rightarrow> logger \<Rightarrow> ('cert http_request \<Rightarrow> 'x http_prog) \<Rightarrow> 'x response_writer \<Rightarrow> 'cert http_request \<Rightarrow>
   'x world \<Rightarrow> unit outcome \<times> 'x world" where
  "NewRequestLogger env lg wrapped rw r w =
     (case time_Now env w of (start, w0) \<Rightarrow>
        (case traceIdFromContext env (req_Context r) w0 of ((traceid, ok), w1) \<Rightarrow>
           let ctx0 = (if \<not> ok then contextWithTraceId traceid (req_Context r) else req_Context r);
               ww = NewWrapResponseWriter (rw_AddHeader rw ''X-Trace-Id'' traceid (outside w1));
               l = lg @ [String ''http.method'' (req_Method r), String ''http.uri'' (RequestURI r),
                         String ''otlp.trace_id'' traceid] @ forwarded_user r;
               r1 = r\<lparr>req_Context := ContextWithLogger l ctx0\<rparr>
           in (case run_wrapped_writer rw (wrapped r1) ww of
                 (Panic p, _, x1) \<Rightarrow> (Panic p, w1\<lparr>outside := x1\<rparr>)
               | (Ret _, status, x1) \<Rightarrow>
                   (case time_Now env (w1\<lparr>outside := x1\<rparr>) of (now, w2) \<Rightarrow>
                      zap_Log env (request_level r status) l ''Handled request''
                        [Integer ''http.status'' status, Duration ''http.duration'' (now - start)] w2))))"

section \<open>The request logger and the wrapped writer\<close>

text \<open>The codes that a handler passes to \<open>WriteHeader\<close>, in order.\<close>

primrec written :: "'x response_writer \<Rightarrow> 'x http_prog \<Rightarrow> 'x \<Rightarrow> int list" where
  "written rw HReturn = (\<lambda>x. [])"
| "written rw (HPanic p) = (\<lambda>x. [])"
| "written rw (WriteHeader code k) = (\<lambda>x. code # written rw k (rw_WriteHeader rw code x))"
| "written rw (HAct f k) = (\<lambda>x. written rw (k x) (f x))"

lemma run_wrapped_writer_eq:
  "run_wrapped_writer rw p (s, x) = (case run_writer rw p x of (r, x1) \<Rightarrow> (r, last (s # written rw p x), x1))"
proof (induction p arbitrary: s x)
  case (WriteHeader code k)
  then show ?case by (simp split: prod.splits)
next
  case (HAct f k)
  then show ?case by simp
qed simp_all

lemma request_level_le [simp]: "request_level r s \<le> ErrorLevel"
  by (simp add: request_level_def less_eq_level_def)

section \<open>Properties\<close>


section \<open>The logger of the gRPC framework\<close>

text \<open>
  For the four severities of gRPC, \<open>V\<close> says whether a call of that severity is written, where Info is
  written at the debug level; for any other number it answers for the info level. A line is written without
  its newline. \<open>Fatalln\<close> returns when the fatal level is disabled; the other two forms never do.
\<close>

lemma grpc_logger_verbosity:
  assumes "\<And>args. Sprintln fm args = line args @ [CHR 0x0A]"
  shows "snd (Infoln fm l args es) = es @ (if V l 0 then [log_at DebugLevel (delegate l) (line args) []] else [])"
    and "snd (Warningln fm l args es) = es @ (if V l 1 then [log_at WarnLevel (delegate l) (line args) []] else [])"
    and "snd (Errorln fm l args es) = es @ (if V l 2 then [log_at ErrorLevel (delegate l) (line args) []] else [])"
    and "fst (Fatalln fm l args es) = Ret () \<longleftrightarrow> \<not> V l 3"
    and "fst (grpc_Fatal fm l args es) \<noteq> Ret ()" and "fst (Fatalf fm l format args es) \<noteq> Ret ()"
    and "v \<notin> {0, 1, 2, 3} \<Longrightarrow> V l v \<longleftrightarrow> levelEnabler l InfoLevel"
  using assms
  by (auto simp: Infoln_def Warningln_def Errorln_def Fatalln_def grpc_Fatal_def Fatalf_def log_ln_def sugar_log_def sprintln_def
      V_def grpcToZapLevel_def Let_def)

end
