(* ===== verification/Validation.thy ===== *)
theory Validation
  imports Config LoggingSetup Tracing
begin

text \<open>
  What a configuration has to satisfy: the \<open>validate\<close> tags of the configuration structs of all modules and of the
  example applications (src/examples/config/config.go), as data, and the evaluation of tags by the validator that \<open>Load\<close> runs
  (src/vendor/github.com/go-playground/validator/v10/validator.go and baked_in.go). The file system and the syntax of
  URLs and addresses are parameters.
\<close>

section \<open>The validator\<close>

datatype tag =
    OmitEmpty | Required | RequiredIf "(string \<times> bool) list" | RequiredWith string | ExcludedWith string | ExcludedWithout string
  | OneOf "string list" | IsFile | IsDir | IsURL | HostnamePort

text \<open>A value as the validator sees it by reflection; a struct has its fields in order, with their tags.\<close>

datatype gval =
    VStr string | VBool bool | VInt int | VMap "(string \<times> string) list option" | VStruct "(string \<times> gval \<times> tag list) list"

type_synonym fields = "(string \<times> gval \<times> tag list) list"

lemma field_size [termination_simp]: "f \<in> set fs \<Longrightarrow> size (fst (snd f)) < size (VStruct fs)"
  by (induction fs) auto

function is_zero :: "gval \<Rightarrow> bool" where
  "is_zero (VStr s) = (s = [])"
| "is_zero (VBool b) = (\<not> b)"
| "is_zero (VInt i) = (i = 0)"
| "is_zero (VMap m) = (m = None)"
| "is_zero (VStruct fs) = (\<forall>f \<in> set fs. is_zero (fst (snd f)))"
  by pat_completeness auto
termination by (relation "measure size") (use field_size in auto)

abbreviation hasValue :: "gval \<Rightarrow> bool" where
  "hasValue v \<equiv> \<not> is_zero v"

record validator_env =
  Stat :: "string \<Rightarrow> bool option"
  isURL :: "string \<Rightarrow> bool"
  isHostnamePort :: "string \<Rightarrow> bool"

text \<open>\<open>requireCheckFieldKind\<close> and \<open>requireCheckFieldValue\<close>, the latter on booleans, which are all that the tags compare.\<close>

definition absent :: "fields \<Rightarrow> string \<Rightarrow> bool" where
  "absent parent param = (case map_of parent param of None \<Rightarrow> True | Some (v, _) \<Rightarrow> is_zero v)"

definition field_is :: "fields \<Rightarrow> string \<times> bool \<Rightarrow> bool" where
  "field_is parent = (\<lambda>(param, b). case map_of parent param of Some (VBool x, _) \<Rightarrow> x = b | _ \<Rightarrow> False)"

definition on_string :: "(string \<Rightarrow> bool) \<Rightarrow> gval \<Rightarrow> bool" where
  "on_string P v = (case v of VStr s \<Rightarrow> P s | _ \<Rightarrow> False)"

fun passes :: "validator_env \<Rightarrow> fields \<Rightarrow> gval \<Rightarrow> tag \<Rightarrow> bool" where
  "passes env parent v OmitEmpty = True"
| "passes env parent v Required = hasValue v"
| "passes env parent v (RequiredIf ps) = (list_all (field_is parent) ps \<longrightarrow> hasValue v)"
| "passes env parent v (RequiredWith f) = (\<not> absent parent f \<longrightarrow> hasValue v)"
| "passes env parent v (ExcludedWith f) = (\<not> absent parent f \<longrightarrow> \<not> hasValue v)"
| "passes env parent v (ExcludedWithout f) = (absent parent f \<longrightarrow> \<not> hasValue v)"
| "passes env parent v (OneOf vals) = on_string (\<lambda>s. s \<in> set vals) v"
| "passes env parent v IsFile = on_string (\<lambda>s. Stat env s = Some False) v"
| "passes env parent v IsDir = on_string (\<lambda>s. Stat env s = Some True) v"
| "passes env parent v IsURL = on_string (isURL env) v"
| "passes env parent v HostnamePort = on_string (isHostnamePort env) v"

text \<open>The name and the parameter of a tag and the text of a value, for the message.\<close>

fun tag_name :: "tag \<Rightarrow> string" where
  "tag_name OmitEmpty = ''omitempty''"
| "tag_name Required = ''required''"
| "tag_name (RequiredIf _) = ''required_if''"
| "tag_name (RequiredWith _) = ''required_with''"
| "tag_name (ExcludedWith _) = ''excluded_with''"
| "tag_name (ExcludedWithout _) = ''excluded_without''"
| "tag_name (OneOf _) = ''oneof''"
| "tag_name IsFile = ''file''"
| "tag_name IsDir = ''dir''"
| "tag_name IsURL = ''url''"
| "tag_name HostnamePort = ''hostname_port''"

definition fmt_bool :: "bool \<Rightarrow> string" where
  "fmt_bool b = (if b then ''true'' else ''false'')"

fun tag_param :: "tag \<Rightarrow> string" where
  "tag_param (RequiredIf ps) = Join (map (\<lambda>(f, b). f @ '' '' @ fmt_bool b) ps) '' ''"
| "tag_param (RequiredWith f) = f"
| "tag_param (ExcludedWith f) = f"
| "tag_param (ExcludedWithout f) = f"
| "tag_param (OneOf vals) = Join vals '' ''"
| "tag_param _ = []"

function fmt_value :: "gval \<Rightarrow> string" where
  "fmt_value (VStr s) = s"
| "fmt_value (VBool b) = fmt_bool b"
| "fmt_value (VInt i) = fmt_int i"
| "fmt_value (VMap m) = ''map['' @ Join (map (\<lambda>(k, x). k @ '':'' @ x) (case m of None \<Rightarrow> [] | Some kvs \<Rightarrow> kvs)) '' '' @ '']''"
| "fmt_value (VStruct fs) = ''{'' @ Join (map (\<lambda>f. fmt_value (fst (snd f))) fs) '' '' @ ''}''"
  by pat_completeness auto
termination by (relation "measure size") (use field_size in auto)

text \<open>
  \<open>traverseField\<close> with \<open>validateStruct\<close>: the tags of a field one by one up to the first that fails; a nested struct whose tags
  all pass is validated field by field, with itself as the parent. \<open>required\<close> in front of a struct is skipped.
\<close>

definition field_tags :: "gval \<Rightarrow> tag list \<Rightarrow> tag list" where
  "field_tags v tags = (case (v, tags) of (VStruct _, Required # ts) \<Rightarrow> ts | _ \<Rightarrow> tags)"

function traverseField :: "validator_env \<Rightarrow> string \<Rightarrow> fields \<Rightarrow> string \<Rightarrow> gval \<Rightarrow> tag list \<Rightarrow> field_error list" where
  "traverseField env ns parent name v [] =
     (case v of
        VStruct fs \<Rightarrow>
          concat (map (\<lambda>f. traverseField env (ns @ name @ ''.'') fs (fst f) (fst (snd f)) (field_tags (fst (snd f)) (snd (snd f)))) fs)
      | _ \<Rightarrow> [])"
| "traverseField env ns parent name v (t # ts) =
     (if t = OmitEmpty then (if hasValue v then traverseField env ns parent name v ts else [])
      else if passes env parent v t then traverseField env ns parent name v ts
      else [\<lparr>StructNamespace = ns @ name, FieldValue = fmt_value v, ActualTag = tag_name t, Param = tag_param t\<rparr>])"
  by pat_completeness auto
termination
  by (relation "measures [\<lambda>(env, ns, parent, name, v, ts). size v, \<lambda>(env, ns, parent, name, v, ts). length ts]")
    (use field_size in auto)

definition validate_Struct :: "validator_env \<Rightarrow> string \<Rightarrow> fields \<Rightarrow> validation" where
  "validate_Struct env tname fs =
     (case traverseField env [] [] tname (VStruct fs) [] of [] \<Rightarrow> Valid | es \<Rightarrow> ValidationErrors es)"

section \<open>The configuration structs\<close>

definition server_fields :: "Server \<Rightarrow> fields" where
  "server_fields s =
     [(''SocketName'', VStr (SocketName s), []), (''Address'', VStr (Address s), []), (''TLS'', VBool (TLS s), []),
      (''CertFile'', VStr (Server_CertFile s), [RequiredIf [(''TLS'', True)], OmitEmpty, IsFile]),
      (''KeyFile'', VStr (Server_KeyFile s), [RequiredIf [(''TLS'', True)], OmitEmpty, IsFile]),
      (''ClientCAFile'', VStr (ClientCAFile s), [ExcludedWithout ''TLS'', OmitEmpty, IsFile])]"

definition client_fields :: "Client \<Rightarrow> fields" where
  "client_fields c =
     [(''InsecureConnection'', VBool (InsecureConnection c), []), (''CertFile'', VStr (Client_CertFile c), [OmitEmpty, IsFile]),
      (''KeyFile'', VStr (Client_KeyFile c), [RequiredWith ''CertFile'', OmitEmpty, IsFile]),
      (''RootCAFile'', VStr (RootCAFile c), [OmitEmpty, IsFile]), (''Endpoint'', VStr (Endpoint c), [Required])]"

record ConnManagerOpts =
  cm_Insecure :: bool
  cm_CertFile :: string
  cm_KeyFile :: string
  cm_RootCAFile :: string

definition conn_manager_fields :: "ConnManagerOpts \<Rightarrow> fields" where
  "conn_manager_fields c =
     [(''InsecureConnection'', VBool (cm_Insecure c), []), (''CertFile'', VStr (cm_CertFile c), [OmitEmpty, IsFile]),
      (''KeyFile'', VStr (cm_KeyFile c), [RequiredWith ''CertFile'', OmitEmpty, IsFile]),
      (''RootCAFile'', VStr (cm_RootCAFile c), [OmitEmpty, IsFile])]"

definition logging_fields :: "Logging \<Rightarrow> fields" where
  "logging_fields l = [(''Mode'', VStr (LoggingSetup.Mode l), [OneOf [''production'', ''development'', ''preproduction'']])]"

definition metrics_fields :: "Metrics \<Rightarrow> fields" where
  "metrics_fields m =
     [(''Server'', VStruct (server_fields (met_Server m)), []), (''Histograms'', VBool (Histograms m), []),
      (''ProcessName'', VStr (ProcessName m), [])]"

text \<open>A map is nil or has its entries in the order in which they are printed.\<close>

definition push_fields :: "(string \<times> string) list option \<Rightarrow> (string \<times> string) list option \<Rightarrow> PushMetrics \<Rightarrow> fields" where
  "push_fields labels extra m =
     [(''InsecureConnection'', VBool (push_Insecure m), []), (''CertFile'', VStr (push_CertFile m), [OmitEmpty, IsFile]),
      (''KeyFile'', VStr (push_KeyFile m), [RequiredWith ''CertFile'', OmitEmpty, IsFile]),
      (''RootCAFile'', VStr (push_RootCAFile m), [OmitEmpty, IsFile]), (''Histograms'', VBool (push_Histograms m), []),
      (''ProcessName'', VStr (push_ProcessName m), []), (''Endpoint'', VStr (push_Endpoint m), [OmitEmpty, IsURL]),
      (''JobName'', VStr (JobName m), [RequiredWith ''Endpoint'']), (''GroupingLabelKey'', VStr (GroupingLabelKey m), []),
      (''GroupingLabelValue'', VStr (GroupingLabelValue m), [RequiredWith ''GroupingLabelKey'']),
      (''GroupingLabels'', VMap labels, [ExcludedWith ''GroupingLabelKey'']), (''PushInterval'', VInt (PushInterval m), []),
      (''ExtraLabels'', VMap extra, [])]"

definition otlp_fields :: "OtlpMetrics \<Rightarrow> fields" where
  "otlp_fields m =
     [(''Enabled'', VBool (otlp_Enabled m), []), (''PushInterval'', VInt (otlp_PushInterval m), []),
      (''Histograms'', VBool (otlp_Histograms m), []), (''ProcessName'', VStr (otlp_ProcessName m), []),
      (''GrpcClient'', VStruct (client_fields (GrpcClient m)), [RequiredWith ''Enabled'', OmitEmpty])]"

definition tracing_fields :: "Tracing \<Rightarrow> fields" where
  "tracing_fields t =
     (let needed = RequiredIf [(''Enabled'', True), (''InsecureConnection'', False)]
      in [(''Enabled'', VBool (trace_Enabled t), []), (''InsecureConnection'', VBool (trace_Insecure t), []),
          (''CertFile'', VStr (trace_CertFile t), [needed, OmitEmpty, IsFile]),
          (''KeyFile'', VStr (trace_KeyFile t), [needed, OmitEmpty, IsFile]),
          (''RootCAFile'', VStr (trace_RootCAFile t), [needed, OmitEmpty, IsFile]),
          (''Endpoint'', VStr (trace_Endpoint t), [needed, OmitEmpty, HostnamePort])])"

definition pprof_fields :: "Pprof \<Rightarrow> fields" where
  "pprof_fields p =
     [(''GenerateFiles'', VStr (GenerateFiles p), [ExcludedWith ''Enabled'', OmitEmpty, IsDir]),
      (''Enabled'', VBool (pprof_Enabled p), []), (''Server'', VStruct (server_fields (pprof_Server p)), [])]"

definition sentry_fields :: "Sentry \<Rightarrow> fields" where
  "sentry_fields s =
     [(''Dsn'', VStr (Dsn s), []), (''Environment'', VStr (Environment s), []), (''Debug'', VBool (Debug s), []),
      (''Process'', VStr (Process s), [])]"

definition authorizer_fields :: "string \<Rightarrow> fields" where
  "authorizer_fields rule = [(''Rule'', VStr rule, [Required])]"

text \<open>The configuration of the example applications.\<close>

record ExampleConfig =
  cfg_Server :: Server
  cfg_Logging :: Logging
  cfg_Pprof :: Pprof
  cfg_Metrics :: Metrics
  cfg_Tracing :: Tracing
  cfg_Sentry :: Sentry
  FeatureFlag :: bool
  cfg_Mode :: string
  RequiredNumber :: int
  Interval :: int

definition config_fields :: "ExampleConfig \<Rightarrow> fields" where
  "config_fields c =
     [(''Server'', VStruct (server_fields (cfg_Server c)), []), (''Logging'', VStruct (logging_fields (cfg_Logging c)), []),
      (''Pprof'', VStruct (pprof_fields (cfg_Pprof c)), []), (''Metrics'', VStruct (metrics_fields (cfg_Metrics c)), []),
      (''Tracing'', VStruct (tracing_fields (cfg_Tracing c)), []), (''Sentry'', VStruct (sentry_fields (cfg_Sentry c)), []),
      (''FeatureFlag'', VBool (FeatureFlag c), []), (''Mode'', VStr (cfg_Mode c), [OneOf [''low'', ''medium'', ''high'']]),
      (''RequiredNumber'', VInt (RequiredNumber c), [Required]), (''Interval'', VInt (Interval c), [])]"

section \<open>What the tags ask for\<close>

text \<open>Whether a struct is valid does not depend on where it stands.\<close>

definition valid :: "validator_env \<Rightarrow> fields \<Rightarrow> bool" where
  "valid env fs \<longleftrightarrow> traverseField env [] [] [] (VStruct fs) [] = []"

fun tags_hold :: "validator_env \<Rightarrow> fields \<Rightarrow> gval \<Rightarrow> tag list \<Rightarrow> bool" where
  "tags_hold env parent v [] = (case v of VStruct fs \<Rightarrow> valid env fs | _ \<Rightarrow> True)"
| "tags_hold env parent v (t # ts) =
     (if t = OmitEmpty then hasValue v \<longrightarrow> tags_hold env parent v ts else passes env parent v t \<and> tags_hold env parent v ts)"

lemma traverseField_place:
  "traverseField env ns parent name v ts = [] \<longleftrightarrow> traverseField env ns' parent name' v ts = []"
proof (induction env ns parent name v ts arbitrary: ns' name' rule: traverseField.induct)
  case (1 env ns parent name v)
  show ?case
  proof (cases v)
    case (VStruct fs)
    with 1 have "traverseField env (ns @ name @ ''.'') fs (fst f) (fst (snd f)) (field_tags (fst (snd f)) (snd (snd f))) = [] \<longleftrightarrow>
        traverseField env (ns' @ name' @ ''.'') fs (fst f) (fst (snd f)) (field_tags (fst (snd f)) (snd (snd f))) = []" if "f \<in> set fs" for f
      using that by blast
    then show ?thesis by (simp add: VStruct)
  qed simp_all
next
  case (2 env ns parent name v t ts)
  show ?case using 2(1) [of ns' name'] 2(2) [of ns' name'] by (cases "t = OmitEmpty") auto
qed

lemma traverseField_struct: "traverseField env ns parent name (VStruct fs) [] = [] \<longleftrightarrow> valid env fs"
proof -
  have "traverseField env ns parent name (VStruct fs) [] = traverseField env ns [] name (VStruct fs) []" by simp
  then show ?thesis unfolding valid_def using traverseField_place [of env ns "[]" name "VStruct fs" "[]" "[]" "[]"] by simp
qed

lemma traverseField_tags: "traverseField env ns parent name v ts = [] \<longleftrightarrow> tags_hold env parent v ts"
proof (induction ts)
  case Nil
  show ?case by (cases v) (simp_all add: traverseField_struct del: traverseField.simps(1), simp_all)
qed simp

lemma valid_iff: "valid env fs \<longleftrightarrow> list_all (\<lambda>(name, v, ts). tags_hold env fs v (field_tags v ts)) fs"
  unfolding valid_def by (simp add: traverseField_tags list_all_iff case_prod_unfold)

definition no_file_missing :: "validator_env \<Rightarrow> string list \<Rightarrow> bool" where
  "no_file_missing env paths \<longleftrightarrow> (\<forall>p \<in> set paths. p = [] \<or> Stat env p = Some False)"

lemmas tag_defs = absent_def field_is_def on_string_def field_tags_def no_file_missing_def

lemma valid_Server:
  "valid env (server_fields s) \<longleftrightarrow>
     (TLS s \<longrightarrow> Server_CertFile s \<noteq> [] \<and> Server_KeyFile s \<noteq> []) \<and> (ClientCAFile s \<noteq> [] \<longrightarrow> TLS s)
     \<and> no_file_missing env [Server_CertFile s, Server_KeyFile s, ClientCAFile s]"
  by (subst valid_iff) (auto simp: server_fields_def tag_defs)

lemma valid_Client:
  "valid env (client_fields c) \<longleftrightarrow>
     (Client_CertFile c \<noteq> [] \<longrightarrow> Client_KeyFile c \<noteq> []) \<and> Endpoint c \<noteq> []
     \<and> no_file_missing env [Client_CertFile c, Client_KeyFile c, RootCAFile c]"
  by (subst valid_iff) (auto simp: client_fields_def tag_defs)

lemma valid_ConnManager:
  "valid env (conn_manager_fields c) \<longleftrightarrow>
     (cm_CertFile c \<noteq> [] \<longrightarrow> cm_KeyFile c \<noteq> []) \<and> no_file_missing env [cm_CertFile c, cm_KeyFile c, cm_RootCAFile c]"
  by (subst valid_iff) (auto simp: conn_manager_fields_def tag_defs)

lemma valid_Logging:
  "valid env (logging_fields l) \<longleftrightarrow> LoggingSetup.Mode l \<in> {''production'', ''development'', ''preproduction''}"
  by (subst valid_iff) (simp add: logging_fields_def tag_defs)

lemma valid_Metrics: "valid env (metrics_fields m) \<longleftrightarrow> valid env (server_fields (met_Server m))"
  by (subst valid_iff) (simp add: metrics_fields_def tag_defs)

lemma valid_Push:
  "valid env (push_fields labels extra m) \<longleftrightarrow>
     (push_CertFile m \<noteq> [] \<longrightarrow> push_KeyFile m \<noteq> []) \<and> no_file_missing env [push_CertFile m, push_KeyFile m, push_RootCAFile m]
     \<and> (push_Endpoint m \<noteq> [] \<longrightarrow> isURL env (push_Endpoint m) \<and> JobName m \<noteq> [])
     \<and> (GroupingLabelKey m \<noteq> [] \<longrightarrow> GroupingLabelValue m \<noteq> [] \<and> labels = None)"
  by (subst valid_iff) (auto simp: push_fields_def tag_defs)

text \<open>The client of the OTLP module is asked for when the module is enabled, and checked as soon as any part of it is set.\<close>

lemma valid_Otlp:
  "valid env (otlp_fields m) \<longleftrightarrow>
     (if is_zero (VStruct (client_fields (GrpcClient m))) then \<not> otlp_Enabled m else valid env (client_fields (GrpcClient m)))"
  by (subst valid_iff) (auto simp: otlp_fields_def tag_defs)

lemma valid_Tracing:
  "valid env (tracing_fields t) \<longleftrightarrow>
     (trace_Enabled t \<and> \<not> trace_Insecure t \<longrightarrow>
        trace_CertFile t \<noteq> [] \<and> trace_KeyFile t \<noteq> [] \<and> trace_RootCAFile t \<noteq> [] \<and> trace_Endpoint t \<noteq> [])
     \<and> no_file_missing env [trace_CertFile t, trace_KeyFile t, trace_RootCAFile t]
     \<and> (trace_Endpoint t \<noteq> [] \<longrightarrow> isHostnamePort env (trace_Endpoint t))"
  by (subst valid_iff) (auto simp: tracing_fields_def tag_defs Let_def)

lemma valid_Pprof:
  "valid env (pprof_fields p) \<longleftrightarrow>
     (GenerateFiles p \<noteq> [] \<longrightarrow> \<not> pprof_Enabled p \<and> Stat env (GenerateFiles p) = Some True) \<and> valid env (server_fields (pprof_Server p))"
  by (subst valid_iff) (auto simp: pprof_fields_def tag_defs)

lemma valid_Sentry: "valid env (sentry_fields s)"
  by (subst valid_iff) (simp add: sentry_fields_def tag_defs)

lemma valid_Authorizer: "valid env (authorizer_fields rule) \<longleftrightarrow> rule \<noteq> []"
  by (subst valid_iff) (simp add: authorizer_fields_def tag_defs)

lemma valid_Config:
  "valid env (config_fields c) \<longleftrightarrow>
     valid env (server_fields (cfg_Server c)) \<and> valid env (logging_fields (cfg_Logging c)) \<and> valid env (pprof_fields (cfg_Pprof c))
     \<and> valid env (metrics_fields (cfg_Metrics c)) \<and> valid env (tracing_fields (cfg_Tracing c))
     \<and> cfg_Mode c \<in> {''low'', ''medium'', ''high''} \<and> RequiredNumber c \<noteq> 0"
  by (subst valid_iff) (simp add: config_fields_def tag_defs valid_Sentry)

text \<open>The interval of the example job is not looked at.\<close>

lemma valid_any_Interval: "valid env (config_fields (c\<lparr>Interval := i\<rparr>)) \<longleftrightarrow> valid env (config_fields c)"
  by (simp add: valid_Config)

section \<open>Configurations that Load returns\<close>

text \<open>\<open>Load\<close> with this validator, for a type of structs with its fields.\<close>

definition tagged_env :: "validator_env \<Rightarrow> string \<Rightarrow> ('s \<Rightarrow> fields) \<Rightarrow> ('s, 'v) load_env \<Rightarrow> ('s, 'v) load_env" where
  "tagged_env env tname fs_of E = E\<lparr>validateStruct := (\<lambda>_ s. validate_Struct env tname (fs_of s))\<rparr>"

lemma validate_Struct_cases: "validate_Struct env tname fs \<in> {Valid, ValidationErrors []} \<longleftrightarrow> valid env fs"
  unfolding validate_Struct_def traverseField_struct [of env "[]" "[]" tname, symmetric] by (auto simp del: traverseField.simps split: list.splits)

lemma Load_valid:
  assumes "Load (tagged_env env tname fs_of E) s args opts = Returned s' None"
  shows "valid env (fs_of s')"
  using Load_validated [OF assms refl] validate_Struct_cases [of env tname "fs_of s'"] by (auto simp: tagged_env_def)

text \<open>Otherwise the error names the first field, in the order of the structs, that breaks a tag.\<close>

lemma validate_target_message:
  assumes "registerValidators (RegisterValidation E) v = Inr v'"
  shows "validate_target (tagged_env env tname fs_of E) v s =
    Returned s (if valid env (fs_of s) then None
       else Some (ErrNew (validation_message (hd (traverseField env [] [] tname (VStruct (fs_of s)) [])))))"
  using assms traverseField_struct [of env "[]" "[]" tname "fs_of s"]
  by (auto simp: validate_target_def tagged_env_def validate_Struct_def simp del: traverseField.simps split: list.splits)

lemma valid_tracing_provider:
  assumes "valid env (tracing_fields t)" and "NewTracerProvider te rops tops t lg lc = (Inr tp, lc')"
  shows "case tp of
      NoopTracer \<Rightarrow> \<not> trace_Enabled t
    | StdoutTracer \<Rightarrow> trace_Enabled t \<and> trace_Insecure t
    | OtlpTracer ep cr \<Rightarrow> trace_Enabled t \<and> isHostnamePort env ep
        \<and> (if trace_Insecure t then cr = Some Insecure else \<exists>rl pool. cr = Some (MutualTLS rl pool))"
  using assms unfolding valid_Tracing
  by (auto simp: NewTracerProvider_def MakeClientTLS_def trace_GrpcClientConfig_def Let_def
      split: if_splits option.splits sum.splits prod.splits)

lemma valid_server_tls:
  assumes "valid env (server_fields cf)" and "ClientCAFile cf \<noteq> []"
    and "ProvideCertReloader ld hs (grpc_GetCertReloaderConfig cf) lg = (Inr r, hooks1)"
    and "NewGrpcServer rd pem pdq cf ui si r xs = Ret (Inr srv)"
  shows "\<exists>tc rest ca pool. srv = TransportCredentials (Some tc) # rest \<and> RequireAndVerifyClientCert tc
    \<and> rd (ClientCAFile cf) = Inr ca \<and> pem ca = Some pool \<and> ClientCAs tc = Some pool \<and> r \<noteq> None \<and> GetCertificate_of tc = r"
proof -
  have tls: "TLS cf" using assms(1,2) by (simp add: valid_Server)
  then have "r \<noteq> None"
    using assms(3) by (auto simp: ProvideCertReloader_def grpc_GetCertReloaderConfig_def split: sum.splits)
  moreover obtain tc rest where "MakeServerTLS rd pem r (ClientCAFile cf) = Inr tc" "srv = TransportCredentials (Some tc) # rest"
    using assms(4) tls by (auto simp: NewGrpcServer_def Let_def split: sum.splits outcome.splits)
  ultimately show ?thesis
    using assms(2) MakeServerTLS_cases [where readFile = rd and parsePEM = pem and r = r and clientCAFile = "ClientCAFile cf"] by auto
qed

section \<open>Properties\<close>

text \<open>
  C21: A configuration of the example applications that \<open>Load\<close> returns without an error means what it says. With a client CA file
  the gRPC server that is built from it demands client certificates and checks them against that file: no CA file is ignored because
  TLS is off. With tracing enabled, spans are printed only if the connection is insecure, and are otherwise sent under mutual TLS.
  The server has the certificate and key files that TLS needs, a runtime profile is not written beside the profiling
  server, and the mode of the logger is one that it knows. Certificates, CA files and the collector are parameters.
\<close>

theorem loaded_config_enforced:
  assumes "Load (tagged_env vd ''Config'' config_fields E) c0 args opts = Returned c None"
  shows "(\<forall>r hooks1 srv. ProvideCertReloader ld hs (grpc_GetCertReloaderConfig (cfg_Server c)) lg = (Inr r, hooks1)
        \<and> NewGrpcServer rd pem pdq (cfg_Server c) ui si r xs = Ret (Inr srv) \<and> ClientCAFile (cfg_Server c) \<noteq> [] \<longrightarrow>
        (\<exists>tc rest ca pool. srv = TransportCredentials (Some tc) # rest \<and> RequireAndVerifyClientCert tc
           \<and> rd (ClientCAFile (cfg_Server c)) = Inr ca \<and> pem ca = Some pool \<and> ClientCAs tc = Some pool
           \<and> r \<noteq> None \<and> GetCertificate_of tc = r))
    \<and> (\<forall>tp lc'. NewTracerProvider te rops tops (cfg_Tracing c) lg lc = (Inr tp, lc') \<longrightarrow>
        (case tp of
           NoopTracer \<Rightarrow> \<not> trace_Enabled (cfg_Tracing c)
         | StdoutTracer \<Rightarrow> trace_Enabled (cfg_Tracing c) \<and> trace_Insecure (cfg_Tracing c)
         | OtlpTracer ep cr \<Rightarrow> trace_Enabled (cfg_Tracing c) \<and> isHostnamePort vd ep
             \<and> (if trace_Insecure (cfg_Tracing c) then cr = Some Insecure else \<exists>rl pool. cr = Some (MutualTLS rl pool))))
    \<and> (TLS (cfg_Server c) \<longrightarrow> Stat vd (Server_CertFile (cfg_Server c)) = Some False \<and> Stat vd (Server_KeyFile (cfg_Server c)) = Some False)
    \<and> (pprof_Enabled (cfg_Pprof c) \<longrightarrow> GenerateFiles (cfg_Pprof c) = [])
    \<and> LoggingSetup.Mode (cfg_Logging c) \<in> {''production'', ''development'', ''preproduction''}"
proof -
  have valid: "valid vd (server_fields (cfg_Server c))" "valid vd (tracing_fields (cfg_Tracing c))" "valid vd (pprof_fields (cfg_Pprof c))"
    "valid vd (logging_fields (cfg_Logging c))"
    using Load_valid [OF assms] by (simp_all add: valid_Config)
  then have "TLS (cfg_Server c) \<longrightarrow> Stat vd (Server_CertFile (cfg_Server c)) = Some False \<and> Stat vd (Server_KeyFile (cfg_Server c)) = Some False"
    "pprof_Enabled (cfg_Pprof c) \<longrightarrow> GenerateFiles (cfg_Pprof c) = []"
    by (auto simp: valid_Server valid_Pprof no_file_missing_def)
  with valid show ?thesis
    by (intro conjI allI impI) (blast dest: valid_server_tls valid_tracing_provider, simp_all add: valid_Logging valid_tracing_provider)
qed

definition id_env :: "(ExampleConfig, unit) load_env" where
  "id_env = \<lparr>ReadBuildInfo = None, tagLoad = (\<lambda>s. (s, None)), interfaceLoad = (\<lambda>s. (s, None)), yamlLoad = (\<lambda>f s. (s, None)),
     envLoad = (\<lambda>c s. (s, None)), flagLoad = (\<lambda>l s. (s, None)), validatorNew = (), RegisterValidation = (\<lambda>v t f. Inr v),
     validateStruct = (\<lambda>v s. Valid)\<rparr>"

definition demo_validator :: validator_env where
  "demo_validator = \<lparr>Stat = (\<lambda>p. if p \<in> {''c'', ''k'', ''ca''} then Some False else None), isURL = (\<lambda>_. False), isHostnamePort = (\<lambda>_. False)\<rparr>"

definition demo_config :: ExampleConfig where
  "demo_config =
     \<lparr>cfg_Server = mutual_tls, cfg_Logging = \<lparr>Mode = ''production''\<rparr>,
      cfg_Pprof = \<lparr>GenerateFiles = [], pprof_Enabled = True, pprof_Server = no_server\<rparr>,
      cfg_Metrics = \<lparr>met_Server = no_server, Histograms = False, ProcessName = []\<rparr>,
      cfg_Tracing = \<lparr>trace_Enabled = True, trace_Insecure = True, trace_CertFile = [], trace_KeyFile = [], trace_RootCAFile = [], trace_Endpoint = []\<rparr>,
      cfg_Sentry = \<lparr>Dsn = [], Environment = ''prod'', Debug = False, Process = []\<rparr>,
      FeatureFlag = False, cfg_Mode = ''high'', RequiredNumber = 3, Interval = 60\<rparr>"

theorem loaded_config_enforced_witness:
  "Load (tagged_env demo_validator ''Config'' config_fields id_env) demo_config [''prog''] [] = Returned demo_config None
   \<and> (\<exists>r hooks1 tc rest. ProvideCertReloader flaky [] (grpc_GetCertReloaderConfig (cfg_Server demo_config)) [] = (Inr r, hooks1)
        \<and> NewGrpcServer Inr Some insertionSort (cfg_Server demo_config) ([] :: string weighted_ptr list) [] r [()]
            = Ret (Inr (TransportCredentials (Some tc) # rest))
        \<and> RequireAndVerifyClientCert tc \<and> ClientCAs tc = Some ''ca'')"
proof -
  have "getConfigPath [''prog''] = ([], [''prog''], None)"
    by (simp add: getConfigPath_def is_file_flag_def argSplit_def HasPrefix_def)
  moreover have "valid demo_validator (config_fields demo_config)"
    by (simp add: valid_Config valid_Server valid_Logging valid_Pprof valid_Metrics valid_Tracing no_file_missing_def demo_config_def
        demo_validator_def mutual_tls_def no_server_def)
  ultimately have load: "Load (tagged_env demo_validator ''Config'' config_fields id_env) demo_config [''prog''] [] = Returned demo_config None"
    using validate_target_message [of id_env "()" "()"]
    by (simp add: Load_def default_conf_def load_chain_def chosen_validator_def registerValidators_def id_env_def tagged_env_def)
  obtain r hooks1 where r: "ProvideCertReloader flaky [] (grpc_GetCertReloaderConfig mutual_tls) [] = (Inr r, hooks1)"
    by (simp add: ProvideCertReloader_def grpc_GetCertReloaderConfig_def mutual_tls_def NewCertReloader_def flaky_def Let_def)
  obtain srv where srv: "NewGrpcServer Inr Some insertionSort mutual_tls ([] :: string weighted_ptr list) [] r [()] = Ret (Inr srv)"
    by (simp add: NewGrpcServer_def mutual_tls_def MakeServerTLS_def with_chains_def chain_defs sorted_chain_def SortInterceptors_def
        remove_nils.simps sort_Sort_def Let_def)
  have "cfg_Server demo_config = mutual_tls" "ClientCAFile mutual_tls = ''ca''" by (simp_all add: demo_config_def mutual_tls_def)
  with loaded_config_enforced [OF load, of flaky "[]" "[]" Inr Some insertionSort "[] :: string weighted_ptr list" "[]" "[()]"] load r srv
  show ?thesis by fastforce
qed

end
