(* ===== verification/Authorizer.thy ===== *)
theory Authorizer
  imports Grpc Interceptors
begin

text \<open>
  The authorizer (src/fxauthorizer): the request that a policy sees (schema/schema.go), the extraction
  of a bearer token (oidc/oidc.go), the CEL authorizer (interceptor/cel_authorizer.go), and the server
  interceptors that consult an authorizer (interceptor/interceptor.go, authorizer.go). CEL, the
  verification of tokens and the texts of addresses and URLs are parameters.
\<close>

section \<open>schema/schema.go\<close>

text \<open>\<open>http.CanonicalHeaderKey\<close>: unchanged when a byte is not allowed in a header name.\<close>

definition token_char :: "char \<Rightarrow> bool" where
  "token_char c \<longleftrightarrow>
     (let n = of_char c :: nat
      in 48 \<le> n \<and> n \<le> 57 \<or> 65 \<le> n \<and> n \<le> 90 \<or> 97 \<le> n \<and> n \<le> 122
         \<or> c \<in> set ''!#$%&*+-.^_|~'' \<or> n = 39 \<or> n = 96)"

fun canonical :: "bool \<Rightarrow> string \<Rightarrow> string" where
  "canonical up [] = []"
| "canonical up (c # s) = (if up then upper c else lower c) # canonical (c = CHR ''-'') s"

definition CanonicalHeaderKey :: "string \<Rightarrow> string" where
  "CanonicalHeaderKey s = (if list_all token_char s then canonical True s else s)"

fun add_headers :: "md \<Rightarrow> (string \<rightharpoonup> string list) \<Rightarrow> string \<rightharpoonup> string list" where
  "add_headers [] out = out"
| "add_headers ((k, vals) # kvs) out = add_headers kvs (out(CanonicalHeaderKey k \<mapsto> vals))"

text \<open>\<open>NewHeaders\<close> ranges over the lower-case metadata; \<open>keys\<close> is the order of that range.\<close>

definition NewHeaders :: "string list \<Rightarrow> (string \<rightharpoonup> string list) \<Rightarrow> string \<rightharpoonup> string list" where
  "NewHeaders keys headers = add_headers (map (\<lambda>k. (k, the (headers k))) keys) Map.empty"

text \<open>Times are in nanoseconds since the epoch.\<close>

record timestamp =
  Seconds :: int
  Nanos :: int

definition timestamppb_New :: "int \<Rightarrow> timestamp" where
  "timestamppb_New t = \<lparr>Seconds = t div 1000000000, Nanos = t mod 1000000000\<rparr>"

record IDToken =
  tok_Subject :: string
  tok_Issuer :: string
  tok_Audience :: "string list"
  tok_IssuedAt :: int
  tok_Expiry :: int

record JWT =
  jwt_Subject :: string
  Email :: string
  EmailVerified :: bool
  Groups :: "string list"
  jwt_Issuer :: string
  jwt_Audience :: "string list"
  jwt_IssuedAt :: timestamp
  jwt_Expiry :: timestamp

definition NewJWT :: "IDToken option \<Rightarrow> JWT option" where
  "NewJWT t =
     (case t of
        None \<Rightarrow> None
      | Some token \<Rightarrow> Some \<lparr>jwt_Subject = tok_Subject token, Email = [], EmailVerified = False, Groups = [],
          jwt_Issuer = tok_Issuer token, jwt_Audience = tok_Audience token,
          jwt_IssuedAt = timestamppb_New (tok_IssuedAt token), jwt_Expiry = timestamppb_New (tok_Expiry token)\<rparr>)"

record pkix_name =
  Country :: "string list"
  Organization :: "string list"
  OrganizationalUnit :: "string list"
  Locality :: "string list"
  Province :: "string list"
  StreetAddress :: "string list"
  PostalCode :: "string list"
  name_SerialNumber :: string
  CommonName :: string

text \<open>\<open>tlsName\<close> copies the fields one by one into a message of the same shape.\<close>

definition tlsName :: "pkix_name \<Rightarrow> pkix_name" where
  "tlsName n = \<lparr>Country = Country n, Organization = Organization n, OrganizationalUnit = OrganizationalUnit n,
     Locality = Locality n, Province = Province n, StreetAddress = StreetAddress n, PostalCode = PostalCode n,
     name_SerialNumber = name_SerialNumber n, CommonName = CommonName n\<rparr>"

record ('ip, 'url) certificate =
  Version :: int
  SerialNumber :: int
  Issuer :: pkix_name
  Subject :: pkix_name
  NotBefore :: int
  NotAfter :: int
  IsCA :: bool
  DNSNames :: "string list"
  EmailAddresses :: "string list"
  IPAddresses :: "'ip list"
  URIs :: "'url list"

record TLS_message =
  tls_Version :: uint64
  tls_SerialNumber :: uint64
  tls_Issuer :: pkix_name
  tls_Subject :: pkix_name
  tls_NotBefore :: timestamp
  tls_NotAfter :: timestamp
  IsCa :: bool
  DnsNames :: "string list"
  tls_EmailAddresses :: "string list"
  IpAddresses :: "string list"
  Uris :: "string list"

definition ipaddresses :: "('ip \<Rightarrow> string) \<Rightarrow> 'ip list \<Rightarrow> string list" where
  "ipaddresses ipString input = map ipString input"

definition uris :: "('url \<Rightarrow> string) \<Rightarrow> 'url list \<Rightarrow> string list" where
  "uris urlString input = map urlString input"

text \<open>\<open>big.Int.Uint64\<close> keeps the low 64 bits of the absolute value.\<close>

definition big_Uint64 :: "int \<Rightarrow> uint64" where
  "big_Uint64 x = word_of_int \<bar>x\<bar>"

definition NewTLS :: "('ip \<Rightarrow> string) \<Rightarrow> ('url \<Rightarrow> string) \<Rightarrow> ('ip, 'url) certificate \<Rightarrow> TLS_message" where
  "NewTLS ipString urlString c = \<lparr>tls_Version = word_of_int (Version c),
     tls_SerialNumber = big_Uint64 (SerialNumber c), tls_Issuer = tlsName (Issuer c), tls_Subject = tlsName (Subject c),
     tls_NotBefore = timestamppb_New (NotBefore c), tls_NotAfter = timestamppb_New (NotAfter c), IsCa = IsCA c,
     DnsNames = DNSNames c, tls_EmailAddresses = EmailAddresses c,
     IpAddresses = ipaddresses ipString (IPAddresses c), Uris = uris urlString (URIs c)\<rparr>"

record GrpcRequest =
  Service :: string
  Method :: string
  Headers :: "(string \<rightharpoonup> string list) option"
  Tls :: "TLS_message option"
  Jwt :: "JWT option"

section \<open>oidc/oidc.go\<close>

definition is_space :: "char \<Rightarrow> bool" where
  "is_space c \<longleftrightarrow> (let n = of_char c :: nat in 9 \<le> n \<and> n \<le> 13 \<or> n = 32)"

text \<open>
  \<open>fmt.Sscanf(s, "Bearer %s", &token)\<close> on ASCII text: the word, at least one space, and then the token up to the
  next space, with no line break before it; what follows the token is left over.
\<close>

definition scan_bearer :: "string \<Rightarrow> string option" where
  "scan_bearer s =
     (if HasPrefix s ''Bearer'' then
        (case drop 6 s of
           [] \<Rightarrow> None
         | c # r \<Rightarrow>
             if \<not> is_space c then None
             else (case dropWhile (\<lambda>d. is_space d \<and> d \<noteq> CHR 0x0A) (c # r) of
                     [] \<Rightarrow> None
                   | d # t \<Rightarrow> if d = CHR 0x0A then None else Some (takeWhile (\<lambda>x. \<not> is_space x) (d # t))))
      else None)"

record 'v TokenExtractor =
  header :: string
  verifier :: "'v option"
  clientID :: string
  skipClientIDCheck :: bool

definition WithSkipClientIDCheck :: "'v TokenExtractor \<Rightarrow> 'v TokenExtractor" where
  "WithSkipClientIDCheck te = te\<lparr>clientID := [], skipClientIDCheck := True\<rparr>"

definition WithAuthHeader :: "string \<Rightarrow> 'v TokenExtractor \<Rightarrow> 'v TokenExtractor" where
  "WithAuthHeader h te = te\<lparr>header := h\<rparr>"

text \<open>\<open>provider\<close> is \<open>oidc.NewProvider\<close> followed by \<open>Verifier\<close>.\<close>

definition newOIDCVerifier :: "(string \<Rightarrow> string \<Rightarrow> bool \<Rightarrow> 'v result) \<Rightarrow> string \<Rightarrow> string \<Rightarrow> bool \<Rightarrow> 'v result" where
  "newOIDCVerifier provider jwtIssuerURL jwtClientID skip =
     (if jwtIssuerURL = [] then Inl (ErrNew ''jwtIssuerURL must not be empty'')
      else provider jwtIssuerURL jwtClientID skip)"

definition NewTokenExtractor ::
  "(string \<Rightarrow> string \<Rightarrow> bool \<Rightarrow> 'v result) \<Rightarrow> string \<Rightarrow> string \<Rightarrow>
   ('v TokenExtractor \<Rightarrow> 'v TokenExtractor) list \<Rightarrow> 'v TokenExtractor result" where
  "NewTokenExtractor provider jwtIssuerURL cid opts =
     (let te = fold (\<lambda>opt t. opt t) opts
                 \<lparr>header = CanonicalHeaderKey ''Authorization'', verifier = None, clientID = cid, skipClientIDCheck = False\<rparr>
      in case newOIDCVerifier provider jwtIssuerURL (clientID te) (skipClientIDCheck te) of
           Inl e \<Rightarrow> Inl e
         | Inr v \<Rightarrow> Inr (te\<lparr>verifier := Some v\<rparr>))"

definition header_missing :: "string \<Rightarrow> go_error" where
  "header_missing h = ErrNew (''authorization header '' @ [CHR 0x27] @ h @ [CHR 0x27] @ '' is missing'')"

text \<open>\<open>Extract\<close>, with \<open>verify\<close> for \<open>Verify\<close> of the verifier; a nil verifier cannot be called.\<close>

definition Extract ::
  "('v \<Rightarrow> string \<Rightarrow> IDToken result) \<Rightarrow> 'v TokenExtractor \<Rightarrow> (string \<rightharpoonup> string list) option \<Rightarrow>
   (IDToken option \<times> go_error option) outcome" where
  "Extract verify te mdo =
     (case mdo of
        None \<Rightarrow> Ret (None, Some (ErrNew ''no metadata to extract token from''))
      | Some m \<Rightarrow>
          (case m (header te) of
             None \<Rightarrow> Ret (None, Some (header_missing (header te)))
           | Some [] \<Rightarrow> Ret (None, Some (header_missing (header te)))
           | Some (h # _) \<Rightarrow>
               (case scan_bearer h of
                  None \<Rightarrow> Ret (None, Some (ErrNew ''malformed authorization header''))
                | Some token \<Rightarrow>
                    (case verifier te of
                       None \<Rightarrow> Panic nil_dereference
                     | Some v \<Rightarrow>
                         (case verify v token of
                            Inl e \<Rightarrow> Ret (None, Some (ErrWrap ''invalid token: '' e))
                          | Inr parsed \<Rightarrow> Ret (Some parsed, None))))))"

section \<open>interceptor/cel_authorizer.go\<close>

datatype TokenFormat = TokenFormatInvalid | TokenFormatNone | TokenFormatJWT

definition ParseTokenFormat :: "string \<Rightarrow> TokenFormat \<times> go_error option" where
  "ParseTokenFormat input =
     (if ToLower input = ''none'' then (TokenFormatNone, None)
      else if ToLower input = ''jwt'' then (TokenFormatJWT, None)
      else (TokenFormatInvalid, Some (ErrNew (''cannot parse TokenFormat: '' @ input))))"

type_synonym token_extractor = "(string \<rightharpoonup> string list) option \<Rightarrow> (IDToken option \<times> go_error option) outcome"

record 'prog celAuthorizer =
  authTokenFormat :: TokenFormat
  rule :: 'prog
  tokenExtractor :: "token_extractor option"
  requireToken :: bool

definition WithTokenExtractor :: "token_extractor option \<Rightarrow> bool \<Rightarrow> 'prog celAuthorizer \<Rightarrow> 'prog celAuthorizer" where
  "WithTokenExtractor te req ca =
     ca\<lparr>authTokenFormat := TokenFormatJWT, tokenExtractor := te, requireToken := req\<rparr>"

text \<open>
  \<open>newEnv\<close> and \<open>compile\<close> are the steps of \<open>compileCelProgram\<close> that can fail, \<open>program\<close> the last of them. A value
  of a CEL expression is a boolean or something else.
\<close>

datatype cel_value = CelBool bool | CelOther string

record ('env, 'ast, 'prog, 'ip, 'url) cel =
  newEnv :: "'env result"
  compile :: "'env \<Rightarrow> string \<Rightarrow> 'ast result"
  program :: "'env \<Rightarrow> 'ast \<Rightarrow> 'prog result"
  ContextEval :: "'prog \<Rightarrow> GrpcRequest \<Rightarrow> cel_value result"
  ipText :: "'ip \<Rightarrow> string"
  urlText :: "'url \<Rightarrow> string"
  headerOrder :: "(string \<rightharpoonup> string list) \<Rightarrow> string list"

definition compileCelProgram :: "('env, 'ast, 'prog, 'ip, 'url) cel \<Rightarrow> string \<Rightarrow> 'prog result" where
  "compileCelProgram cl r =
     (case newEnv cl of
        Inl e \<Rightarrow> Inl e
      | Inr env \<Rightarrow> (case compile cl env r of Inl e \<Rightarrow> Inl e | Inr ast \<Rightarrow> program cl env ast))"

definition NewCelAuthorizer ::
  "('env, 'ast, 'prog, 'ip, 'url) cel \<Rightarrow> string \<Rightarrow> ('prog celAuthorizer \<Rightarrow> 'prog celAuthorizer) list \<Rightarrow>
   'prog celAuthorizer result" where
  "NewCelAuthorizer cl r opts =
     (case compileCelProgram cl r of
        Inl e \<Rightarrow> Inl e
      | Inr p \<Rightarrow> Inr (fold (\<lambda>opt a. opt a) opts
          \<lparr>authTokenFormat = TokenFormatNone, rule = p, tokenExtractor = None, requireToken = False\<rparr>))"

text \<open>The TLS part of the request: the first certificate of a peer that came over TLS.\<close>

definition peer_tls ::
  "('env, 'ast, 'prog, 'ip, 'url) cel \<Rightarrow> ('ip, 'url) certificate ctx \<Rightarrow> TLS_message option" where
  "peer_tls cl c =
     (case peer c of
        None \<Rightarrow> None
      | Some p \<Rightarrow> (case AuthInfo p of
                    TLSInfo (cert # _) \<Rightarrow> Some (NewTLS (ipText cl) (urlText cl) cert)
                  | _ \<Rightarrow> None))"

definition eval_policy :: "('env, 'ast, 'prog, 'ip, 'url) cel \<Rightarrow> 'prog \<Rightarrow> GrpcRequest \<Rightarrow> bool \<times> go_error option" where
  "eval_policy cl p req =
     (case ContextEval cl p req of
        Inl e \<Rightarrow> (False, Some (ErrWrap ''policy evaluation failed: '' e))
      | Inr out \<Rightarrow> if out = CelBool True then (True, None) else (False, Some (ErrNew ''policy denied'')))"

definition Check ::
  "('env, 'ast, 'prog, 'ip, 'url) cel \<Rightarrow> 'prog celAuthorizer \<Rightarrow> ('ip, 'url) certificate ctx \<Rightarrow> string \<Rightarrow> string \<Rightarrow>
   (bool \<times> go_error option) outcome" where
  "Check cl a c svc meth =
     (let m = FromIncomingContext c;
          hs = map_option (\<lambda>h. NewHeaders (headerOrder cl h) h) m;
          req = (\<lambda>token. \<lparr>Service = svc, Method = meth, Headers = hs, Tls = peer_tls cl c, Jwt = NewJWT token\<rparr>)
      in if authTokenFormat a = TokenFormatJWT
         then (case tokenExtractor a of
                 None \<Rightarrow> Panic nil_dereference
               | Some ex \<Rightarrow>
                   (case ex m of
                      Panic p \<Rightarrow> Panic p
                    | Ret (token, err) \<Rightarrow>
                        (case err of
                           Some e \<Rightarrow> if requireToken a
                                     then Ret (False, Some (ErrWrap ''failed to extract JWT: '' e))
                                     else Ret (eval_policy cl (rule a) (req token))
                         | None \<Rightarrow> Ret (eval_policy cl (rule a) (req token)))))
         else Ret (eval_policy cl (rule a) (req None)))"

section \<open>interceptor/interceptor.go and authorizer.go\<close>

definition splitMethod :: "string \<Rightarrow> string \<times> string" where
  "splitMethod fullMethod =
     (let m = TrimPrefix fullMethod ''/''
      in case Index m ''/'' of
           Some i \<Rightarrow> (take i m, drop (i + 1) m)
         | None \<Rightarrow> (''unknown'', ''unknown''))"

type_synonym 'c authorizer = "'c \<Rightarrow> string \<Rightarrow> string \<Rightarrow> (bool \<times> go_error option) outcome"

text \<open>A refusal without an error would be a nil dereference in \<open>err.Error()\<close>.\<close>

definition denied :: "go_error option \<Rightarrow> ('a option \<times> rpc_error option) outcome" where
  "denied err =
     (case err of
        None \<Rightarrow> Panic nil_dereference
      | Some e \<Rightarrow> Ret (None, Some (StatusError PermissionDenied (''authorization failed: '' @ Error e))))"

definition NewAuthorizerUnaryServerInterceptor :: "'c authorizer \<Rightarrow> ('c, 'q, 'a, 'w) unary_interceptor" where
  "NewAuthorizerUnaryServerInterceptor a c req fullMethod handler w =
     (case splitMethod fullMethod of
        (svc, meth) \<Rightarrow>
          (case a c svc meth of
             Panic p \<Rightarrow> (Panic p, w)
           | Ret (ok, err) \<Rightarrow> if \<not> ok then (denied err, w) else handler c req w))"

text \<open>The stream interceptor takes the context from the stream, which it passes on unchanged.\<close>

definition NewAuthorizerStreamServerInterceptor ::
  "'c authorizer \<Rightarrow> ('s \<Rightarrow> 'c) \<Rightarrow> 's \<Rightarrow> string \<Rightarrow> ('s \<Rightarrow> 'w \<Rightarrow> (unit option \<times> rpc_error option) outcome \<times> 'w) \<Rightarrow>
   'w \<Rightarrow> (unit option \<times> rpc_error option) outcome \<times> 'w" where
  "NewAuthorizerStreamServerInterceptor a stream_ctx ss fullMethod handler w =
     (case splitMethod fullMethod of
        (svc, meth) \<Rightarrow>
          (case a (stream_ctx ss) svc meth of
             Panic p \<Rightarrow> (Panic p, w)
           | Ret (ok, err) \<Rightarrow> if \<not> ok then (denied err, w) else handler ss w))"

definition NewAuthorizer :: "('env, 'ast, 'prog, 'ip, 'url) cel \<Rightarrow> string \<Rightarrow> 'prog celAuthorizer result" where
  "NewAuthorizer cl r = NewCelAuthorizer cl r []"

definition authorizer_Weight :: uint64 where
  "authorizer_Weight = 70"

definition NewGrpcAuthorizerServerInterceptors where
  "NewGrpcAuthorizerServerInterceptors a stream_ctx =
     (\<lparr>Weight = authorizer_Weight, Interceptor = NewAuthorizerUnaryServerInterceptor a\<rparr>,
      \<lparr>Weight = authorizer_Weight, Interceptor = NewAuthorizerStreamServerInterceptor a stream_ctx\<rparr>)"

section \<open>The interface of authorizers\<close>

text \<open>The interceptors rely on one law: a refusal comes with an error.\<close>

locale authorizer =
  fixes a :: "'c authorizer"
  assumes refusal_has_error: "a c s m \<noteq> Ret (False, None)"
begin

lemma unary_cases:
  "(\<exists>err. a c (fst (splitMethod fm)) (snd (splitMethod fm)) = Ret (True, err)
      \<and> NewAuthorizerUnaryServerInterceptor a c req fm h w = h c req w)
   \<or> (\<exists>e. a c (fst (splitMethod fm)) (snd (splitMethod fm)) = Ret (False, Some e)
      \<and> NewAuthorizerUnaryServerInterceptor a c req fm h w
        = (Ret (None, Some (StatusError PermissionDenied (''authorization failed: '' @ Error e))), w))
   \<or> (\<exists>p. a c (fst (splitMethod fm)) (snd (splitMethod fm)) = Panic p
      \<and> NewAuthorizerUnaryServerInterceptor a c req fm h w = (Panic p, w))"
  using refusal_has_error [of c "fst (splitMethod fm)" "snd (splitMethod fm)"]
  by (auto simp: NewAuthorizerUnaryServerInterceptor_def denied_def case_prod_unfold split: outcome.splits option.splits prod.splits)

lemma stream_cases:
  "(\<exists>err. a (sc ss) (fst (splitMethod fm)) (snd (splitMethod fm)) = Ret (True, err)
      \<and> NewAuthorizerStreamServerInterceptor a sc ss fm h w = h ss w)
   \<or> (\<exists>e. a (sc ss) (fst (splitMethod fm)) (snd (splitMethod fm)) = Ret (False, Some e)
      \<and> NewAuthorizerStreamServerInterceptor a sc ss fm h w
        = (Ret (None, Some (StatusError PermissionDenied (''authorization failed: '' @ Error e))), w))
   \<or> (\<exists>p. a (sc ss) (fst (splitMethod fm)) (snd (splitMethod fm)) = Panic p
      \<and> NewAuthorizerStreamServerInterceptor a sc ss fm h w = (Panic p, w))"
  using refusal_has_error [of "sc ss" "fst (splitMethod fm)" "snd (splitMethod fm)"]
  by (auto simp: NewAuthorizerStreamServerInterceptor_def denied_def case_prod_unfold split: outcome.splits option.splits prod.splits)

end

lemma eval_policy_error: "eval_policy cl p req = (ok, err) \<Longrightarrow> ok \<longleftrightarrow> err = None"
  by (auto simp: eval_policy_def split: sum.splits if_splits)

lemma Check_error: "Check cl a c s m = Ret (ok, err) \<Longrightarrow> ok \<longleftrightarrow> err = None"
  by (auto simp: Check_def Let_def dest!: eval_policy_error split: if_splits option.splits outcome.splits)

interpretation cel: authorizer "Check cl a" for cl a
  by unfold_locales (metis Check_error)

section \<open>What a policy is asked\<close>

text \<open>The request built from a context, and the token as the configuration obtains it.\<close>

definition request ::
  "('env, 'ast, 'prog, 'ip, 'url) cel \<Rightarrow> ('ip, 'url) certificate ctx \<Rightarrow> string \<Rightarrow> string \<Rightarrow> IDToken option \<Rightarrow> GrpcRequest" where
  "request cl c s m token =
     \<lparr>Service = s, Method = m, Headers = map_option (\<lambda>h. NewHeaders (headerOrder cl h) h) (FromIncomingContext c),
      Tls = peer_tls cl c, Jwt = NewJWT token\<rparr>"

definition token_ok :: "'prog celAuthorizer \<Rightarrow> ('ip, 'url) certificate ctx \<Rightarrow> IDToken option \<Rightarrow> bool" where
  "token_ok a c token \<longleftrightarrow>
     (if authTokenFormat a = TokenFormatJWT
      then \<exists>ex err. tokenExtractor a = Some ex \<and> ex (FromIncomingContext c) = Ret (token, err)
             \<and> (requireToken a \<longrightarrow> err = None)
      else token = None)"

text \<open>
  \<open>Check\<close> allows a request exactly if the policy evaluates to the boolean true on the request built from the
  context, with the token the extractor returned; an error of the extractor counts as a refusal when
  a token is required, and any other value or error of the policy is a refusal.
\<close>

lemma Check_allows:
  "Check cl a c s m = Ret (True, err) \<longleftrightarrow>
     err = None \<and> (\<exists>token. token_ok a c token \<and> ContextEval cl (rule a) (request cl c s m token) = Inr (CelBool True))"
  by (auto simp: Check_def token_ok_def request_def eval_policy_def Let_def
      split: if_splits option.splits outcome.splits sum.splits)

lemma canonical_Authorization: "CanonicalHeaderKey ''Authorization'' = ''Authorization''"
  by code_simp

lemma Authorization_not_lower: "ToLower ''Authorization'' \<noteq> ''Authorization''"
  by code_simp

lemma Extract_missing:
  "FromIncomingContext c = mdo \<Longrightarrow> ToLower (header te) \<noteq> header te \<Longrightarrow>
     \<exists>e. Extract verify te mdo = Ret (None, Some e)"
  by (cases mdo) (auto simp: Extract_def dest: FromIncomingContext_lower)

lemma scan_bearer_roundtrip:
  assumes "token \<noteq> []" and "list_all (\<lambda>x. \<not> is_space x) token"
  shows "scan_bearer (''Bearer '' @ token @ rest) =
    Some (token @ takeWhile (\<lambda>x. \<not> is_space x) rest)"
proof -
  obtain d t where tok: "token = d # t" using assms(1) by (cases token) auto
  have tw: "takeWhile (\<lambda>x. \<not> is_space x) (token @ rest) = token @ takeWhile (\<lambda>x. \<not> is_space x) rest"
    using assms(2) by (simp add: list_all_iff)
  have "\<not> is_space d" "d \<noteq> CHR 0x0A" using assms(2) tok by (auto simp: is_space_def)
  then show ?thesis using tok tw by (simp add: scan_bearer_def HasPrefix_def is_space_def)
qed

section \<open>Properties\<close>

text \<open>An example: the policy allows the service health, and everyone with the subject admin.\<close>

definition example_cel :: "(unit, string, unit, string, string) cel" where
  "example_cel = \<lparr>newEnv = Inr (), compile = (\<lambda>_ r. Inr r), program = (\<lambda>_ _. Inr ()),
     ContextEval = (\<lambda>_ req. Inr (CelBool (Service req = ''health'' \<or>
       (\<exists>j \<in> set_option (Jwt req). jwt_Subject j = ''admin'')))),
     ipText = id, urlText = id, headerOrder = (\<lambda>_. [])\<rparr>"

definition example_authorizer :: "unit celAuthorizer" where
  "example_authorizer = \<lparr>authTokenFormat = TokenFormatNone, rule = (), tokenExtractor = None, requireToken = False\<rparr>"

definition example_ctx :: "(string, string) certificate ctx" where
  "example_ctx = \<lparr>trace_value = None, span_trace = None, logger_value = None,
     incoming = Some [(''authorization'', [''Bearer abc''])], outgoing = [], Deadline = None, peer = None\<rparr>"

text \<open>
  C1: The authorization interceptors fail closed. For the CEL authorizer, a unary or stream call reaches its
  handler exactly if \<open>Check\<close> returned true for its service and method; a refusal is the status
  PermissionDenied with the reason and changes nothing else; there is no third way but a panic inside
  the check itself.
\<close>

theorem authorizer_fail_closed:
  "((\<exists>err. Check cl a c (fst (splitMethod fm)) (snd (splitMethod fm)) = Ret (True, err)
        \<and> NewAuthorizerUnaryServerInterceptor (Check cl a) c req fm h w = h c req w)
     \<or> (\<exists>e. Check cl a c (fst (splitMethod fm)) (snd (splitMethod fm)) = Ret (False, Some e)
        \<and> NewAuthorizerUnaryServerInterceptor (Check cl a) c req fm h w
          = (Ret (None, Some (StatusError PermissionDenied (''authorization failed: '' @ Error e))), w))
     \<or> (\<exists>p. Check cl a c (fst (splitMethod fm)) (snd (splitMethod fm)) = Panic p
        \<and> NewAuthorizerUnaryServerInterceptor (Check cl a) c req fm h w = (Panic p, w)))
   \<and> ((\<exists>err. Check cl a (sc ss) (fst (splitMethod fm)) (snd (splitMethod fm)) = Ret (True, err)
        \<and> NewAuthorizerStreamServerInterceptor (Check cl a) sc ss fm hs w = hs ss w)
     \<or> (\<exists>e. Check cl a (sc ss) (fst (splitMethod fm)) (snd (splitMethod fm)) = Ret (False, Some e)
        \<and> NewAuthorizerStreamServerInterceptor (Check cl a) sc ss fm hs w
          = (Ret (None, Some (StatusError PermissionDenied (''authorization failed: '' @ Error e))), w))
     \<or> (\<exists>p. Check cl a (sc ss) (fst (splitMethod fm)) (snd (splitMethod fm)) = Panic p
        \<and> NewAuthorizerStreamServerInterceptor (Check cl a) sc ss fm hs w = (Panic p, w)))"
  by (rule conjI [OF cel.unary_cases cel.stream_cases])

text \<open>
  C39: With the default header, no token is ever found: \<open>NewTokenExtractor\<close> looks up Authorization, and the metadata
  that reaches it has only lower-case keys. An authorizer that requires a token with such an extractor
  refuses every request, whatever its headers, its token and the policy.
\<close>

theorem default_header_denies_all:
  assumes "NewTokenExtractor provider url cid opts = Inr te" and "set opts \<subseteq> {WithSkipClientIDCheck}"
  shows "\<exists>e. Check cl (WithTokenExtractor (Some (Extract verify te)) True a) c s m = Ret (False, Some e)"
proof -
  have "header (fold (\<lambda>opt t. opt t) opts t) = header t" for t
    using assms(2) by (induction opts arbitrary: t) (auto simp: WithSkipClientIDCheck_def)
  then have "header te = ''Authorization''"
    using assms(1) by (auto simp: NewTokenExtractor_def canonical_Authorization Let_def split: sum.splits)
  then have "ToLower (header te) \<noteq> header te" using Authorization_not_lower by simp
  then obtain e where "Extract verify te (FromIncomingContext c) = Ret (None, Some e)"
    using Extract_missing by blast
  then show ?thesis by (simp add: Check_def WithTokenExtractor_def Let_def)
qed

theorem default_header_denies_all_witness:
  "\<exists>te e. NewTokenExtractor (\<lambda>_ _ _. Inr ()) ''https://issuer'' ''client'' [] = Inr te
    \<and> Check example_cel (WithTokenExtractor (Some (Extract (\<lambda>_ _. Inr \<lparr>tok_Subject = ''admin'', tok_Issuer = [], tok_Audience = [],
        tok_IssuedAt = 0, tok_Expiry = 1\<rparr>) te)) True example_authorizer) example_ctx ''svc'' ''m'' = Ret (False, Some e)"
proof -
  obtain te where te: "NewTokenExtractor (\<lambda>_ _ _. Inr ()) ''https://issuer'' ''client'' [] = Inr te"
    by (simp add: NewTokenExtractor_def newOIDCVerifier_def Let_def)
  then show ?thesis using default_header_denies_all [OF te] by auto
qed

text \<open>
  \<open>Extract\<close> returns a token only together with a nil error, and only one that the verifier accepted for the
  text behind the word Bearer in the first value of the configured header; conversely a header with
  that word, a space and a token without spaces hands exactly that token to the verifier.
\<close>

theorem Extract_verified:
  assumes "verifier te = Some v"
  shows "(Extract verify te mdo = Ret (Some tok, err) \<longleftrightarrow>
      err = None \<and> (\<exists>m h hs s. mdo = Some m \<and> m (header te) = Some (h # hs) \<and> scan_bearer h = Some s \<and> verify v s = Inr tok))
    \<and> (token \<noteq> [] \<and> list_all (\<lambda>x. \<not> is_space x) token \<longrightarrow> scan_bearer (''Bearer '' @ token) = Some token)"
  using scan_bearer_roundtrip [of token "[]"] assms
  by (auto simp: Extract_def split: option.splits list.splits sum.splits)

theorem Extract_verified_witness:
  "scan_bearer (''Bearer '' @ ''abc'') = Some ''abc''"
  using Extract_verified [of "\<lparr>header = ''authorization'', verifier = Some (), clientID = [], skipClientIDCheck = True\<rparr>" "()"
      "\<lambda>_ _. Inl (ErrNew [])" None undefined None "''abc''"]
  by (simp add: is_space_def)

text \<open>
  What a policy cannot see: the groups and the e-mail of a token are always empty, and certificates whose
  serial numbers agree in their low 64 bits and that agree in all other fields look the same.
\<close>

theorem policy_blind_spots:
  assumes "Jwt (request cl c s m token) = Some j"
    and "\<bar>SerialNumber x\<bar> mod 2 ^ 64 = \<bar>SerialNumber y\<bar> mod 2 ^ 64"
    and "x\<lparr>SerialNumber := 0\<rparr> = y\<lparr>SerialNumber := 0\<rparr>"
  shows "Groups j = [] \<and> Email j = [] \<and> NewTLS ip url x = NewTLS ip url y"
proof -
  have "(word_of_int \<bar>SerialNumber x\<bar> :: uint64) = word_of_int \<bar>SerialNumber y\<bar>"
    using assms(2) by (simp add: word_of_int_eq_iff take_bit_eq_mod)
  moreover have "Groups j = []" "Email j = []"
    using assms(1) by (auto simp: request_def NewJWT_def split: option.splits)
  ultimately show ?thesis
    using assms(3) by (cases x; cases y) (simp add: NewTLS_def big_Uint64_def)
qed

definition example_cert :: "int \<Rightarrow> (string, string) certificate" where
  "example_cert n = (let nm = \<lparr>Country = [], Organization = [], OrganizationalUnit = [], Locality = [], Province = [],
       StreetAddress = [], PostalCode = [], name_SerialNumber = [], CommonName = ''client''\<rparr>
     in \<lparr>Version = 3, SerialNumber = n, Issuer = nm, Subject = nm, NotBefore = 0, NotAfter = 1, IsCA = False,
         DNSNames = [], EmailAddresses = [], IPAddresses = [], URIs = []\<rparr>)"

theorem policy_blind_spots_witness:
  "NewTLS id id (example_cert 1) = NewTLS id id (example_cert (2 ^ 64 + 1))"
proof -
  let ?t = "\<lparr>tok_Subject = ''admin'', tok_Issuer = [], tok_Audience = [], tok_IssuedAt = 0, tok_Expiry = 1\<rparr>"
  obtain j where "Jwt (request example_cel example_ctx ''s'' ''m'' (Some ?t)) = Some j"
    by (simp add: request_def NewJWT_def)
  then show ?thesis
    using policy_blind_spots [of example_cel example_ctx "''s''" "''m''" "Some ?t" j "example_cert 1" "example_cert (2 ^ 64 + 1)" id id]
    by (simp add: example_cert_def Let_def)
qed

end
