(* ===== verification/Chains.thy ===== *)
theory Chains
  imports Authorizer LoggingSetup Tracing
begin

text \<open>
  The chains that several modules make together: the unary and the stream interceptors of tracing, logging, metrics
  and authorization in the order of their weights, and the metadata that travels between the interceptors of a
  client and those of a server.
\<close>

section \<open>The unary chain\<close>

text \<open>
  The group of unary server interceptors that the authorizer, the logging, the tracing and the metrics module
  provide; \<open>tr\<close> and \<open>me\<close> are the interceptors of otelgrpc and of the prometheus middleware.
\<close>

definition server_group ::
  "'q log_env \<Rightarrow> logger \<Rightarrow> 'cert ctx authorizer \<Rightarrow> ('cert ctx, 'q, 'a, 'x world) unary_interceptor \<Rightarrow>
   ('cert ctx, 'q, 'a, 'x world) unary_interceptor \<Rightarrow> ('cert ctx, 'q, 'a, 'x world) unary_interceptor weighted list" where
  "server_group env lg a tr me =
     [\<lparr>Weight = authorizer_Weight, Interceptor = NewAuthorizerUnaryServerInterceptor a\<rparr>,
      \<lparr>Weight = metrics_Weight, Interceptor = me\<rparr>,
      \<lparr>Weight = logging_Weight, Interceptor = NewLoggingUnaryServerInterceptor env lg []\<rparr>,
      \<lparr>Weight = logging_Weight - 1, Interceptor = NewInjectLoggerUnaryServerInterceptor env lg\<rparr>,
      \<lparr>Weight = tracing_Weight, Interceptor = tr\<rparr>]"

lemma server_group_constructors:
  assumes "trace_NewGrpcServerInterceptors unary stream tp = Inr (t, ts)"
    and "metrics_NewGrpcServerInterceptors register unary' stream' mc reg = Inr (m, ms)"
  shows "server_group env lg a (Interceptor t) (Interceptor m) =
     [fst (NewGrpcAuthorizerServerInterceptors a stream_ctx), m, fst (NewGrpcLoggingServerInterceptors env lg []),
      fst (NewGrpcInjectLoggerInterceptors env lg), t]"
  using assms
  by (auto simp: server_group_def NewGrpcAuthorizerServerInterceptors_def NewGrpcLoggingServerInterceptors_def
      NewGrpcInjectLoggerInterceptors_def trace_NewGrpcServerInterceptors_def metrics_NewGrpcServerInterceptors_def
      Let_def split: sum.splits)

text \<open>
  Whatever the order in which the entries arrive: the span is started first, then the logger is put into the
  context, then the call is logged, measured and authorized.
\<close>

lemma server_group_chain:
  assumes "mset ws = mset (server_group env lg a tr me)"
  shows "UnaryServerInterceptors pdq (map Some ws) =
    Ret [tr, NewInjectLoggerUnaryServerInterceptor env lg, NewLoggingUnaryServerInterceptor env lg [], me,
         NewAuthorizerUnaryServerInterceptor a]"
proof -
  have "length ws = 5" using mset_eq_length [OF assms] by (simp add: server_group_def)
  moreover have "sort_key Weight ws = rev (server_group env lg a tr me)"
    using insertion.srt_unique [of "rev (server_group env lg a tr me)" ws Weight] assms
    by (simp add: insertionSort_eq_sort_key server_group_def authorizer_Weight_def logging_Weight_def
        tracing_Weight_def metrics_Weight_def)
  ultimately show ?thesis
    using sorted_chain_stable [of ws pdq] by (simp add: chain_defs maxInsertion_def server_group_def)
qed

text \<open>
  An interceptor that only observes: it calls the handler once, with the same request, headers, peer and logger,
  returns what the handler returns, and changes neither the log nor the state of the application. It may
  start a span, whose trace id is not empty. This is what otelgrpc and the prometheus middleware document.
\<close>

definition same_request :: "'cert ctx \<Rightarrow> 'cert ctx \<Rightarrow> bool" where
  "same_request c c1 \<longleftrightarrow> incoming c1 = incoming c \<and> peer c1 = peer c \<and> logger_value c1 = logger_value c
     \<and> (span_trace c \<noteq> Some [] \<longrightarrow> span_trace c1 \<noteq> Some [])"

definition observes :: "('cert ctx, 'q, 'a, 'x world) unary_interceptor \<Rightarrow> bool" where
  "observes ix \<longleftrightarrow> (\<forall>c q fm h w. \<exists>c1 w1. same_request c c1 \<and> outside w1 = outside w \<and> logs w1 = logs w
     \<and> (\<forall>resp err w2. h c1 q w1 = (Ret (resp, err), w2) \<longrightarrow>
          (\<exists>w3. ix c q fm h w = (Ret (resp, err), w3) \<and> outside w3 = outside w2 \<and> logs w3 = logs w2)))"

lemma observesE:
  assumes "observes ix"
  obtains c1 w1 where "same_request c c1" "outside w1 = outside w" "logs w1 = logs w"
    "\<And>resp err w2. h c1 q w1 = (Ret (resp, err), w2) \<Longrightarrow>
       \<exists>w3. ix c q fm h w = (Ret (resp, err), w3) \<and> outside w3 = outside w2 \<and> logs w3 = logs w2"
  using assms unfolding observes_def by metis

lemma Check_context:
  "incoming c1 = incoming c \<Longrightarrow> peer c1 = peer c \<Longrightarrow> Check cl a c1 = Check cl a c"
  by (intro ext) (simp add: Check_def FromIncomingContext_def peer_tls_def)

lemma end_entry_same: "same_request c c1 \<Longrightarrow> end_entry info c1 tid err e = end_entry info c tid err e"
  by (simp add: end_entry_def peerService_def FromIncomingContext_def same_request_def)

text \<open>What happens around the last interceptor or handler \<open>h\<close>.\<close>

lemma observed_chain:
  fixes w :: "'x world" and env :: "'q log_env"
  assumes "observes tr" and "observes me" and "wf_ctx c" and "span_trace c \<noteq> Some []"
  obtains tid c1 w1 where "LoggerFromContext c1 = Some (lg @ [String ''otlp.trace_id'' tid])"
    "incoming c1 = incoming c" "peer c1 = peer c" "outside w1 = outside w" "logs w1 = logs w"
    "\<And>resp err w2. h c1 req w1 = (Ret (resp, err), w2) \<Longrightarrow>
       \<exists>e w3. chain_handler [tr, NewInjectLoggerUnaryServerInterceptor env lg, NewLoggingUnaryServerInterceptor env lg [], me]
             fm h c req w = (Ret (resp, err), w3)
         \<and> outside w3 = outside w2 \<and> logs w3 = logs w2 @ [e] \<and> end_entry (UnaryServer fm) c1 tid err e"
proof -
  let ?measured = "\<lambda>c q. me c q fm h"
  let ?logged = "\<lambda>c q. NewInjectLoggerUnaryServerInterceptor env lg c q fm
      (\<lambda>c q. NewLoggingUnaryServerInterceptor env lg [] c q fm ?measured)"
  obtain c0 w0 where tr: "same_request c c0" "outside w0 = outside w" "logs w0 = logs w"
    "\<And>resp err w2. ?logged c0 req w0 = (Ret (resp, err), w2) \<Longrightarrow>
       \<exists>w3. tr c req fm ?logged w = (Ret (resp, err), w3) \<and> outside w3 = outside w2 \<and> logs w3 = logs w2"
    by (rule observesE [OF assms(1), where c = c and w = w and h = ?logged and q = req and fm = fm]) blast
  have c0: "wf_ctx c0" "span_trace c0 \<noteq> Some []" using tr(1) assms(3,4) by (auto simp: same_request_def wf_ctx_def)
  obtain tid c1 w1 where lg: "LoggerFromContext c1 = Some (lg @ [String ''otlp.trace_id'' tid])"
    "incoming c1 = incoming c0" "peer c1 = peer c0" "outside w1 = outside w0" "logs w1 = logs w0"
    "\<And>resp err w2. ?measured c1 req w1 = (Ret (resp, err), w2) \<Longrightarrow>
       \<exists>e w3. ?logged c0 req w0 = (Ret (resp, err), w3) \<and> outside w3 = outside w2 \<and> logs w3 = logs w2 @ [e]
         \<and> end_entry (UnaryServer fm) c1 tid err e"
    by (rule injected_logging [OF c0 refl, where env = env and ?lg0.0 = lg and lg = lg and req = req and fm = fm
          and h = ?measured and w = w0]) blast
  obtain c2 w2 where me: "same_request c1 c2" "outside w2 = outside w1" "logs w2 = logs w1"
    "\<And>resp err w3. h c2 req w2 = (Ret (resp, err), w3) \<Longrightarrow>
       \<exists>w4. ?measured c1 req w1 = (Ret (resp, err), w4) \<and> outside w4 = outside w3 \<and> logs w4 = logs w3"
    by (rule observesE [OF assms(2), where c = c1 and w = w1 and h = h and q = req and fm = fm]) blast
  show ?thesis
  proof (rule that [of c2 tid w2])
    fix resp err w3
    assume "h c2 req w2 = (Ret (resp, err), w3)"
    then obtain w4 where w4: "?measured c1 req w1 = (Ret (resp, err), w4)" "outside w4 = outside w3" "logs w4 = logs w3"
      using me(4) by blast
    obtain e w5 where e: "?logged c0 req w0 = (Ret (resp, err), w5)" "outside w5 = outside w4" "logs w5 = logs w4 @ [e]"
      "end_entry (UnaryServer fm) c1 tid err e"
      using lg(6) [OF w4(1)] by blast
    from tr(4) [OF e(1)] e w4 show "\<exists>e w3'. chain_handler [tr, NewInjectLoggerUnaryServerInterceptor env lg,
             NewLoggingUnaryServerInterceptor env lg [], me] fm h c req w = (Ret (resp, err), w3')
         \<and> outside w3' = outside w3 \<and> logs w3' = logs w3 @ [e] \<and> end_entry (UnaryServer fm) c2 tid err e"
      by (auto simp: end_entry_same [OF me(1)])
  qed (use tr(1-3) lg(1-5) me(1-3) in \<open>simp_all add: same_request_def LoggerFromContext_def\<close>)
qed

section \<open>The stream chain\<close>

text \<open>
  A handler of streams is a program, and so is the handler behind the authorizer. The interceptors of streams
  that the modules provide, by name, and the call through them in the order of their weights.
\<close>

definition authorized :: "'c authorizer \<Rightarrow> string \<Rightarrow> ('c \<Rightarrow> ('x, 'r, 's) prog) \<Rightarrow> 'c \<Rightarrow> ('x, 'r, 's) prog" where
  "authorized a fm h c =
     (case a c (fst (Authorizer.splitMethod fm)) (snd (Authorizer.splitMethod fm)) of
        Panic p \<Rightarrow> Crash p
      | Ret (ok, err) \<Rightarrow>
          if \<not> ok then (case (denied err :: (unit option \<times> rpc_error option) outcome) of Panic p \<Rightarrow> Crash p | Ret (_, e) \<Rightarrow> Return e)
          else h c)"

text \<open>On every stream, this is what the stream interceptor of the authorizer does.\<close>

definition as_call :: "rpc_error option outcome \<Rightarrow> (unit option \<times> rpc_error option) outcome" where
  "as_call r = map_outcome (Pair None) r"

lemma authorized_run:
  "apfst as_call (run ss (authorized a fm h c) st) =
     NewAuthorizerStreamServerInterceptor a (\<lambda>_. c) ss fm (\<lambda>ss st. apfst as_call (run ss (h c) st)) st"
  by (auto simp: authorized_def NewAuthorizerStreamServerInterceptor_def as_call_def denied_def case_prod_unfold
      split: outcome.splits option.splits)

datatype stream_interceptor = TraceStream | InjectLogger | LogStream | MeasureStream | Authorize

definition stream_group :: "stream_interceptor weighted list" where
  "stream_group =
     [\<lparr>Weight = authorizer_Weight, Interceptor = Authorize\<rparr>, \<lparr>Weight = metrics_Weight, Interceptor = MeasureStream\<rparr>,
      \<lparr>Weight = logging_Weight, Interceptor = LogStream\<rparr>, \<lparr>Weight = logging_Weight - 1, Interceptor = InjectLogger\<rparr>,
      \<lparr>Weight = tracing_Weight, Interceptor = TraceStream\<rparr>]"

lemma stream_group_chain:
  assumes "mset ws = mset stream_group"
  shows "StreamServerInterceptors pdq (map Some ws) = Ret [TraceStream, InjectLogger, LogStream, MeasureStream, Authorize]"
proof -
  have "length ws = 5" using mset_eq_length [OF assms] by (simp add: stream_group_def)
  moreover have "sort_key Weight ws = rev stream_group"
    using insertion.srt_unique [of "rev stream_group" ws Weight] assms
    by (simp add: insertionSort_eq_sort_key stream_group_def authorizer_Weight_def logging_Weight_def
        tracing_Weight_def metrics_Weight_def)
  ultimately show ?thesis
    using sorted_chain_stable [of ws pdq] by (simp add: chain_defs maxInsertion_def stream_group_def)
qed

text \<open>
  The interceptors of otelgrpc and prometheus only observe a stream, too: they call the handler once, on a
  stream on which every program runs as on the one they were given, and return what it returns.
\<close>

type_synonym ('c, 'st, 'q, 's) stream_handler = "'c \<Rightarrow> ('st, 'st, 'q, 's) stream \<Rightarrow> 'st \<Rightarrow> rpc_error option outcome \<times> 'st"

definition observes_stream ::
  "('cert ctx \<Rightarrow> ('x world, 'x world, 'q, 's) stream \<Rightarrow> string \<Rightarrow> ('cert ctx, 'x world, 'q, 's) stream_handler \<Rightarrow>
    'x world \<Rightarrow> rpc_error option outcome \<times> 'x world) \<Rightarrow> bool" where
  "observes_stream ix \<longleftrightarrow> (\<forall>c ss fm h w. \<exists>c1 ss1 w1. same_request c c1 \<and> run ss1 = run ss \<and> outside w1 = outside w \<and> logs w1 = logs w
     \<and> (\<forall>err w2. h c1 ss1 w1 = (Ret err, w2) \<longrightarrow>
          (\<exists>w3. ix c ss fm h w = (Ret err, w3) \<and> outside w3 = outside w2 \<and> logs w3 = logs w2)))"

definition observes_prog ::
  "(string \<Rightarrow> ('cert ctx \<Rightarrow> ('x world, 'q, 's) prog) \<Rightarrow> 'cert ctx \<Rightarrow> ('x world, 'q, 's) prog) \<Rightarrow>
   ('x world, 'x world, 'q, 's) stream \<Rightarrow> bool" where
  "observes_prog ix ss \<longleftrightarrow> (\<forall>c fm h w. \<exists>c1 w1. same_request c c1 \<and> outside w1 = outside w \<and> logs w1 = logs w
     \<and> (\<forall>err w2. run ss (h c1) w1 = (Ret err, w2) \<longrightarrow>
          (\<exists>w3. run ss (ix fm h c) w = (Ret err, w3) \<and> outside w3 = outside w2 \<and> logs w3 = logs w2)))"

lemma observes_streamE:
  assumes "observes_stream ix"
  obtains c1 ss1 w1 where "same_request c c1" "run ss1 = run ss" "outside w1 = outside w" "logs w1 = logs w"
    "\<And>err w2. h c1 ss1 w1 = (Ret err, w2) \<Longrightarrow> \<exists>w3. ix c ss fm h w = (Ret err, w3) \<and> outside w3 = outside w2 \<and> logs w3 = logs w2"
  using assms unfolding observes_stream_def by metis

lemma observes_progE:
  assumes "observes_prog ix ss"
  obtains c1 w1 where "same_request c c1" "outside w1 = outside w" "logs w1 = logs w"
    "\<And>err w2. run ss (h c1) w1 = (Ret err, w2) \<Longrightarrow>
       \<exists>w3. run ss (ix fm h c) w = (Ret err, w3) \<and> outside w3 = outside w2 \<and> logs w3 = logs w2"
  using assms unfolding observes_prog_def by metis

definition logged_stream ::
  "'q log_env \<Rightarrow> logger \<Rightarrow> string \<Rightarrow> ('cert ctx \<Rightarrow> ('x world, 'q, 's) prog) \<Rightarrow> ('cert ctx, 'x world, 'q, 's) stream_handler" where
  "logged_stream env lg fm h c ss w =
     NewInjectLoggerStreamServerInterceptor env lg c ss (\<lambda>c1 ss1. NewLoggingStreamServerInterceptor env lg [] c1 ss1 fm h) w"

lemma stream_logged:
  fixes w :: "'x world" and env :: "'q log_env"
  assumes "wf_ctx c" and "span_trace c \<noteq> Some []"
  obtains tid c1 w1 where "LoggerFromContext c1 = Some (lg @ [String ''otlp.trace_id'' tid])"
    "incoming c1 = incoming c" "peer c1 = peer c" "outside w1 = outside w" "logs w1 = logs w"
    "\<And>err w2. run ss (h c1) w1 = (Ret err, w2) \<Longrightarrow>
       \<exists>e w3. logged_stream env lg fm h c ss w = (Ret err, w3) \<and> outside w3 = outside w2 \<and> logs w3 = logs w2 @ [e]
         \<and> end_entry (StreamServer fm) c1 tid err e"
proof -
  obtain c1 w0 where inj: "inject_logger env lg c w = (c1, w0)" by fastforce
  from traceIdFromContext_injected [OF inj assms(2)] obtain tid where
    tid: "LoggerFromContext c1 = Some (lg @ [String ''otlp.trace_id'' tid])"
      "\<And>w' :: 'x world. traceIdFromContext env c1 w' = ((tid, True), w')" "incoming c1 = incoming c" "peer c1 = peer c"
      "outside w0 = outside w" "logs w0 = logs w" by blast
  have wf: "wf_ctx c1" using assms(1) tid(3) by (simp add: wf_ctx_def)
  have ix: "NewLoggingStreamServerInterceptor env lg [] c1 ss fm h w0 = logged_stream env lg fm h c ss w"
    using inj by (simp add: logged_stream_def NewInjectLoggerStreamServerInterceptor_def)
  obtain w1 where w1: "outside w1 = outside w0" "logs w1 = logs w0"
    "\<And>err w2. run ss (h c1) w1 = (Ret err, w2) \<Longrightarrow>
       \<exists>e w3. logged_stream env lg fm h c ss w = (Ret err, w3) \<and> outside w3 = outside w2 \<and> logs w3 = logs w2 @ [e]
         \<and> end_entry (StreamServer fm) c1 (fst (fst (traceIdFromContext env c1 w2))) err e"
    by (rule default_stream_logging [OF wf ix]) blast
  show ?thesis by (rule that [OF tid(1,3,4) _ _ w1(3) [unfolded tid(2) fst_conv]]) (use w1 tid in simp_all)
qed

definition stream_call where
  "stream_call env lg a tr me fm h c ss w = tr c ss fm (logged_stream env lg fm (me fm (authorized a fm h))) w"

lemma stream_call_logged:
  fixes w :: "'x world" and env :: "'q log_env"
  assumes "observes_stream tr" and "observes_prog me ss" and "wf_ctx c" and "span_trace c \<noteq> Some []"
  obtains tid c1 w1 where "LoggerFromContext c1 = Some (lg @ [String ''otlp.trace_id'' tid])"
    "incoming c1 = incoming c" "peer c1 = peer c" "outside w1 = outside w" "logs w1 = logs w"
    "\<And>err w2. run ss (authorized a fm h c1) w1 = (Ret err, w2) \<Longrightarrow>
       \<exists>e w3. stream_call env lg a tr me fm h c ss w = (Ret err, w3) \<and> outside w3 = outside w2 \<and> logs w3 = logs w2 @ [e]
         \<and> end_entry (StreamServer fm) c1 tid err e"
proof -
  let ?measured = "me fm (authorized a fm h)"
  obtain c0 ss0 w0 where tr: "same_request c c0" "run ss0 = run ss" "outside w0 = outside w" "logs w0 = logs w"
    "\<And>err w2. logged_stream env lg fm ?measured c0 ss0 w0 = (Ret err, w2) \<Longrightarrow>
       \<exists>w3. stream_call env lg a tr me fm h c ss w = (Ret err, w3) \<and> outside w3 = outside w2 \<and> logs w3 = logs w2"
    unfolding stream_call_def
    by (rule observes_streamE [OF assms(1), where c = c and ss = ss and w = w and h = "logged_stream env lg fm ?measured" and fm = fm]) blast
  have c0: "wf_ctx c0" "span_trace c0 \<noteq> Some []" using tr(1) assms(3,4) by (auto simp: same_request_def wf_ctx_def)
  obtain tid c1 w1 where lg: "LoggerFromContext c1 = Some (lg @ [String ''otlp.trace_id'' tid])"
    "incoming c1 = incoming c0" "peer c1 = peer c0" "outside w1 = outside w0" "logs w1 = logs w0"
    "\<And>err w2. run ss0 (?measured c1) w1 = (Ret err, w2) \<Longrightarrow>
       \<exists>e w3. logged_stream env lg fm ?measured c0 ss0 w0 = (Ret err, w3) \<and> outside w3 = outside w2 \<and> logs w3 = logs w2 @ [e]
         \<and> end_entry (StreamServer fm) c1 tid err e"
    by (rule stream_logged [OF c0, where w = w0 and env = env and lg = lg and fm = fm and h = ?measured and ss = ss0]) blast
  obtain c2 w2 where me: "same_request c1 c2" "outside w2 = outside w1" "logs w2 = logs w1"
    "\<And>err w3. run ss (authorized a fm h c2) w2 = (Ret err, w3) \<Longrightarrow>
       \<exists>w4. run ss (?measured c1) w1 = (Ret err, w4) \<and> outside w4 = outside w3 \<and> logs w4 = logs w3"
    by (rule observes_progE [OF assms(2), where c = c1 and w = w1 and h = "authorized a fm h" and fm = fm]) blast
  show ?thesis
  proof (rule that [of c2 tid w2])
    fix err w3
    assume "run ss (authorized a fm h c2) w2 = (Ret err, w3)"
    then obtain w4 where w4: "run ss (?measured c1) w1 = (Ret err, w4)" "outside w4 = outside w3" "logs w4 = logs w3"
      using me(4) by blast
    then obtain e w5 where e: "logged_stream env lg fm ?measured c0 ss0 w0 = (Ret err, w5)" "outside w5 = outside w4"
      "logs w5 = logs w4 @ [e]" "end_entry (StreamServer fm) c1 tid err e" using lg(6) tr(2) by metis
    from tr(5) [OF e(1)] e w4 show "\<exists>e w3'. stream_call env lg a tr me fm h c ss w = (Ret err, w3')
         \<and> outside w3' = outside w3 \<and> logs w3' = logs w3 @ [e] \<and> end_entry (StreamServer fm) c2 tid err e"
      by (auto simp: end_entry_same [OF me(1)])
  qed (use tr(1-4) lg(1-5) me(1-3) in \<open>simp_all add: same_request_def LoggerFromContext_def\<close>)
qed

section \<open>Metadata between client and server\<close>

text \<open>
  gRPC delivers the metadata that a client attached under a key that is not reserved: the values given for it, in
  order. What else the server finds in its metadata is left open.
\<close>

definition delivered :: "string \<Rightarrow> 'c ctx \<Rightarrow> 'd ctx \<Rightarrow> bool" where
  "delivered k c sc \<longleftrightarrow> wf_ctx sc \<and> (\<exists>m. FromIncomingContext sc = Some m
     \<and> m k = (let vs = map snd (filter (\<lambda>kv. fst kv = k) (outgoing c)) in if vs = [] then None else Some vs))"

lemma peer_delivered:
  assumes "delivered peerServiceMDKey (AppendToOutgoingContext peerServiceMDKey svc c) sc"
  shows "peerService sc = Ret (Some svc)"
proof -
  have "ToLower peerServiceMDKey = peerServiceMDKey" by code_simp
  with assms show ?thesis by (auto simp: delivered_def peerService_def AppendToOutgoingContext_def Let_def)
qed

end
