(* ===== verification/Wiring.thy ===== *)
theory Wiring
  imports Tracing
begin

text \<open>
  How the modules are put together: the fx options that each \<open>NewModule\<close> function returns, as data, and the
  resolution of constructors by type, name and value group that fx performs on them
  (src/vendor/go.uber.org/fx and go.uber.org/dig). A constructor is known by what it takes and what it gives.
\<close>

section \<open>Options\<close>

text \<open>The Go types that occur as parameters and results.\<close>

datatype go_type =
    TLifecycle | TShutdowner | TAppConfig | TLogger | TLoggingConfig | TZapOption | TInterceptorOption
   | TFxLoggerOption | TUnaryServerInterceptor | TStreamServerInterceptor | TUnaryClientInterceptor
   | TStreamClientInterceptor | TGrpcConfig | TGrpcServer | TServiceRegistrar | TServiceInfoProvider
   | TGrpcServerTuple | TServerOption | THttpServerConfig | THttpServer | THttpServerTuple | TCertReloader
   | TCertReloaderConfig | TClientConfig | TClientConn | TDialOption | TTransportCredentials
   | TConnManagerConfig | TConnManager | TMetricsConfig | TPushMetricsConfig | TOtlpMetricsConfig | TRegistry
   | TServerMetrics | THistogramOptions | TPusher | TMeterProvider | TTracingConfig | TTracerProvider
   | TSentryConfig | TSentryClient | TPprofConfig | THealthServer | TAuthorizerConfig | TAuthorizer
   | TRouteGuideServer | TDependency | TJob

text \<open>A value is asked for by type and name (empty when there is none), or as the members of a group.\<close>

datatype key = Single go_type string | Group go_type string

record ctor =
  takes :: "key list"
  optional :: "key list"
  gives :: "key list"

datatype fx_option =
    Provide bool "ctor list"
  | Invoke "ctor list"
  | WithLogger ctor
  | Decorate ctor
  | Module string "fx_option list"
  | Options "fx_option list"

abbreviation one :: "go_type \<Rightarrow> key" where
  "one t \<equiv> Single t []"

definition ctor_of :: "key list \<Rightarrow> key list \<Rightarrow> ctor" where
  "ctor_of ks gs = \<lparr>takes = ks, optional = [], gives = gs\<rparr>"

definition supplied :: "key \<Rightarrow> ctor" where
  "supplied k = \<lparr>takes = [], optional = [], gives = [k]\<rparr>"

section \<open>The modules\<close>

subsection \<open>fxlogging\<close>

definition SetGrpcLogger :: ctor where
  "SetGrpcLogger = ctor_of [one TLogger] []"

definition logging_NewModule :: fx_option where
  "logging_NewModule =
     Options
       [WithLogger (ctor_of [one TLogger, Group TFxLoggerOption ''fxlogger_opts''] []),
        Module ''logging''
          [Provide False
             [ctor_of [one TLoggingConfig, one TLifecycle, Group TZapOption ''zap_opts''] [one TLogger],
              ctor_of [one TLogger, Group TInterceptorOption ''logging_server_interceptor_options'']
                [Group TUnaryServerInterceptor ''unary_server_interceptor'', Group TStreamServerInterceptor ''stream_server_interceptor''],
              ctor_of [one TLogger, Group TInterceptorOption ''logging_client_interceptor_options'']
                [Group TUnaryClientInterceptor ''unary_client_interceptor'', Group TStreamClientInterceptor ''stream_client_interceptor''],
              ctor_of [one TLogger]
                [Group TUnaryServerInterceptor ''unary_server_interceptor'', Group TStreamServerInterceptor ''stream_server_interceptor''],
              ctor_of []
                [Group TUnaryClientInterceptor ''unary_client_interceptor'', Group TStreamClientInterceptor ''stream_client_interceptor'']],
           Provide True [supplied (one TLoggingConfig)]]]"

subsection \<open>fxcert-reloader and fxhttp\<close>

definition reloader_ctor :: "string \<Rightarrow> ctor" where
  "reloader_ctor name =
     ctor_of [one TLifecycle, Single TCertReloaderConfig name, one TLogger] [Single TCertReloader name]"

definition http_server_options :: "bool \<Rightarrow> string \<Rightarrow> fx_option list" where
  "http_server_options sec name =
     [Provide True [supplied (one THttpServerConfig)],
      Provide False
        [\<lparr>takes = [one TLifecycle, one THttpServerConfig], optional = [one TCertReloader], gives = [Single THttpServer name]\<rparr>,
         ctor_of [Single THttpServer name, one THttpServerConfig] [Single THttpServerTuple name]]] @
     (if sec
      then [Provide True [ctor_of [one THttpServerConfig] [one TCertReloaderConfig], reloader_ctor []]]
      else [])"

text \<open>The options of a server module, of fxhttp and of fxgrpc alike: the last name that is given counts.\<close>

record serverModuleOpts =
  modName :: string

type_synonym serverModuleOption = "serverModuleOpts \<Rightarrow> serverModuleOpts"

definition WithServerModuleName :: "string \<Rightarrow> serverModuleOption" where
  "WithServerModuleName name opts = opts\<lparr>modName := name\<rparr>"

definition modOpts :: "serverModuleOption list \<Rightarrow> serverModuleOpts" where
  "modOpts sOpts = fold (\<lambda>opt opts. opt opts) sOpts \<lparr>modName = []\<rparr>"

lemma modOpts_name [simp]: "modName (modOpts []) = []" "modName (modOpts [WithServerModuleName name]) = name"
  by (simp_all add: modOpts_def WithServerModuleName_def)

definition http_NewModule :: "Server \<Rightarrow> serverModuleOption list \<Rightarrow> fx_option" where
  "http_NewModule cf sOpts = Module ''http'' (http_server_options (TLS cf) (modName (modOpts sOpts)))"

definition StartHttpServer_ctor :: "string \<Rightarrow> ctor" where
  "StartHttpServer_ctor name = ctor_of [one TLifecycle, Single THttpServerTuple name, one TLogger] []"

definition http_NewNamedModule :: "string \<Rightarrow> Server \<Rightarrow> fx_option" where
  "http_NewNamedModule name cf = Options [http_NewModule cf [WithServerModuleName name], Invoke [StartHttpServer_ctor name]]"

subsection \<open>fxgrpc\<close>

definition NewGrpcServer_ctor :: ctor where
  "NewGrpcServer_ctor =
     \<lparr>takes = [one TGrpcConfig, Group TUnaryServerInterceptor ''unary_server_interceptor'',
               Group TStreamServerInterceptor ''stream_server_interceptor'', Group TServerOption ''grpc_server_options''],
      optional = [Single TCertReloader ''grpc_server''], gives = [one TGrpcServer]\<rparr>"

definition grpc_server_options :: "bool \<Rightarrow> string \<Rightarrow> fx_option list" where
  "grpc_server_options sec name =
     [Provide True [supplied (one TGrpcConfig)],
      Provide True [supplied (Single THttpServerConfig ''grpc_server'')],
      Provide True [NewGrpcServer_ctor],
      Invoke [SetGrpcLogger],
      Provide False
        [ctor_of [one TGrpcServer, one TGrpcConfig] [Single TGrpcServerTuple name],
         ctor_of [Single TGrpcServerTuple name] [Single TServiceRegistrar name],
         ctor_of [Single TGrpcServerTuple name] [Single TServiceInfoProvider name]],
      Invoke [ctor_of [Single TGrpcServerTuple name] []]] @
     (if sec
      then [Provide True [ctor_of [one TGrpcConfig] [Single TCertReloaderConfig ''grpc_server''], reloader_ctor ''grpc_server'']]
      else [])"

definition grpc_NewServerModule :: "Server \<Rightarrow> serverModuleOption list \<Rightarrow> fx_option" where
  "grpc_NewServerModule cf sOpts = Module ''grpc-server'' (grpc_server_options (TLS cf) (modName (modOpts sOpts)))"

definition StartGrpcServer_ctor :: "string \<Rightarrow> ctor" where
  "StartGrpcServer_ctor name = ctor_of [one TLifecycle, one TLogger, Single TGrpcServerTuple name] []"

definition ProvideGrpcClient_ctor :: "string \<Rightarrow> ctor" where
  "ProvideGrpcClient_ctor name =
     ctor_of [one TLifecycle, one TClientConfig, one TLogger, Group TUnaryClientInterceptor ''unary_client_interceptor'',
              Group TStreamClientInterceptor ''stream_client_interceptor'', Group TDialOption ''grpc_client_options'']
       [Single TClientConn name]"

definition grpc_NewClientModule :: fx_option where
  "grpc_NewClientModule =
     Module ''grpc-client''
       [Provide True [supplied (one TClientConfig)], Provide False [ProvideGrpcClient_ctor []], Invoke [SetGrpcLogger]]"

definition grpc_NewNamedClientModule :: "string \<Rightarrow> fx_option" where
  "grpc_NewNamedClientModule name =
     Module name
       [Provide True [supplied (one TClientConfig)], Provide False [ProvideGrpcClient_ctor name], Invoke [SetGrpcLogger]]"

definition NewConnManagerModule :: fx_option where
  "NewConnManagerModule =
     Module ''grpc-conn-manager''
       [Provide False [supplied (one TConnManagerConfig)],
        Provide True
          [ctor_of [one TConnManagerConfig] [Single TClientConfig ''grpc_conn_manager''],
           ctor_of [Single TClientConfig ''grpc_conn_manager'', one TLogger]
             [one TTransportCredentials, Single TCertReloader ''grpc_conn_manager''],
           ctor_of [one TTransportCredentials] [Group TDialOption ''grpc_client_options''],
           ctor_of [Group TStreamClientInterceptor ''stream_client_interceptors''] [Group TDialOption ''grpc_client_options''],
           ctor_of [Group TUnaryClientInterceptor ''unary_client_interceptors''] [Group TDialOption ''grpc_client_options'']],
        Provide False
          [\<lparr>takes = [one TLifecycle, Group TDialOption ''grpc_client_options'', Group TUnaryClientInterceptor ''unary_client_interceptor'',
                     Group TStreamClientInterceptor ''stream_client_interceptor''],
            optional = [Single TCertReloader ''grpc_conn_manager''], gives = [one TConnManager]\<rparr>]]"

definition health_Module :: fx_option where
  "health_Module =
     Module ''grpc-healthcheck''
       [Provide False [ctor_of [] [one THealthServer]],
        Invoke [ctor_of [one THealthServer, one TServiceRegistrar] []]]"

definition reflection_Module :: fx_option where
  "reflection_Module = Options []"

definition grpctest_Module :: fx_option where
  "grpctest_Module =
     Module ''grpc-test''
       [Provide False
          [ctor_of [one TLifecycle, Group TUnaryServerInterceptor ''unary_server_interceptor'',
                    Group TStreamServerInterceptor ''stream_server_interceptor'', Group TUnaryClientInterceptor ''unary_client_interceptor'',
                    Group TStreamClientInterceptor ''stream_client_interceptor'']
             [one TGrpcServer, one TClientConn],
           ctor_of [one TGrpcServer] [one TServiceRegistrar]]]"

subsection \<open>fxmetrics\<close>

definition NewPrometheusRegistry_ctor :: ctor where
  "NewPrometheusRegistry_ctor = ctor_of [one TMetricsConfig] [one TRegistry]"

definition metrics_server_ctor :: ctor where
  "metrics_server_ctor =
     \<lparr>takes = [one TMetricsConfig, one TRegistry], optional = [one THistogramOptions],
      gives = [Group TUnaryServerInterceptor ''unary_server_interceptor'', Group TStreamServerInterceptor ''stream_server_interceptor'',
               one TServerMetrics]\<rparr>"

definition metrics_client_ctor :: ctor where
  "metrics_client_ctor =
     ctor_of [one TRegistry]
       [Group TUnaryClientInterceptor ''unary_client_interceptor'', Group TStreamClientInterceptor ''stream_client_interceptor'']"

definition metrics_options :: "bool \<Rightarrow> fx_option list" where
  "metrics_options sec =
     [Provide True [supplied (one TMetricsConfig)],
      Module ''http'' (http_server_options sec ''metrics''),
      Provide False [NewPrometheusRegistry_ctor, metrics_server_ctor, metrics_client_ctor],
      Invoke [ctor_of [one TRegistry, Single THttpServer ''metrics''] [], StartHttpServer_ctor ''metrics'']]"

definition metrics_NewModule :: "Metrics \<Rightarrow> fx_option" where
  "metrics_NewModule cf = Module ''metrics'' (metrics_options (TLS (met_Server cf)))"

definition push_options :: "bool \<Rightarrow> bool \<Rightarrow> fx_option list" where
  "push_options endpoint certs =
     [Provide True [supplied (one TPushMetricsConfig)],
      Provide False [NewPrometheusRegistry_ctor, metrics_server_ctor, metrics_client_ctor],
      Provide True [ctor_of [one TPushMetricsConfig] [one TMetricsConfig]]] @
     (if endpoint
      then [Provide False
              [\<lparr>takes = [one TLifecycle, one TPushMetricsConfig, one TLogger], optional = [Single TCertReloader ''metrics_pusher''],
                gives = [one TPusher]\<rparr>],
            Invoke [ctor_of [one TRegistry, one TPusher] []]] @
           (if certs
            then [Provide True [ctor_of [one TPushMetricsConfig] [Single TCertReloaderConfig ''metrics_pusher''], reloader_ctor ''metrics_pusher'']]
            else [])
      else [])"

definition NewPushModule :: "PushMetrics \<Rightarrow> fx_option" where
  "NewPushModule m = Options (push_options (push_Endpoint m \<noteq> []) (push_CertFile m \<noteq> []))"

definition NewOtlpModule :: fx_option where
  "NewOtlpModule =
     Options
       [Provide True [supplied (one TOtlpMetricsConfig)],
        Provide True [supplied (one TMetricsConfig)],
        Provide False
          [NewPrometheusRegistry_ctor,
           ctor_of [one TLifecycle, one TOtlpMetricsConfig, one TRegistry, one TLogger] [one TMeterProvider],
           metrics_server_ctor, metrics_client_ctor],
        Invoke [ctor_of [one TLifecycle, one TMeterProvider] []]]"

subsection \<open>fxtracing, fxsentry, fxpprof, fxauthorizer\<close>

definition tracing_NewModule :: fx_option where
  "tracing_NewModule =
     Module ''tracing''
       [Provide True [supplied (one TTracingConfig)],
        Provide False
          [ctor_of [one TLifecycle, one TTracingConfig, one TLogger] [one TTracerProvider],
           ctor_of [one TTracerProvider]
             [Group TUnaryServerInterceptor ''unary_server_interceptor'', Group TStreamServerInterceptor ''stream_server_interceptor''],
           ctor_of [one TTracerProvider]
             [Group TUnaryClientInterceptor ''unary_client_interceptor'', Group TStreamClientInterceptor ''stream_client_interceptor'']]]"

definition sentry_NewModule :: fx_option where
  "sentry_NewModule =
     Options
       [Provide True [supplied (one TSentryConfig)],
        Provide False [ctor_of [one TLifecycle, one TSentryConfig] [one TSentryClient]],
        Decorate (ctor_of [one TLogger, one TSentryClient] [one TLogger])]"

datatype pprof_mode = PprofFiles | PprofServer bool | PprofOff

definition pprof_options :: "pprof_mode \<Rightarrow> fx_option" where
  "pprof_options m =
     (case m of
        PprofFiles \<Rightarrow> Module ''pprof'' [Provide True [supplied (one TPprofConfig)], Invoke [ctor_of [one TLifecycle, one TPprofConfig] []]]
      | PprofServer sec \<Rightarrow>
          Module ''pprof''
            [Provide True [supplied (one TPprofConfig)],
             Module ''http'' (http_server_options sec ''pprof''),
             Invoke [ctor_of [Single THttpServer ''pprof''] [], StartHttpServer_ctor ''pprof'']]
      | PprofOff \<Rightarrow> Options [])"

definition pprof_NewModule :: "Pprof \<Rightarrow> fx_option" where
  "pprof_NewModule p =
     pprof_options (if GenerateFiles p \<noteq> [] then PprofFiles else if pprof_Enabled p then PprofServer (TLS (pprof_Server p)) else PprofOff)"

definition authorizer_NewModule :: fx_option where
  "authorizer_NewModule =
     Module ''authorizer''
       [Provide False
          [ctor_of [one TAuthorizerConfig] [one TAuthorizer],
           ctor_of [one TAuthorizer]
             [Group TUnaryServerInterceptor ''unary_server_interceptor'', Group TStreamServerInterceptor ''stream_server_interceptor'']],
        Provide True [supplied (one TAuthorizerConfig)]]"

section \<open>The systems of the examples\<close>

definition server_createSystem :: "Server \<Rightarrow> Pprof \<Rightarrow> Metrics \<Rightarrow> fx_option" where
  "server_createSystem gs pp mt =
     Options
       [Provide False [supplied (one TAppConfig)],
        logging_NewModule, pprof_NewModule pp, metrics_NewModule mt, tracing_NewModule, sentry_NewModule,
        grpc_NewServerModule gs [], health_Module,
        Provide False [ctor_of [] [one TRouteGuideServer]],
        Invoke [ctor_of [one TServiceRegistrar, one TRouteGuideServer] [], StartGrpcServer_ctor []]]"

definition job_createSystem :: fx_option where
  "job_createSystem =
     Options
       [Provide False [supplied (one TAppConfig)],
        logging_NewModule, tracing_NewModule, sentry_NewModule,
        Provide False
          [ctor_of [one TLifecycle, one TAppConfig] [one TDependency],
           ctor_of [one TDependency, one TLogger] [one TJob]],
        Invoke [ctor_of [one TLifecycle, one TShutdowner, one TJob, one TLogger] []]]"

section \<open>Resolution\<close>

text \<open>
  A module is a scope, named by its position; a private constructor is seen from its scope and below, any other
  from everywhere. Its own parameters are resolved in its scope.
\<close>

record provider =
  scope :: "nat list"
  is_private :: bool
  built :: ctor

record app =
  providers :: "provider list"
  invokes :: "(nat list \<times> ctor) list"
  decorators :: "(nat list \<times> ctor) list"

definition app_append :: "app \<Rightarrow> app \<Rightarrow> app" where
  "app_append a b = \<lparr>providers = providers a @ providers b, invokes = invokes a @ invokes b, decorators = decorators a @ decorators b\<rparr>"

definition no_app :: app where
  "no_app = \<lparr>providers = [], invokes = [], decorators = []\<rparr>"

text \<open>\<open>s\<close> is the scope and \<open>q\<close> the position, which becomes the scope inside a module.\<close>

fun flatten :: "nat list \<Rightarrow> nat list \<Rightarrow> fx_option \<Rightarrow> app" and flatten_list :: "nat list \<Rightarrow> nat list \<Rightarrow> nat \<Rightarrow> fx_option list \<Rightarrow> app" where
  "flatten s q (Provide pr cs) = no_app\<lparr>providers := map (\<lambda>c. \<lparr>scope = s, is_private = pr, built = c\<rparr>) cs\<rparr>"
| "flatten s q (Invoke cs) = no_app\<lparr>invokes := map (\<lambda>c. (s, c)) cs\<rparr>"
| "flatten s q (WithLogger c) = no_app\<lparr>invokes := [(s, c)]\<rparr>"
| "flatten s q (Decorate c) = no_app\<lparr>decorators := [(s, c)]\<rparr>"
| "flatten s q (Module _ os) = flatten_list q q 0 os"
| "flatten s q (Options os) = flatten_list s q 0 os"
| "flatten_list s q n [] = no_app"
| "flatten_list s q n (opt # os) = app_append (flatten s (q @ [n]) opt) (flatten_list s q (Suc n) os)"

definition app_of :: "fx_option \<Rightarrow> app" where
  "app_of opt = flatten [] [] opt"

text \<open>Keys are compared type first.\<close>

fun key_eq :: "key \<Rightarrow> key \<Rightarrow> bool" where
  "key_eq (Single t n) (Single t' n') = (if t = t' then n = n' else False)"
| "key_eq (Group t n) (Group t' n') = (if t = t' then n = n' else False)"
| "key_eq _ _ = False"

lemma key_eq_iff: "key_eq k k' \<longleftrightarrow> k = k'"
  by (cases k; cases k') auto

text \<open>The constructors of every key, as the container keeps them.\<close>

type_synonym catalog = "(key \<times> provider list) list"

fun find_key :: "key \<Rightarrow> catalog \<Rightarrow> provider list" where
  "find_key k [] = []"
| "find_key k ((k', ps) # cat) = (if key_eq k k' then ps else find_key k cat)"

fun add_key :: "provider \<Rightarrow> key \<Rightarrow> catalog \<Rightarrow> catalog" where
  "add_key p k [] = [(k, [p])]"
| "add_key p k ((k', ps) # cat) = (if key_eq k k' then (k', ps @ [p]) # cat else (k', ps) # add_key p k cat)"

definition catalog_of :: "provider list \<Rightarrow> catalog" where
  "catalog_of ps = fold (\<lambda>p. fold (add_key p) (gives (built p))) ps []"

lemma find_add_key: "find_key k (add_key p k' cat) = (if k = k' then find_key k cat @ [p] else find_key k cat)"
  by (induction p k' cat rule: add_key.induct) (auto simp: key_eq_iff)

lemma find_add_keys: "find_key k (fold (add_key p) ks cat) = find_key k cat @ replicate (count_list ks k) p"
  by (induction ks arbitrary: cat) (auto simp: find_add_key replicate_append_same)

lemma find_catalog_of:
  "find_key k (catalog_of ps) = concat (map (\<lambda>p. replicate (count_list (gives (built p)) k) p) ps)"
proof -
  have "find_key k (fold (\<lambda>p. fold (add_key p) (gives (built p))) ps cat)
      = find_key k cat @ concat (map (\<lambda>p. replicate (count_list (gives (built p)) k) p) ps)" for cat
    by (induction ps arbitrary: cat) (auto simp: find_add_keys)
  then show ?thesis by (simp add: catalog_of_def)
qed

definition offers :: "nat list \<Rightarrow> key \<Rightarrow> catalog \<Rightarrow> provider list" where
  "offers s k cat = filter (\<lambda>p. if is_private p then prefix (scope p) s else True) (find_key k cat)"

definition built_in :: "key \<Rightarrow> bool" where
  "built_in k \<longleftrightarrow> key_eq k (one TLifecycle) \<or> key_eq k (one TShutdowner)"

text \<open>
  Whether a value can be had in a scope: a single value has exactly one constructor, a group any number, and the
  parameters of each must be had in its scope; an optional one may be missing. A decorated value also needs
  what its decorators take besides. The fuel bounds the depth of the graph, so that a cycle fails.
\<close>

definition had :: "key \<Rightarrow> (nat list \<Rightarrow> key \<Rightarrow> bool) \<Rightarrow> catalog \<Rightarrow> provider list \<Rightarrow> bool" where
  "had k res cat ps =
     (if (case k of Single _ _ \<Rightarrow> length ps = 1 | Group _ _ \<Rightarrow> True)
      then list_all (\<lambda>p. if list_all (res (scope p)) (takes (built p))
             then list_all (\<lambda>v. if offers (scope p) v cat = [] then True else res (scope p) v) (optional (built p))
             else False) ps
      else False)"

fun resolve :: "nat \<Rightarrow> catalog \<Rightarrow> (nat list \<times> ctor) list \<Rightarrow> nat list \<Rightarrow> key \<Rightarrow> bool" where
  "resolve 0 cat dec s k \<longleftrightarrow> False"
| "resolve (Suc n) cat dec s k =
     (if built_in k then True
      else if had k (resolve n cat dec) cat (offers s k cat)
      then list_all (\<lambda>(ds, d). if list_ex (key_eq k) (gives d) then if prefix ds s
               then list_all (resolve n cat dec ds) (filter (\<lambda>v. \<not> key_eq v k) (takes d)) else True else True) dec
      else False)"

text \<open>A bound on the number of values of an application, and so on the depth of its graph.\<close>

definition depth :: nat where
  "depth = 256"

text \<open>
  dig refuses a constructor for a value that has one already in a scope where it would be seen
  (src/vendor/go.uber.org/dig/provide.go, \<open>checkKey\<close>).
\<close>

definition seen_from :: "provider \<Rightarrow> nat list" where
  "seen_from p = (if is_private p then scope p else [])"

fun unambiguous :: "provider list \<Rightarrow> bool" where
  "unambiguous [] \<longleftrightarrow> True"
| "unambiguous (p # ps) \<longleftrightarrow>
     (if list_ex (\<lambda>q. if prefix (seen_from p) (seen_from q) then True else prefix (seen_from q) (seen_from p)) ps then False
      else unambiguous ps)"

definition provides_once :: "catalog \<Rightarrow> bool" where
  "provides_once cat = list_all (\<lambda>(k, ps). case k of Single _ _ \<Rightarrow> unambiguous ps | Group _ _ \<Rightarrow> True) cat"

definition runs :: "catalog \<Rightarrow> app \<Rightarrow> bool" where
  "runs cat a = list_all (\<lambda>(s, c). list_all (resolve depth cat (decorators a) s) (takes c)) (invokes a)"

definition app_ok :: "fx_option \<Rightarrow> bool" where
  "app_ok opt \<longleftrightarrow>
     (let a = app_of opt; cat = catalog_of (providers a) in provides_once cat \<and> runs cat a)"

section \<open>Resolution in one pass\<close>

text \<open>
  \<open>resolve\<close> visits a value as often as it is asked for. A depth-first traversal that lists every value once, after
  all it depends on, certifies the same.
\<close>

type_synonym node = "nat list \<times> key"

definition deps :: "catalog \<Rightarrow> (nat list \<times> ctor) list \<Rightarrow> nat list \<Rightarrow> key \<Rightarrow> node list" where
  "deps cat dec s k =
     concat (map (\<lambda>p. map (Pair (scope p)) (takes (built p) @ filter (\<lambda>v. offers (scope p) v cat \<noteq> []) (optional (built p))))
       (offers s k cat)) @
     concat (map (\<lambda>(ds, d). map (Pair ds) (filter (\<lambda>v. \<not> key_eq v k) (takes d)))
       (filter (\<lambda>(ds, d). if list_ex (key_eq k) (gives d) then prefix ds s else False) dec))"

definition counted :: "catalog \<Rightarrow> nat list \<Rightarrow> key \<Rightarrow> bool" where
  "counted cat s k = (case k of Single _ _ \<Rightarrow> length (offers s k cat) = 1 | Group _ _ \<Rightarrow> True)"

fun knows :: "node list \<Rightarrow> node \<Rightarrow> bool" where
  "knows [] x = False"
| "knows ((s', k') # vs) (s, k) = (if key_eq k k' then if s = s' then True else knows vs (s, k) else knows vs (s, k))"

lemma knows_iff: "knows vs x \<longleftrightarrow> x \<in> set vs"
  by (induction vs x rule: knows.induct) (auto simp: key_eq_iff)

fun visit :: "nat \<Rightarrow> catalog \<Rightarrow> (nat list \<times> ctor) list \<Rightarrow> node \<Rightarrow> node list \<Rightarrow> node list" where
  "visit 0 cat dec x vs = vs"
| "visit (Suc n) cat dec (s, k) vs =
     (if knows vs (s, k) then vs
      else if built_in k then (s, k) # vs
      else if counted cat s k
      then let ds = deps cat dec s k; vs1 = fold (visit n cat dec) ds vs
           in if list_all (knows vs1) ds then (s, k) # vs1 else vs1
      else vs)"

fun certified :: "catalog \<Rightarrow> (nat list \<times> ctor) list \<Rightarrow> node list \<Rightarrow> bool" where
  "certified cat dec [] \<longleftrightarrow> True"
| "certified cat dec ((s, k) # vs) \<longleftrightarrow>
     (built_in k \<or> counted cat s k \<and> list_all (knows vs) (deps cat dec s k)) \<and> certified cat dec vs"

lemma certified_fold:
  "(\<And>x vs. x \<in> set xs \<Longrightarrow> certified cat dec vs \<Longrightarrow> certified cat dec (f x vs)) \<Longrightarrow> certified cat dec vs \<Longrightarrow>
   certified cat dec (fold f xs vs)"
  by (induction xs arbitrary: vs) auto

lemma certified_visit: "certified cat dec vs \<Longrightarrow> certified cat dec (visit n cat dec x vs)"
proof (induction n arbitrary: x vs)
  case (Suc n)
  obtain s k where "x = (s, k)" by (cases x)
  then show ?case using Suc certified_fold [of _ cat dec "visit n cat dec"] by (auto simp: Let_def)
qed simp

lemma deps_iff:
  "(\<forall>(s', k') \<in> set (deps cat dec s k). R s' k') \<longleftrightarrow>
     (\<forall>p \<in> set (offers s k cat). (\<forall>v \<in> set (takes (built p)). R (scope p) v)
        \<and> (\<forall>v \<in> set (optional (built p)). offers (scope p) v cat \<noteq> [] \<longrightarrow> R (scope p) v))
     \<and> (\<forall>(ds, d) \<in> set dec. k \<in> set (gives d) \<and> prefix ds s \<longrightarrow> (\<forall>v \<in> set (takes d). v \<noteq> k \<longrightarrow> R ds v))"
  by (simp add: deps_def list_ex_iff key_eq_iff split_beta ball_Un Ball_def) blast

lemma resolve_Suc:
  "resolve (Suc n) cat dec s k \<longleftrightarrow>
     built_in k \<or> counted cat s k \<and> (\<forall>(s', k') \<in> set (deps cat dec s k). resolve n cat dec s' k')"
  unfolding deps_iff by (cases k) (auto simp: had_def counted_def list_all_iff list_ex_iff key_eq_iff)

declare resolve.simps(2) [simp del]

lemma resolve_mono: "resolve m cat dec s k \<Longrightarrow> m \<le> n \<Longrightarrow> resolve n cat dec s k"
proof (induction m arbitrary: n s k)
  case (Suc m)
  then obtain n' where n: "n = Suc n'" "m \<le> n'" by (cases n) auto
  show ?case using Suc.prems(1) Suc.IH n(2) unfolding n(1) resolve_Suc by blast
qed simp

lemma certified_resolve:
  assumes "certified cat dec vs" and "(s, k) \<in> set vs"
  shows "resolve (length vs) cat dec s k"
  using assms
proof (induction vs arbitrary: s k)
  case (Cons x vs)
  obtain s0 k0 where x: "x = (s0, k0)" by (cases x)
  have rest: "certified cat dec vs" using Cons.prems(1) x by (simp split: if_splits)
  show ?case
  proof (cases "(s, k) \<in> set vs")
    case True
    then show ?thesis using resolve_mono [OF Cons.IH [OF rest True]] by simp
  next
    case False
    then have "x = (s, k)" using Cons.prems(2) x by simp
    then show ?thesis using Cons.prems(1) Cons.IH [OF rest]
      by (auto simp: resolve_Suc list_all_iff knows_iff split: if_splits)
  qed
qed simp

definition roots :: "app \<Rightarrow> node list" where
  "roots a = concat (map (\<lambda>(s, c). map (Pair s) (takes c)) (invokes a))"

lemma in_roots: "(s, c) \<in> set (invokes a) \<Longrightarrow> k \<in> set (takes c) \<Longrightarrow> (s, k) \<in> set (roots a)"
  by (force simp: roots_def)

definition one_pass :: "fx_option \<Rightarrow> bool" where
  "one_pass opt =
     (let a = app_of opt; cat = catalog_of (providers a); rs = roots a; vs = fold (visit 10 cat (decorators a)) rs []
      in if provides_once cat then if length vs \<le> depth then list_all (knows vs) rs else False else False)"

lemma one_pass_app_ok:
  assumes "one_pass opt"
  shows "app_ok opt"
proof -
  let ?a = "app_of opt" and ?cat = "catalog_of (providers (app_of opt))"
  let ?vs = "fold (visit 10 ?cat (decorators ?a)) (roots ?a) []"
  have "provides_once ?cat" "length ?vs \<le> depth" and known: "set (roots ?a) \<subseteq> set ?vs"
    using assms by (auto simp: one_pass_def Let_def list_all_iff knows_iff split: if_splits)
  moreover have "certified ?cat (decorators ?a) ?vs"
    by (rule certified_fold) (simp_all add: certified_visit)
  ultimately have "resolve depth ?cat (decorators ?a) s k" if "(s, k) \<in> set (roots ?a)" for s k
    using that resolve_mono [OF certified_resolve] by blast
  then show ?thesis using \<open>provides_once ?cat\<close>
    by (auto simp: app_ok_def runs_def Let_def list_all_iff in_roots)
qed

section \<open>The systems resolve\<close>

text \<open>The system of the server by the three conditions that its modules test.\<close>

definition server_system :: "bool \<Rightarrow> pprof_mode \<Rightarrow> bool \<Rightarrow> fx_option" where
  "server_system b m b' =
     Options
       [Provide False [supplied (one TAppConfig)],
        logging_NewModule, pprof_options m, Module ''metrics'' (metrics_options b'), tracing_NewModule, sentry_NewModule,
        Module ''grpc-server'' (grpc_server_options b []), health_Module,
        Provide False [ctor_of [] [one TRouteGuideServer]],
        Invoke [ctor_of [one TServiceRegistrar, one TRouteGuideServer] [], StartGrpcServer_ctor []]]"

lemma server_tfilest: "one_pass (server_system True PprofFiles True)"
  by code_simp

lemma server_tfilesf: "one_pass (server_system True PprofFiles False)"
  by code_simp

lemma server_ttlst: "one_pass (server_system True (PprofServer True) True)"
  by code_simp

lemma server_ttlsf: "one_pass (server_system True (PprofServer True) False)"
  by code_simp

lemma server_thttpt: "one_pass (server_system True (PprofServer False) True)"
  by code_simp

lemma server_thttpf: "one_pass (server_system True (PprofServer False) False)"
  by code_simp

lemma server_tofft: "one_pass (server_system True PprofOff True)"
  by code_simp

lemma server_tofff: "one_pass (server_system True PprofOff False)"
  by code_simp

lemma server_ffilest: "one_pass (server_system False PprofFiles True)"
  by code_simp

lemma server_ffilesf: "one_pass (server_system False PprofFiles False)"
  by code_simp

lemma server_ftlst: "one_pass (server_system False (PprofServer True) True)"
  by code_simp

lemma server_ftlsf: "one_pass (server_system False (PprofServer True) False)"
  by code_simp

lemma server_fhttpt: "one_pass (server_system False (PprofServer False) True)"
  by code_simp

lemma server_fhttpf: "one_pass (server_system False (PprofServer False) False)"
  by code_simp

lemma server_fofft: "one_pass (server_system False PprofOff True)"
  by code_simp

lemma server_fofff: "one_pass (server_system False PprofOff False)"
  by code_simp

lemmas server_systems =
  server_tfilest [THEN one_pass_app_ok]
  server_tfilesf [THEN one_pass_app_ok]
  server_ttlst [THEN one_pass_app_ok]
  server_ttlsf [THEN one_pass_app_ok]
  server_thttpt [THEN one_pass_app_ok]
  server_thttpf [THEN one_pass_app_ok]
  server_tofft [THEN one_pass_app_ok]
  server_tofff [THEN one_pass_app_ok]
  server_ffilest [THEN one_pass_app_ok]
  server_ffilesf [THEN one_pass_app_ok]
  server_ftlst [THEN one_pass_app_ok]
  server_ftlsf [THEN one_pass_app_ok]
  server_fhttpt [THEN one_pass_app_ok]
  server_fhttpf [THEN one_pass_app_ok]
  server_fofft [THEN one_pass_app_ok]
  server_fofff [THEN one_pass_app_ok]

lemma server_system_ok: "app_ok (server_system b m b')"
proof (cases m)
  case (PprofServer b'')
  then show ?thesis using server_systems by (cases b; cases b''; cases b') simp_all
qed (use server_systems in \<open>(cases b; cases b'; simp)+\<close>)

lemma job_system: "app_ok job_createSystem"
  by (rule one_pass_app_ok) code_simp

text \<open>
  A client application with the connection manager, one that exports metrics over OTLP, and a test with an
  in-memory server behind authorization.
\<close>

definition client_system :: fx_option where
  "client_system =
     Options [logging_NewModule, tracing_NewModule, NewConnManagerModule, Invoke [ctor_of [one TConnManager] []]]"

definition otlp_system :: fx_option where
  "otlp_system = Options [logging_NewModule, NewOtlpModule, grpc_NewClientModule, Invoke [ctor_of [one TClientConn] []]]"

definition test_system :: fx_option where
  "test_system =
     Options
       [logging_NewModule, tracing_NewModule, authorizer_NewModule, grpctest_Module, health_Module,
        Invoke [ctor_of [one TServiceRegistrar, one TClientConn] []]]"

lemma client_system_ok: "app_ok client_system" "app_ok otlp_system" "app_ok test_system"
  by (rule one_pass_app_ok, code_simp)+

text \<open>
  The remaining modules in one application: pushed metrics, authorization, a named gRPC server, a named HTTP
  server and a named client.
\<close>

definition named_system :: "bool \<Rightarrow> bool \<Rightarrow> bool \<Rightarrow> fx_option" where
  "named_system b e certs =
     Options
       [logging_NewModule, Options (push_options e certs), authorizer_NewModule,
        Module ''grpc-server'' (grpc_server_options b ''api''),
        Options [Module ''http'' (http_server_options b ''web''), Invoke [StartHttpServer_ctor ''web'']],
        grpc_NewNamedClientModule ''db'',
        Invoke [StartGrpcServer_ctor ''api'', ctor_of [Single TServiceRegistrar ''api'', Single TClientConn ''db''] []]]"

definition all_named :: "Server \<Rightarrow> PushMetrics \<Rightarrow> fx_option" where
  "all_named sv pm =
     Options
       [logging_NewModule, NewPushModule pm, authorizer_NewModule, grpc_NewServerModule sv [WithServerModuleName ''api''],
        http_NewNamedModule ''web'' sv, grpc_NewNamedClientModule ''db'',
        Invoke [StartGrpcServer_ctor ''api'', ctor_of [Single TServiceRegistrar ''api'', Single TClientConn ''db''] []]]"

lemma push_options_off: "push_options False certs = push_options False True"
  by (simp add: push_options_def)

lemma named_tnone: "one_pass (named_system True False True)"
  by code_simp

lemma named_tplain: "one_pass (named_system True True False)"
  by code_simp

lemma named_tcerts: "one_pass (named_system True True True)"
  by code_simp

lemma named_fnone: "one_pass (named_system False False True)"
  by code_simp

lemma named_fplain: "one_pass (named_system False True False)"
  by code_simp

lemma named_fcerts: "one_pass (named_system False True True)"
  by code_simp

lemmas named_systems =
  named_tnone [THEN one_pass_app_ok]
  named_tplain [THEN one_pass_app_ok]
  named_tcerts [THEN one_pass_app_ok]
  named_fnone [THEN one_pass_app_ok]
  named_fplain [THEN one_pass_app_ok]
  named_fcerts [THEN one_pass_app_ok]

lemma named_system_ok: "app_ok (named_system b e certs)"
proof (cases e)
  case False
  then have "named_system b e certs = named_system b False True"
    using push_options_off [of certs] by (simp add: named_system_def)
  then show ?thesis using named_systems by (cases b) simp_all
next
  case True
  then show ?thesis using named_systems by (cases b; cases certs) simp_all
qed

section \<open>Properties\<close>


text \<open>
  The connection manager asks for interceptors twice, once under group names that no module provides: those two
  chains are always empty, while the interceptors of the modules reach it through the groups that its own
  parameters name.
\<close>

lemma conn_manager_dead_groups:
  "find_key (Group TUnaryClientInterceptor ''unary_client_interceptors'') (catalog_of (providers (app_of client_system))) = []
   \<and> find_key (Group TStreamClientInterceptor ''stream_client_interceptors'') (catalog_of (providers (app_of client_system))) = []
   \<and> length (find_key (Group TUnaryClientInterceptor ''unary_client_interceptor'') (catalog_of (providers (app_of client_system)))) = 3"
  by code_simp

end
